(* ===== verification/Prelude.thy ===== *)
theory Prelude
  imports Main "HOL-Library.Word"
begin

section \<open>Prelude: effects, frame relations, rows\<close>

text \<open>
  What every component of the development shares.
  \<^item> A Python coroutine that reads and writes state and may raise is an action
    \<open>'s \<Rightarrow> ('e + 'a) \<times> 's\<close>: \<open>Inl\<close> is the exception that leaves it, \<open>Inr\<close> its value,
    and the state is the one it leaves behind in either case. \<open>chain\<close> is sequencing,
    \<open>attempt\<close> is \<open>try/except\<close>, \<open>ensure\<close> is \<open>try/finally\<close>.
  \<^item> A frame relation is what an action may do to the state; the locale
    \<open>frame_relation\<close> proves once that a relation kept by the parts of an action is kept
    by the whole.
  \<^item> A table is a list of rows; \<open>update_where\<close>, \<open>delete_where\<close> and \<open>find\<close> are the
    row transformations of the single-table statements in the source.
\<close>

named_theorems act_simps \<open>unfolding of the effect combinators\<close>
named_theorems op_defs \<open>definitions of operations, for evaluation\<close>
named_theorems frame_intros \<open>frame lemmas of actions\<close>

subsection \<open>Effects\<close>

type_synonym ('s, 'e, 'a) act = "'s \<Rightarrow> ('e + 'a) \<times> 's"

definition ret :: "'a \<Rightarrow> ('s, 'e, 'a) act" where
  "ret x = (\<lambda>s. (Inr x, s))"

definition raise :: "'e \<Rightarrow> ('s, 'e, 'a) act" where
  "raise e = (\<lambda>s. (Inl e, s))"

definition chain :: "('s, 'e, 'a) act \<Rightarrow> ('a \<Rightarrow> ('s, 'e, 'b) act) \<Rightarrow> ('s, 'e, 'b) act" where
  "chain m f = (\<lambda>s. case m s of (Inl e, t) \<Rightarrow> (Inl e, t) | (Inr x, t) \<Rightarrow> f x t)"

definition attempt :: "('s, 'e, 'a) act \<Rightarrow> ('e \<Rightarrow> ('s, 'e, 'a) act) \<Rightarrow> ('s, 'e, 'a) act" where
  "attempt m h = (\<lambda>s. case m s of (Inl e, t) \<Rightarrow> h e t | (Inr x, t) \<Rightarrow> (Inr x, t))"

definition ensure :: "('s, 'e, 'a) act \<Rightarrow> ('s \<Rightarrow> 's) \<Rightarrow> ('s, 'e, 'a) act" where
  "ensure m f = (\<lambda>s. case m s of (r, t) \<Rightarrow> (r, f t))"

definition modify :: "('s \<Rightarrow> 's) \<Rightarrow> ('s, 'e, unit) act" where
  "modify f = (\<lambda>s. (Inr (), f s))"

fun each :: "('b \<Rightarrow> ('s, 'e, unit) act) \<Rightarrow> 'b list \<Rightarrow> ('s, 'e, unit) act" where
  "each f [] = ret ()"
| "each f (x # xs) = chain (f x) (\<lambda>_. each f xs)"

lemma ret_apply [simp, act_simps]: "ret x s = (Inr x, s)"
  by (simp add: ret_def)

lemma raise_apply [simp, act_simps]: "raise e s = (Inl e, s)"
  by (simp add: raise_def)

lemma modify_apply [simp, act_simps]: "modify f s = (Inr (), f s)"
  by (simp add: modify_def)

lemma chain_Inr [simp]: "m s = (Inr x, t) \<Longrightarrow> chain m f s = f x t"
  by (simp add: chain_def)

lemma chain_Inl [simp]: "m s = (Inl e, t) \<Longrightarrow> chain m f s = (Inl e, t)"
  by (simp add: chain_def)

lemma chain_ret [simp]: "chain (ret x) f = f x"
  by (simp add: chain_def fun_eq_iff)

lemma chain_raise [simp]: "chain (raise e) f = raise e"
  by (simp add: chain_def fun_eq_iff)

lemma chain_modify [simp]: "chain (modify f) g s = g () (f s)"
  by (simp add: chain_def)

lemma chain_assoc: "chain (chain m f) g = chain m (\<lambda>x. chain (f x) g)"
  by (rule ext) (simp add: chain_def split: prod.split sum.split)

lemma chain_eq_Inr_iff:
  "chain m f s = (Inr y, u) \<longleftrightarrow> (\<exists>x t. m s = (Inr x, t) \<and> f x t = (Inr y, u))"
  by (auto simp: chain_def split: prod.split sum.split)

lemma chain_eq_Inl_iff:
  "chain m f s = (Inl e, u) \<longleftrightarrow>
     m s = (Inl e, u) \<or> (\<exists>x t. m s = (Inr x, t) \<and> f x t = (Inl e, u))"
  by (auto simp: chain_def split: prod.split sum.split)

lemma attempt_eq_Inr_iff:
  "attempt m h s = (Inr y, u) \<longleftrightarrow>
     m s = (Inr y, u) \<or> (\<exists>e t. m s = (Inl e, t) \<and> h e t = (Inr y, u))"
  by (auto simp: attempt_def split: prod.split sum.split)

lemma attempt_Inr [simp]: "m s = (Inr x, t) \<Longrightarrow> attempt m h s = (Inr x, t)"
  by (simp add: attempt_def)

lemma attempt_Inl [simp]: "m s = (Inl e, t) \<Longrightarrow> attempt m h s = h e t"
  by (simp add: attempt_def)

lemma ensure_apply: "ensure m f s = (fst (m s), f (snd (m s)))"
  by (simp add: ensure_def split: prod.split)

lemma each_append: "each f (xs @ ys) = chain (each f xs) (\<lambda>_. each f ys)"
  by (induction xs) (simp_all add: chain_assoc)

subsection \<open>Frame relations\<close>

text \<open>
  \<open>keeps rel m\<close>: whatever action \<open>m\<close> does, returning or raising, the state it leaves is
  related to the one it started in.
\<close>

definition keeps :: "('s \<Rightarrow> 's \<Rightarrow> bool) \<Rightarrow> ('s, 'e, 'a) act \<Rightarrow> bool" where
  "keeps rel m \<longleftrightarrow> (\<forall>s. rel s (snd (m s)))"

lemma keepsI: "(\<And>s. rel s (snd (m s))) \<Longrightarrow> keeps rel m"
  by (simp add: keeps_def)

lemma keepsD: "keeps rel m \<Longrightarrow> m s = (r, t) \<Longrightarrow> rel s t"
  by (metis keeps_def snd_conv)

locale frame_relation =
  fixes rel :: "'s \<Rightarrow> 's \<Rightarrow> bool"
  assumes rel_refl: "rel s s"
    and rel_trans: "rel s t \<Longrightarrow> rel t u \<Longrightarrow> rel s u"
begin

lemma keeps_ret: "keeps rel (ret x)"
  by (simp add: keeps_def rel_refl)

lemma keeps_raise: "keeps rel (raise e)"
  by (simp add: keeps_def rel_refl)

lemma keeps_modify: "(\<And>s. rel s (f s)) \<Longrightarrow> keeps rel (modify f)"
  by (simp add: keeps_def)

lemma keeps_chain:
  assumes m: "keeps rel m" and f: "\<And>x. keeps rel (f x)"
  shows "keeps rel (chain m f)"
proof (rule keepsI)
  fix s
  obtain r t where mt: "m s = (r, t)" by (cases "m s")
  have st: "rel s t" using m mt by (rule keepsD)
  show "rel s (snd (chain m f s))"
  proof (cases r)
    case (Inl e)
    then show ?thesis using mt st by simp
  next
    case (Inr x)
    have "rel t (snd (f x t))" using f by (simp add: keeps_def)
    with st have "rel s (snd (f x t))" by (rule rel_trans)
    then show ?thesis using mt Inr by simp
  qed
qed

lemma keeps_attempt:
  assumes m: "keeps rel m" and h: "\<And>e. keeps rel (h e)"
  shows "keeps rel (attempt m h)"
proof (rule keepsI)
  fix s
  obtain r t where mt: "m s = (r, t)" by (cases "m s")
  have st: "rel s t" using m mt by (rule keepsD)
  show "rel s (snd (attempt m h s))"
  proof (cases r)
    case (Inl e)
    have "rel t (snd (h e t))" using h by (simp add: keeps_def)
    with st have "rel s (snd (h e t))" by (rule rel_trans)
    then show ?thesis using mt Inl by simp
  next
    case (Inr x)
    then show ?thesis using mt st by simp
  qed
qed

lemma keeps_each: "(\<And>x. keeps rel (f x)) \<Longrightarrow> keeps rel (each f xs)"
  by (induction xs) (simp_all add: keeps_ret keeps_chain)

lemma keeps_each_mem: "(\<And>x. x \<in> set xs \<Longrightarrow> keeps rel (f x)) \<Longrightarrow> keeps rel (each f xs)"
  by (induction xs) (simp_all add: keeps_ret keeps_chain)

lemma keeps_if: "keeps rel m \<Longrightarrow> keeps rel n \<Longrightarrow> keeps rel (if b then m else n)"
  by simp

lemma keeps_option:
  "keeps rel m \<Longrightarrow> (\<And>x. keeps rel (f x)) \<Longrightarrow>
    keeps rel (case v of None \<Rightarrow> m | Some x \<Rightarrow> f x)"
  by (simp split: option.split)

lemmas keeps_intros =
  keeps_ret keeps_raise keeps_chain keeps_attempt keeps_each keeps_if keeps_option

end

subsection \<open>Tables\<close>

definition update_where :: "('r \<Rightarrow> bool) \<Rightarrow> ('r \<Rightarrow> 'r) \<Rightarrow> 'r list \<Rightarrow> 'r list" where
  "update_where p f rows = map (\<lambda>r. if p r then f r else r) rows"

definition delete_where :: "('r \<Rightarrow> bool) \<Rightarrow> 'r list \<Rightarrow> 'r list" where
  "delete_where p rows = filter (\<lambda>r. \<not> p r) rows"

text \<open>
  A table whose rows carry a primary key. The facts about lookups after an update, an
  insert or a delete are proved once for any key; the tables of the model interpret it.
\<close>

locale keyed_table =
  fixes key :: "'r \<Rightarrow> 'k" and upd :: "('r \<Rightarrow> 'r) set"
  assumes upd_key: "f \<in> upd \<Longrightarrow> key (f r) = key r"
begin

lemma keys_update_where: "f \<in> upd \<Longrightarrow> map key (update_where p f rows) = map key rows"
  by (induction rows) (auto simp: update_where_def upd_key)

lemma keys_delete_where: "distinct (map key rows) \<Longrightarrow> distinct (map key (delete_where p rows))"
  by (simp add: delete_where_def distinct_map_filter)

lemma find_update_where:
  "f \<in> upd \<Longrightarrow> find (\<lambda>r. key r = k) (update_where p f rows) =
     map_option (\<lambda>r. if p r then f r else r) (find (\<lambda>r. key r = k) rows)"
  by (induction rows) (auto simp: update_where_def upd_key)

lemma find_key_mem: "find (\<lambda>r. key r = k) rows = Some r \<Longrightarrow> r \<in> set rows \<and> key r = k"
  by (induction rows) (auto split: if_splits)

lemma find_filter_key:
  "distinct (map key rows) \<Longrightarrow>
     filter (\<lambda>r. key r = k \<and> p r) rows =
       (case find (\<lambda>r. key r = k) rows of None \<Rightarrow> [] | Some r \<Rightarrow> if p r then [r] else [])"
proof (induction rows)
  case (Cons a rows)
  show ?case
  proof (cases "key a = k")
    case True
    with Cons.prems have "filter (\<lambda>r. key r = k \<and> p r) rows = []"
      by (auto simp: filter_empty_conv image_iff)
    with True show ?thesis by simp
  next
    case False
    with Cons show ?thesis by simp
  qed
qed simp

lemma find_Some_iff_mem:
  "distinct (map key rows) \<Longrightarrow> find (\<lambda>r. key r = k) rows = Some r \<longleftrightarrow> r \<in> set rows \<and> key r = k"
  by (induction rows) (auto simp: image_iff)

lemma find_append_new:
  "find (\<lambda>r. key r = k) (rows @ [x]) =
     (case find (\<lambda>r. key r = k) rows of None \<Rightarrow> if key x = k then Some x else None | Some r \<Rightarrow> Some r)"
  by (induction rows) auto

end

lemma set_update_where: "set (update_where p f rows) = (\<lambda>r. if p r then f r else r) ` set rows"
  by (simp add: update_where_def)

lemma update_where_memE:
  assumes "r \<in> set (update_where p g rows)"
  obtains q where "q \<in> set rows" "r = (if p q then g q else q)"
  using assms unfolding set_update_where by blast

lemma length_update_where [simp]: "length (update_where p f rows) = length rows"
  by (simp add: update_where_def)

lemma update_where_none: "(\<And>r. r \<in> set rows \<Longrightarrow> \<not> p r) \<Longrightarrow> update_where p f rows = rows"
  by (induction rows) (auto simp: update_where_def)

lemma set_delete_where: "set (delete_where p rows) = {r \<in> set rows. \<not> p r}"
  by (auto simp: delete_where_def)

lemma distinct_map_update:
  assumes "distinct (map k xs)"
    and "\<And>x y. x \<in> set xs \<Longrightarrow> y \<in> set xs \<Longrightarrow> p x \<Longrightarrow> \<not> p y \<Longrightarrow> k (g x) \<noteq> k y"
    and "\<And>x y. x \<in> set xs \<Longrightarrow> y \<in> set xs \<Longrightarrow> p x \<Longrightarrow> p y \<Longrightarrow> x = y"
  shows "distinct (map k (update_where p g xs))"
  using assms
proof (induction xs)
  case (Cons a xs)
  have hd: "k (if p a then g a else a) \<noteq> k (if p x then g x else x)" if x: "x \<in> set xs" for x
  proof -
    have "k x \<noteq> k a" using Cons.prems(1) x by (auto simp: image_iff)
    then have "x \<noteq> a" by auto
    with \<open>k x \<noteq> k a\<close> show ?thesis
      using Cons.prems(2) [of a x] Cons.prems(2) [of x a] Cons.prems(3) [of a x] x by auto
  qed
  have "distinct (map k (update_where p g xs))"
    by (rule Cons.IH) (use Cons.prems in \<open>auto 4 3\<close>)
  moreover have "k (if p a then g a else a) \<notin> set (map k (update_where p g xs))"
    unfolding set_map set_update_where using hd by blast
  moreover have "map k (update_where p g (a # xs)) =
      k (if p a then g a else a) # map k (update_where p g xs)"
    by (simp add: update_where_def)
  ultimately show ?case by (simp only: distinct.simps) simp
qed (simp add: update_where_def)

subsection \<open>Tickets that can be claimed once\<close>

text \<open>
  \<open>claim_trace attempt other x bs y\<close>: a run from \<open>x\<close> to \<open>y\<close> in which attempts to claim one ticket,
  with the outcomes \<open>bs\<close>, interleave with whatever else happens.
\<close>

inductive claim_trace ::
  "('s \<Rightarrow> bool \<Rightarrow> 's \<Rightarrow> bool) \<Rightarrow> ('s \<Rightarrow> 's \<Rightarrow> bool) \<Rightarrow> 's \<Rightarrow> bool list \<Rightarrow> 's \<Rightarrow> bool"
  for attempt_claim :: "'s \<Rightarrow> bool \<Rightarrow> 's \<Rightarrow> bool" and other :: "'s \<Rightarrow> 's \<Rightarrow> bool"
  where
    trace_done: "claim_trace attempt_claim other x [] x"
  | trace_claim: "attempt_claim x b y \<Longrightarrow> claim_trace attempt_claim other y bs z \<Longrightarrow>
      claim_trace attempt_claim other x (b # bs) z"
  | trace_other: "other x y \<Longrightarrow> claim_trace attempt_claim other y bs z \<Longrightarrow>
      claim_trace attempt_claim other x bs z"

lemma claim_trace_mono:
  "claim_trace a other x bs y \<Longrightarrow> (\<And>u v. other u v \<Longrightarrow> other' u v) \<Longrightarrow> claim_trace a other' x bs y"
  by (induction rule: claim_trace.induct) (auto intro: claim_trace.intros)

locale claim_once =
  fixes attempt_claim :: "'s \<Rightarrow> bool \<Rightarrow> 's \<Rightarrow> bool"
    and other :: "'s \<Rightarrow> 's \<Rightarrow> bool"
    and fit spent :: "'s \<Rightarrow> bool"
  assumes claim_spends: "fit x \<Longrightarrow> attempt_claim x True y \<Longrightarrow> spent y"
    and spent_refuses: "fit x \<Longrightarrow> spent x \<Longrightarrow> attempt_claim x b y \<Longrightarrow> \<not> b \<and> spent y"
    and other_spent: "fit x \<Longrightarrow> spent x \<Longrightarrow> other x y \<Longrightarrow> spent y"
    and claim_fit: "fit x \<Longrightarrow> attempt_claim x b y \<Longrightarrow> fit y"
    and other_fit: "fit x \<Longrightarrow> other x y \<Longrightarrow> fit y"
begin

lemma spent_trace:
  "claim_trace attempt_claim other x bs z \<Longrightarrow> fit x \<Longrightarrow> spent x \<Longrightarrow> True \<notin> set bs"
  by (induction rule: claim_trace.induct)
     (auto dest: spent_refuses other_spent claim_fit other_fit)

lemma at_most_once:
  "claim_trace attempt_claim other x bs z \<Longrightarrow> fit x \<Longrightarrow> count_list bs True \<le> 1"
proof (induction rule: claim_trace.induct)
  case (trace_claim x b y bs z)
  show ?case
  proof (cases b)
    case True
    with trace_claim have "spent y" "fit y" by (auto dest: claim_spends claim_fit)
    with trace_claim have "True \<notin> set bs" by (auto dest: spent_trace)
    then show ?thesis by (simp add: True)
  next
    case False
    with trace_claim show ?thesis by (auto dest: claim_fit)
  qed
qed (auto dest: other_fit)

end

end
