(* ===== verification/PyText.thy ===== *)
theory PyText
  imports Prelude
begin

section \<open>Python text and UUIDs\<close>

text \<open>
  The operations of Python's \<open>str\<close> and \<open>uuid.UUID\<close> that the program uses, on ASCII text
  (a \<open>string\<close> is a list of characters). A UUID is its 128-bit value.
\<close>

subsection \<open>str\<close>

definition py_space :: "char \<Rightarrow> bool" where
  "py_space c \<longleftrightarrow> c \<in> set [CHR '' '', CHR 0x09, CHR 0x0A, CHR 0x0B, CHR 0x0C, CHR 0x0D,
     CHR 0x1C, CHR 0x1D, CHR 0x1E, CHR 0x1F]"

definition lower_char :: "char \<Rightarrow> char" where
  "lower_char c = (let n = of_char c :: nat in if 65 \<le> n \<and> n \<le> 90 then char_of (n + 32) else c)"

definition lower :: "string \<Rightarrow> string" where
  "lower s = map lower_char s"

definition lstrip :: "string \<Rightarrow> string" where
  "lstrip s = dropWhile py_space s"

definition strip_where :: "(char \<Rightarrow> bool) \<Rightarrow> string \<Rightarrow> string" where
  "strip_where p s = rev (dropWhile p (rev (dropWhile p s)))"

definition strip :: "string \<Rightarrow> string" where
  "strip s = strip_where py_space s"

definition startswith :: "string \<Rightarrow> string \<Rightarrow> bool" where
  "startswith s p \<longleftrightarrow> take (length p) s = p"

definition endswith :: "string \<Rightarrow> string \<Rightarrow> bool" where
  "endswith s p \<longleftrightarrow> startswith (rev s) (rev p)"

text \<open>\<open>contains s sub\<close> is Python's \<open>sub in s\<close>.\<close>

fun contains :: "string \<Rightarrow> string \<Rightarrow> bool" where
  "contains [] sub = (sub = [])"
| "contains (c # s) sub = (startswith (c # s) sub \<or> contains s sub)"

text \<open>\<open>s.replace(old, new)\<close> for a non-empty \<open>old\<close>: left to right, without overlaps.\<close>

function replace :: "string \<Rightarrow> string \<Rightarrow> string \<Rightarrow> string" where
  "replace s old new =
     (if old = [] \<or> s = [] then s
      else if startswith s old then new @ replace (drop (length old) s) old new
      else hd s # replace (tl s) old new)"
  by pat_completeness auto
termination
  by (relation "measure (\<lambda>(s, old, new). length s)") (auto simp: neq_Nil_conv)

declare replace.simps [simp del]

text \<open>\<open>s.split(c)\<close> for a one-character separator, and \<open>s.split()\<close>.\<close>

fun split_on :: "char \<Rightarrow> string \<Rightarrow> string list" where
  "split_on c [] = [[]]"
| "split_on c (x # xs) =
     (if x = c then [] # split_on c xs
      else case split_on c xs of [] \<Rightarrow> [[x]] | w # ws \<Rightarrow> (x # w) # ws)"

function split_ws :: "string \<Rightarrow> string list" where
  "split_ws s =
     (case lstrip s of [] \<Rightarrow> []
      | c # cs \<Rightarrow> takeWhile (\<lambda>x. \<not> py_space x) (c # cs)
                  # split_ws (dropWhile (\<lambda>x. \<not> py_space x) (c # cs)))"
  by pat_completeness auto
termination
proof (relation "measure length")
  fix s c cs
  assume a: "lstrip s = c # cs"
  then have c: "\<not> py_space c"
    by (metis dropWhile_eq_Cons_conv lstrip_def)
  have "length (c # cs) \<le> length s"
    using a length_dropWhile_le [of py_space s] by (simp add: lstrip_def)
  moreover have "length (dropWhile (\<lambda>x. \<not> py_space x) (c # cs)) \<le> length cs"
    using c by (simp add: length_dropWhile_le)
  ultimately show "(dropWhile (\<lambda>x. \<not> py_space x) (c # cs), s) \<in> measure length"
    by simp
qed simp

declare split_ws.simps [simp del]

fun join :: "string \<Rightarrow> string list \<Rightarrow> string" where
  "join sep [] = []"
| "join sep [w] = w"
| "join sep (w # ws) = w @ sep @ join sep ws"

lemma startswith_append [simp]: "startswith (p @ s) p"
  by (simp add: startswith_def)

lemma contains_startswith: "startswith s p \<Longrightarrow> contains s p"
  by (cases s) (auto simp: startswith_def)

lemma contains_append_right: "contains s p \<Longrightarrow> contains (q @ s) p"
  by (induction q) auto

lemma contains_infix: "contains (a @ p @ b) p"
  by (rule contains_append_right) (simp add: contains_startswith)

lemma startswith_set: "startswith s p \<Longrightarrow> set p \<subseteq> set s"
  by (metis startswith_def set_take_subset)

lemma contains_set: "contains s p \<Longrightarrow> set p \<subseteq> set s"
proof (induction s)
  case (Cons c s)
  then show ?case using startswith_set [of "c # s" p] by auto
qed simp

lemma replace_absent: "c \<in> set old \<Longrightarrow> c \<notin> set s \<Longrightarrow> replace s old new = s"
proof (induction s)
  case (Cons x s)
  then have "\<not> startswith (x # s) old"
    using startswith_set by fastforce
  with Cons show ?case by (subst replace.simps) auto
qed (simp add: replace.simps)

lemma strip_where_absent: "(\<And>c. c \<in> set s \<Longrightarrow> \<not> p c) \<Longrightarrow> strip_where p s = s"
proof -
  assume a: "\<And>c. c \<in> set s \<Longrightarrow> \<not> p c"
  then have "dropWhile p s = s" and "dropWhile p (rev s) = rev s"
    by (auto simp: dropWhile_eq_self_iff hd_rev)
  then show ?thesis by (simp add: strip_where_def)
qed

lemma split_on_nonempty [simp]: "split_on c s \<noteq> []"
  by (induction s) (auto split: list.split)

lemma split_on_absent: "w \<in> set (split_on c s) \<Longrightarrow> c \<notin> set w"
proof (induction s arbitrary: w)
  case (Cons x xs)
  obtain v vs where "split_on c xs = v # vs"
    by (cases "split_on c xs") auto
  with Cons show ?case by (auto split: if_splits)
qed simp

lemma split_on_word: "c \<notin> set w \<Longrightarrow> split_on c w = [w]"
  by (induction w) auto

lemma split_on_cons: "c \<notin> set w \<Longrightarrow> split_on c (w @ c # s) = w # split_on c s"
  by (induction w) auto

lemma split_on_join: "ws \<noteq> [] \<Longrightarrow> (\<And>w. w \<in> set ws \<Longrightarrow> c \<notin> set w) \<Longrightarrow> split_on c (join [c] ws) = ws"
  by (induction "[c]" ws rule: join.induct) (simp_all add: split_on_word split_on_cons)

lemma join_snoc: "ws \<noteq> [] \<Longrightarrow> join sep (ws @ [w]) = join sep ws @ sep @ w"
  by (induction sep ws rule: join.induct) auto

lemma join_split_on: "join [c] (split_on c s) = s"
proof (induction s)
  case (Cons x xs)
  obtain v vs where v: "split_on c xs = v # vs"
    by (cases "split_on c xs") auto
  with Cons have IH: "join [c] (v # vs) = xs" by simp
  show ?case
  proof (cases "x = c")
    case True
    then show ?thesis using v IH by simp
  next
    case False
    have "join [c] ((x # v) # vs) = x # join [c] (v # vs)"
      by (cases vs) simp_all
    with False v IH show ?thesis by simp
  qed
qed simp

text \<open>Words joined by blanks are read back by \<open>split()\<close>.\<close>

definition word_ok :: "string \<Rightarrow> bool" where
  "word_ok w \<longleftrightarrow> w \<noteq> [] \<and> (\<forall>c \<in> set w. \<not> py_space c)"

lemma split_ws_Nil [simp]: "split_ws [] = []"
  by (subst split_ws.simps) (simp add: lstrip_def)

lemma split_ws_word: "word_ok w \<Longrightarrow> split_ws w = [w]"
proof -
  assume w: "word_ok w"
  then obtain c cs where wc: "w = c # cs" and ns: "\<not> py_space c" "\<forall>x \<in> set cs. \<not> py_space x"
    by (cases w) (auto simp: word_ok_def)
  then show ?thesis
    by (subst split_ws.simps) (simp add: lstrip_def dropWhile_eq_Nil_conv [THEN iffD2])
qed

lemma split_ws_cons: "word_ok w \<Longrightarrow> split_ws (w @ CHR '' '' # s) = w # split_ws s"
proof -
  assume w: "word_ok w"
  have sp: "py_space (CHR '' '')" by (simp add: py_space_def)
  from w obtain c cs where wc: "w = c # cs" and ns: "\<not> py_space c" "\<forall>x \<in> set cs. \<not> py_space x"
    by (cases w) (auto simp: word_ok_def)
  have blank: "split_ws (CHR '' '' # s) = split_ws s"
    using sp by (subst (1 2) split_ws.simps) (simp add: lstrip_def)
  have "lstrip (w @ CHR '' '' # s) = c # cs @ CHR '' '' # s"
    using wc ns by (simp add: lstrip_def)
  moreover have "takeWhile (\<lambda>x. \<not> py_space x) (c # cs @ CHR '' '' # s) = w"
    using wc ns sp by (simp add: takeWhile_tail)
  moreover have "dropWhile (\<lambda>x. \<not> py_space x) (c # cs @ CHR '' '' # s) = CHR '' '' # s"
    using ns sp by (simp add: dropWhile_append3 dropWhile_append)
  ultimately show ?thesis
    by (subst split_ws.simps) (simp add: blank)
qed

lemma split_ws_join: "(\<And>w. w \<in> set ws \<Longrightarrow> word_ok w) \<Longrightarrow> split_ws (join '' '' ws) = ws"
proof (induction ws)
  case (Cons w ws)
  then have w: "word_ok w" and ws: "split_ws (join '' '' ws) = ws" by simp_all
  show ?case
  proof (cases ws)
    case Nil
    then show ?thesis using w by (simp add: split_ws_word)
  next
    case (Cons v vs)
    then show ?thesis using w ws by (simp add: split_ws_cons)
  qed
qed simp


subsection \<open>uuid.UUID\<close>

text \<open>
  \<open>uuid_hex u\<close> is \<open>u.hex\<close>, \<open>str_uuid u\<close> is \<open>str(u)\<close>, and \<open>parse_uuid s\<close> is \<open>UUID(s)\<close>, with
  \<open>None\<close> where the constructor raises \<open>ValueError\<close>. The constructor drops \<open>urn:\<close>,
  \<open>uuid:\<close>, braces and dashes, wants 32 characters, and reads them with \<open>int(s, 16)\<close>,
  whose own liberties (blanks, a sign, a \<open>0x\<close> prefix, single underscores) are kept.
\<close>

type_synonym uuid = "128 word"

definition hex_digit :: "nat \<Rightarrow> char" where
  "hex_digit n = ''0123456789abcdef'' ! n"

definition hex_value :: "char \<Rightarrow> nat option" where
  "hex_value c =
     (let n = of_char c :: nat in
      if 48 \<le> n \<and> n \<le> 57 then Some (n - 48)
      else if 97 \<le> n \<and> n \<le> 102 then Some (n - 87)
      else if 65 \<le> n \<and> n \<le> 70 then Some (n - 55)
      else None)"

fun hex_of :: "nat \<Rightarrow> nat \<Rightarrow> string" where
  "hex_of 0 n = []"
| "hex_of (Suc k) n = hex_of k (n div 16) @ [hex_digit (n mod 16)]"

definition hex_step :: "nat option \<Rightarrow> char \<Rightarrow> nat option" where
  "hex_step acc c =
     (case acc of None \<Rightarrow> None
      | Some n \<Rightarrow> map_option (\<lambda>d. 16 * n + d) (hex_value c))"

definition hex_number :: "string \<Rightarrow> nat option" where
  "hex_number s =
     (if s = [] \<or> hd s = CHR ''_'' \<or> last s = CHR ''_'' \<or> contains s ''__'' then None
      else foldl hex_step (Some 0) (filter (\<lambda>c. c \<noteq> CHR ''_'') s))"

definition drop_sign :: "string \<Rightarrow> string" where
  "drop_sign s = (case s of c # cs \<Rightarrow> if c = CHR ''+'' then cs else s | [] \<Rightarrow> [])"

definition drop_0x :: "string \<Rightarrow> string" where
  "drop_0x s =
     (if startswith (lower s) ''0x''
      then (let r = drop 2 s in if startswith r ''_'' then tl r else r) else s)"

definition int_base16 :: "string \<Rightarrow> nat option" where
  "int_base16 s = hex_number (drop_0x (drop_sign (strip s)))"

definition uuid_hex :: "uuid \<Rightarrow> string" where
  "uuid_hex u = hex_of 32 (unat u)"

definition str_uuid :: "uuid \<Rightarrow> string" where
  "str_uuid u =
     (let h = uuid_hex u in
      take 8 h @ ''-'' @ take 4 (drop 8 h) @ ''-'' @ take 4 (drop 12 h) @ ''-''
        @ take 4 (drop 16 h) @ ''-'' @ drop 20 h)"

definition parse_uuid :: "string \<Rightarrow> uuid option" where
  "parse_uuid s =
     (let h = replace (replace s ''urn:'' []) ''uuid:'' [];
          h = filter (\<lambda>c. c \<noteq> CHR ''-'') (strip_where (\<lambda>c. c = CHR ''{'' \<or> c = CHR ''}'') h)
      in if length h \<noteq> 32 then None else map_option word_of_nat (int_base16 h))"

definition hex_char :: "char \<Rightarrow> bool" where
  "hex_char c \<longleftrightarrow> c \<in> set ''0123456789abcdef''"

lemma nibbles: "list_all P [0..<16] \<Longrightarrow> n < 16 \<Longrightarrow> P n" for P :: "nat \<Rightarrow> bool"
  by (simp only: list_all_iff set_upt) simp

lemma hex_digit_char: "n < 16 \<Longrightarrow> hex_char (hex_digit n)"
  by (rule nibbles [of "\<lambda>n. hex_char (hex_digit n)"]) (code_simp, assumption)

lemma hex_value_digit: "n < 16 \<Longrightarrow> hex_value (hex_digit n) = Some n"
  by (rule nibbles [of "\<lambda>n. hex_value (hex_digit n) = Some n"]) (code_simp, assumption)

lemma length_hex_of [simp]: "length (hex_of k n) = k"
  by (induction k arbitrary: n) auto

lemma hex_of_chars: "c \<in> set (hex_of k n) \<Longrightarrow> hex_char c"
  by (induction k arbitrary: n) (auto simp: hex_digit_char)

lemma hex_step_Some: "hex_step (Some n) c = map_option (\<lambda>d. 16 * n + d) (hex_value c)"
  by (simp add: hex_step_def)

lemma foldl_hex_of: "foldl hex_step (Some 0) (hex_of k n) = Some (n mod 16 ^ k)"
proof (induction k arbitrary: n)
  case (Suc k)
  have "n mod (16 * 16 ^ k) = 16 * (n div 16 mod 16 ^ k) + n mod 16"
    by (simp add: mod_mult2_eq)
  then show ?case
    by (simp add: Suc hex_step_Some hex_value_digit)
qed simp

lemma hex_char_not:
  "hex_char c \<Longrightarrow> c \<noteq> CHR ''-'' \<and> c \<noteq> CHR ''_'' \<and> c \<noteq> CHR ''u'' \<and> c \<noteq> CHR ''{'' \<and> c \<noteq> CHR ''}''
     \<and> c \<noteq> CHR ''+'' \<and> c \<noteq> CHR ''x'' \<and> \<not> py_space c \<and> lower_char c = c"
  by (auto simp: hex_char_def py_space_def lower_char_def Let_def)

lemma int_base16_hex_of:
  assumes "0 < k"
  shows "int_base16 (hex_of k n) = Some (n mod 16 ^ k)"
proof -
  let ?h = "hex_of k n"
  note ch = hex_char_not [OF hex_of_chars]
  have ne: "?h \<noteq> []" using assms by (metis length_hex_of list.size(3) neq0_conv)
  have 1: "strip ?h = ?h"
    unfolding strip_def by (rule strip_where_absent) (use ch in blast)
  have 2: "drop_sign ?h = ?h"
  proof (cases ?h)
    case (Cons c cs)
    then have "c \<in> set ?h" by simp
    then have "c \<noteq> CHR ''+''" using ch by blast
    with Cons show ?thesis by (simp add: drop_sign_def)
  qed (use ne in simp)
  have low: "lower ?h = ?h"
    unfolding lower_def by (rule map_idI) (use ch in blast)
  have "\<not> startswith ?h ''0x''"
    using startswith_set [of ?h "''0x''"] ch by auto
  then have 3: "drop_0x ?h = ?h" by (simp add: drop_0x_def low)
  have "\<not> contains ?h ''__''"
    using contains_set [of ?h "''__''"] ch by auto
  moreover have "hd ?h \<noteq> CHR ''_''" and "last ?h \<noteq> CHR ''_''"
    using ch ne by (metis hd_in_set, metis last_in_set)
  moreover have "filter (\<lambda>c. c \<noteq> CHR ''_'') ?h = ?h"
    by (rule filter_True) (use ch in blast)
  ultimately have "hex_number ?h = Some (n mod 16 ^ k)"
    using ne by (simp add: hex_number_def foldl_hex_of)
  then show ?thesis by (simp add: int_base16_def 1 2 3)
qed

lemma filter_dash_str_uuid: "filter (\<lambda>c. c \<noteq> CHR ''-'') (str_uuid u) = uuid_hex u"
proof -
  let ?h = "uuid_hex u"
  have keep: "filter (\<lambda>c. c \<noteq> CHR ''-'') xs = xs" if "set xs \<subseteq> set ?h" for xs
    using that hex_char_not [OF hex_of_chars] by (auto simp: uuid_hex_def intro!: filter_True)
  have "?h = take 8 ?h @ drop 8 ?h" by simp
  also have "drop 8 ?h = take 4 (drop 8 ?h) @ drop 12 ?h"
    using append_take_drop_id [of 4 "drop 8 ?h"] by simp
  also have "drop 12 ?h = take 4 (drop 12 ?h) @ drop 16 ?h"
    using append_take_drop_id [of 4 "drop 12 ?h"] by simp
  also have "drop 16 ?h = take 4 (drop 16 ?h) @ drop 20 ?h"
    using append_take_drop_id [of 4 "drop 16 ?h"] by simp
  finally have "?h = take 8 ?h @ take 4 (drop 8 ?h) @ take 4 (drop 12 ?h) @ take 4 (drop 16 ?h)
    @ drop 20 ?h" .
  moreover have "set (take 4 (drop i ?h)) \<subseteq> set ?h" for i
    by (meson set_drop_subset set_take_subset subset_trans)
  ultimately show ?thesis
    by (simp add: str_uuid_def Let_def keep set_take_subset set_drop_subset)
qed

text \<open>The text of a UUID is read back as the UUID.\<close>

lemma parse_str_uuid [simp]: "parse_uuid (str_uuid u) = Some u"
proof -
  let ?s = "str_uuid u"
  have sub: "c = CHR ''-'' \<or> hex_char c" if "c \<in> set ?s" for c
    using that hex_of_chars [of c 32 "unat u"]
    by (auto simp: str_uuid_def uuid_hex_def Let_def dest: in_set_takeD in_set_dropD)
  then have not: "CHR ''u'' \<notin> set ?s" "CHR ''{'' \<notin> set ?s" "CHR ''}'' \<notin> set ?s"
    using hex_char_not by auto
  have "replace (replace ?s ''urn:'' []) ''uuid:'' [] = ?s"
    using not(1) by (simp add: replace_absent [where c = "CHR ''u''"])
  moreover have "strip_where (\<lambda>c. c = CHR ''{'' \<or> c = CHR ''}'') ?s = ?s"
    by (rule strip_where_absent) (use not in auto)
  moreover have "int_base16 (uuid_hex u) = Some (unat u mod 16 ^ 32)"
    unfolding uuid_hex_def by (rule int_base16_hex_of) simp
  moreover have "unat u mod 16 ^ 32 = unat u"
  proof -
    have "unat u < 2 ^ 128" using unsigned_less [where 'b = 128 and w = u and 'a = nat] by simp
    then show ?thesis by simp
  qed
  ultimately show ?thesis
    by (simp add: parse_uuid_def filter_dash_str_uuid Let_def uuid_hex_def)
qed

lemma inj_str_uuid: "inj str_uuid"
  by (rule injI) (metis option.inject parse_str_uuid)

subsection \<open>str(int)\<close>

fun str_nat :: "nat \<Rightarrow> string" where
  "str_nat n = (if n < 10 then [] else str_nat (n div 10)) @ [char_of (48 + n mod 10)]"

declare str_nat.simps [simp del]

definition str_int :: "int \<Rightarrow> string" where
  "str_int i = (if i < 0 then CHR ''-'' # str_nat (nat (- i)) else str_nat (nat i))"

lemma str_nat_nonempty [simp]: "str_nat n \<noteq> []"
  by (subst str_nat.simps) simp

subsection \<open>\<open>repr\<close>\<close>

text \<open>\<open>repr\<close> of a text (ASCII): double quotes only when it has single quotes and no double ones.\<close>

definition repr_char :: "char \<Rightarrow> char \<Rightarrow> string" where
  "repr_char quote c =
     (let n = of_char c :: nat in
      if c = quote \<or> n = 92 then [CHR 0x5C, c]
      else if n = 9 then [CHR 0x5C, CHR ''t''] else if n = 10 then [CHR 0x5C, CHR ''n'']
      else if n = 13 then [CHR 0x5C, CHR ''r'']
      else if n < 32 \<or> n = 127 then [CHR 0x5C, CHR ''x''] @ hex_of 2 n
      else [c])"

definition py_repr :: "string \<Rightarrow> string" where
  "py_repr s =
     (let quote = (if CHR 0x27 \<in> set s \<and> CHR 0x22 \<notin> set s then CHR 0x22 else CHR 0x27) in
      quote # concat (map (repr_char quote) s) @ [quote])"


end
