(* ===== verification/Errors.thy ===== *)
theory Errors
  imports PyText
begin

section \<open>Exceptions\<close>

text \<open>
  \<open>core/exception.py\<close> and \<open>auth/exceptions.py\<close>: the domain exceptions as records of the
  attributes their constructors set, together with the class that \<open>except\<close> clauses select
  on; then every exception the modelled code raises or catches. A JSON value is what the
  program puts in payloads.
\<close>

datatype json =
  JNull | JBool bool | JInt int | JStr string | JList "json list" | JObj "(string \<times> json) list"

subsection \<open>core/exception.py\<close>

datatype exc_class =
  DomainExceptionC | EntityNotFoundErrorC | UnauthorizedActionErrorC | ConflictErrorC
| BadRequestErrorC | InvalidCredentialsErrorC | InvalidTokenErrorC | InvalidRefreshTokenErrorC

record domain_exception =
  exc_class :: exc_class
  detail :: string
  status_code :: int
  type_str :: string
  title :: "string option"
  extensions :: "(string \<times> json) list option"

definition domain_exception_error :: "string \<Rightarrow> domain_exception" where
  "domain_exception_error d =
     \<lparr>exc_class = DomainExceptionC, detail = d, status_code = 400, type_str = ''about:blank'',
      title = None, extensions = None\<rparr>"

definition entity_not_found_error :: "string \<Rightarrow> string \<Rightarrow> domain_exception" where
  "entity_not_found_error entity_name identifier =
     \<lparr>exc_class = EntityNotFoundErrorC,
      detail = entity_name @ '' with identifier '' @ [CHR 0x27] @ identifier @ [CHR 0x27]
                 @ '' was not found.'',
      status_code = 404, type_str = ''errors/not-found'',
      title = Some ''Entity Not Found'', extensions = None\<rparr>"

definition unauthorized_action_error :: "string \<Rightarrow> domain_exception" where
  "unauthorized_action_error d =
     \<lparr>exc_class = UnauthorizedActionErrorC, detail = d, status_code = 403,
      type_str = ''errors/unauthorized-action'', title = Some ''Forbidden'', extensions = None\<rparr>"

definition conflict_error :: "string \<Rightarrow> domain_exception" where
  "conflict_error d =
     \<lparr>exc_class = ConflictErrorC, detail = d, status_code = 409,
      type_str = ''errors/conflict'', title = Some ''Resource Conflict'', extensions = None\<rparr>"

definition bad_request_error :: "string \<Rightarrow> domain_exception" where
  "bad_request_error d =
     \<lparr>exc_class = BadRequestErrorC, detail = d, status_code = 400,
      type_str = ''errors/bad-request'', title = Some ''Bad Request'', extensions = None\<rparr>"

subsection \<open>auth/exceptions.py\<close>

definition invalid_credentials_error :: domain_exception where
  "invalid_credentials_error =
     \<lparr>exc_class = InvalidCredentialsErrorC, detail = ''Invalid credentials'', status_code = 401,
      type_str = ''errors/invalid-credentials'', title = Some ''Unauthorized'', extensions = None\<rparr>"

definition invalid_token_error :: "string \<Rightarrow> domain_exception" where
  "invalid_token_error d =
     \<lparr>exc_class = InvalidTokenErrorC, detail = d, status_code = 400,
      type_str = ''errors/invalid-token'', title = Some ''Invalid Token'', extensions = None\<rparr>"

definition invalid_refresh_token_error :: domain_exception where
  "invalid_refresh_token_error =
     \<lparr>exc_class = InvalidRefreshTokenErrorC, detail = ''Refresh token is no longer valid'',
      status_code = 401, type_str = ''errors/invalid-refresh-token'',
      title = Some ''Unauthorized'', extensions = None\<rparr>"

lemmas domain_error_defs =
  domain_exception_error_def entity_not_found_error_def unauthorized_action_error_def
  conflict_error_def bad_request_error_def invalid_credentials_error_def
  invalid_token_error_def invalid_refresh_token_error_def

subsection \<open>Everything that is raised\<close>

text \<open>
  The constraint an \<open>IntegrityError\<close> reports: the table and the column of the violated
  constraint. The driver's text for it (\<open>err.orig\<close>) is a parameter of the code that reads it.
\<close>

datatype violation =
  UniqueViolation string string | ForeignKeyViolation string string | NotNullViolation string string

datatype exc =
  Domain domain_exception
| IntegrityError violation
| OperationalError
| MultipleResultsFound
| RedisError
| PyJWTError string
| JWTDecodeError string
| RevokedTokenError
| AuthXError string \<comment> \<open>any other exception of AuthX: no token, a token of the wrong type, ...\<close>
| KeyError string
| ValueError string
| TypeError string
| AttributeError string
| RuntimeError string

text \<open>\<open>except ConflictError\<close>.\<close>

definition is_conflict_error :: "exc \<Rightarrow> bool" where
  "is_conflict_error e \<longleftrightarrow> (case e of Domain d \<Rightarrow> exc_class d = ConflictErrorC | _ \<Rightarrow> False)"

lemma is_conflict_error_simps [simp]:
  "is_conflict_error (Domain (conflict_error d))"
  "\<not> is_conflict_error (Domain (entity_not_found_error n i))"
  "\<not> is_conflict_error (Domain (invalid_token_error d))"
  "\<not> is_conflict_error (IntegrityError v)"
  "\<not> is_conflict_error OperationalError"
  by (simp_all add: is_conflict_error_def domain_error_defs)

text \<open>The classes keep the exceptions apart.\<close>

lemma domain_errors_distinct [simp]:
  "invalid_token_error d \<noteq> conflict_error d'"
  "invalid_token_error d \<noteq> entity_not_found_error n i"
  "conflict_error d \<noteq> entity_not_found_error n i"
  "invalid_refresh_token_error \<noteq> conflict_error d"
  "invalid_refresh_token_error \<noteq> invalid_credentials_error"
  "invalid_credentials_error \<noteq> conflict_error d"
  "invalid_refresh_token_error \<noteq> invalid_token_error d"
  by (simp_all add: domain_error_defs)

end
