(* ===== verification/Tables.thy ===== *)
theory Tables
  imports Errors
begin

section \<open>The tables\<close>

text \<open>
  The ORM models as row records (\<open>user/models\<close>, \<open>auth/models\<close>, \<open>core/outbox/model.py\<close>,
  \<open>core/dead_letter/model.py\<close>), and the database as the five tables. A datetime is its number of
  microseconds since the epoch. Each table carries the constraints its model and migration
  declare: the primary key, unique columns, foreign keys and \<open>NOT NULL\<close> columns; an insert or
  update that breaks one yields the violation the database reports. Column widths are not modelled.
\<close>

type_synonym time = int

abbreviation seconds :: "int \<Rightarrow> time" where "seconds n \<equiv> n * 1000000"

subsection \<open>Rows\<close>

record user_row =
  u_id :: uuid
  u_email :: string
  u_password_hash :: string
  u_scopes :: string
  u_full_name :: string
  u_is_verified :: bool
  u_pending_verification_jti :: "string option"
  u_pending_password_reset_jti :: "string option"
  u_created_at :: time
  u_updated_at :: time
  u_is_active :: bool

record refresh_row =
  rs_id :: uuid
  rs_user_id :: uuid
  rs_generation :: int
  rs_expires_at :: time
  rs_rotated_at :: "time option"
  rs_revoked_at :: "time option"
  rs_created_at :: time

record revoked_row =
  rt_id :: uuid
  rt_jti :: string
  rt_expires_at :: time

record outbox_row =
  ob_id :: uuid
  ob_task_name :: string
  ob_payload :: "(string \<times> json) list"
  ob_created_at :: time
  ob_dispatched_at :: "time option"
  ob_failed_at :: "time option"
  ob_attempts :: int
  ob_last_error :: "string option"

record dead_row =
  dl_id :: uuid
  dl_job_key :: string
  dl_function :: string
  dl_queue_name :: string
  dl_kwargs :: "(string \<times> json) list"
  dl_status :: string
  dl_error :: "string option"
  dl_attempts :: int
  dl_failed_at :: time
  dl_retried_at :: "time option"

record tables =
  users :: "user_row list"
  refresh_sessions :: "refresh_row list"
  revoked_tokens :: "revoked_row list"
  outbox_events :: "outbox_row list"
  dead_letter_jobs :: "dead_row list"

definition empty_tables :: tables where
  "empty_tables = \<lparr>users = [], refresh_sessions = [], revoked_tokens = [], outbox_events = [],
     dead_letter_jobs = []\<rparr>"

subsection \<open>Constraints\<close>

definition find_user :: "uuid \<Rightarrow> tables \<Rightarrow> user_row option" where
  "find_user i tb = find (\<lambda>r. u_id r = i) (users tb)"

definition find_user_by_email :: "string \<Rightarrow> tables \<Rightarrow> user_row option" where
  "find_user_by_email e tb = find (\<lambda>r. u_email r = e) (users tb)"

definition find_session :: "uuid \<Rightarrow> tables \<Rightarrow> refresh_row option" where
  "find_session i tb = find (\<lambda>r. rs_id r = i) (refresh_sessions tb)"

definition find_outbox :: "uuid \<Rightarrow> tables \<Rightarrow> outbox_row option" where
  "find_outbox i tb = find (\<lambda>r. ob_id r = i) (outbox_events tb)"

definition find_dead :: "uuid \<Rightarrow> tables \<Rightarrow> dead_row option" where
  "find_dead i tb = find (\<lambda>r. dl_id r = i) (dead_letter_jobs tb)"

definition insert_user :: "user_row \<Rightarrow> tables \<Rightarrow> (exc + unit) \<times> tables" where
  "insert_user r tb =
     (if u_id r \<in> u_id ` set (users tb) then (Inl (IntegrityError (UniqueViolation ''users'' ''id'')), tb)
      else if u_email r \<in> u_email ` set (users tb)
        then (Inl (IntegrityError (UniqueViolation ''users'' ''email'')), tb)
      else (Inr (), tb\<lparr>users := users tb @ [r]\<rparr>))"

definition insert_session :: "refresh_row \<Rightarrow> tables \<Rightarrow> (exc + unit) \<times> tables" where
  "insert_session r tb =
     (if rs_id r \<in> rs_id ` set (refresh_sessions tb)
        then (Inl (IntegrityError (UniqueViolation ''refresh_sessions'' ''id'')), tb)
      else if rs_user_id r \<notin> u_id ` set (users tb)
        then (Inl (IntegrityError (ForeignKeyViolation ''refresh_sessions'' ''user_id'')), tb)
      else (Inr (), tb\<lparr>refresh_sessions := refresh_sessions tb @ [r]\<rparr>))"

definition insert_revoked :: "revoked_row \<Rightarrow> tables \<Rightarrow> (exc + unit) \<times> tables" where
  "insert_revoked r tb =
     (if rt_id r \<in> rt_id ` set (revoked_tokens tb)
        then (Inl (IntegrityError (UniqueViolation ''revoked_tokens'' ''id'')), tb)
      else if rt_jti r \<in> rt_jti ` set (revoked_tokens tb)
        then (Inl (IntegrityError (UniqueViolation ''revoked_tokens'' ''jti'')), tb)
      else (Inr (), tb\<lparr>revoked_tokens := revoked_tokens tb @ [r]\<rparr>))"

definition insert_outbox :: "outbox_row \<Rightarrow> tables \<Rightarrow> (exc + unit) \<times> tables" where
  "insert_outbox r tb =
     (if ob_id r \<in> ob_id ` set (outbox_events tb)
        then (Inl (IntegrityError (UniqueViolation ''outbox_events'' ''id'')), tb)
      else (Inr (), tb\<lparr>outbox_events := outbox_events tb @ [r]\<rparr>))"

definition insert_dead :: "dead_row \<Rightarrow> tables \<Rightarrow> (exc + unit) \<times> tables" where
  "insert_dead r tb =
     (if dl_id r \<in> dl_id ` set (dead_letter_jobs tb)
        then (Inl (IntegrityError (UniqueViolation ''dead_letter_jobs'' ''id'')), tb)
      else (Inr (), tb\<lparr>dead_letter_jobs := dead_letter_jobs tb @ [r]\<rparr>))"

lemmas insert_defs = insert_user_def insert_session_def insert_revoked_def insert_outbox_def
  insert_dead_def

lemma insert_Inr:
  "insert_user r tb = (Inr v, tb') \<longleftrightarrow>
     u_id r \<notin> u_id ` set (users tb) \<and> u_email r \<notin> u_email ` set (users tb)
   \<and> tb' = tb\<lparr>users := users tb @ [r]\<rparr>"
  "insert_session s tb = (Inr v, tb') \<longleftrightarrow>
     rs_id s \<notin> rs_id ` set (refresh_sessions tb) \<and> rs_user_id s \<in> u_id ` set (users tb)
   \<and> tb' = tb\<lparr>refresh_sessions := refresh_sessions tb @ [s]\<rparr>"
  "insert_revoked t tb = (Inr v, tb') \<longleftrightarrow>
     rt_id t \<notin> rt_id ` set (revoked_tokens tb) \<and> rt_jti t \<notin> rt_jti ` set (revoked_tokens tb)
   \<and> tb' = tb\<lparr>revoked_tokens := revoked_tokens tb @ [t]\<rparr>"
  "insert_outbox b tb = (Inr v, tb') \<longleftrightarrow>
     ob_id b \<notin> ob_id ` set (outbox_events tb) \<and> tb' = tb\<lparr>outbox_events := outbox_events tb @ [b]\<rparr>"
  "insert_dead d tb = (Inr v, tb') \<longleftrightarrow>
     dl_id d \<notin> dl_id ` set (dead_letter_jobs tb)
   \<and> tb' = tb\<lparr>dead_letter_jobs := dead_letter_jobs tb @ [d]\<rparr>"
  by (auto simp: insert_defs)

text \<open>
  The constraints hold of every database the program can produce: keys and unique columns are
  distinct, and each refresh session belongs to a user.
\<close>

definition tables_ok :: "tables \<Rightarrow> bool" where
  "tables_ok tb \<longleftrightarrow>
     distinct (map u_id (users tb)) \<and> distinct (map u_email (users tb))
   \<and> distinct (map rs_id (refresh_sessions tb))
   \<and> (\<forall>r \<in> set (refresh_sessions tb). rs_user_id r \<in> u_id ` set (users tb))
   \<and> distinct (map rt_id (revoked_tokens tb)) \<and> distinct (map rt_jti (revoked_tokens tb))
   \<and> distinct (map ob_id (outbox_events tb))
   \<and> distinct (map dl_id (dead_letter_jobs tb))"

lemma tables_ok_empty [simp]: "tables_ok empty_tables"
  by (simp add: tables_ok_def empty_tables_def)

lemma insert_user_ok: "tables_ok tb \<Longrightarrow> insert_user r tb = (x, tb') \<Longrightarrow> tables_ok tb'"
  by (auto simp: insert_user_def tables_ok_def split: if_splits)

lemma insert_session_ok: "tables_ok tb \<Longrightarrow> insert_session r tb = (x, tb') \<Longrightarrow> tables_ok tb'"
  by (auto simp: insert_session_def tables_ok_def split: if_splits)

lemma insert_revoked_ok: "tables_ok tb \<Longrightarrow> insert_revoked r tb = (x, tb') \<Longrightarrow> tables_ok tb'"
  by (auto simp: insert_revoked_def tables_ok_def split: if_splits)

lemma insert_outbox_ok: "tables_ok tb \<Longrightarrow> insert_outbox r tb = (x, tb') \<Longrightarrow> tables_ok tb'"
  by (auto simp: insert_outbox_def tables_ok_def split: if_splits)

lemma insert_dead_ok: "tables_ok tb \<Longrightarrow> insert_dead r tb = (x, tb') \<Longrightarrow> tables_ok tb'"
  by (auto simp: insert_dead_def tables_ok_def split: if_splits)

text \<open>
  What a statement does to the tables, success or not, as a relation; \<open>ok_step\<close> is the one that
  says it keeps the constraints.
\<close>

definition stmt_rel :: "(tables \<Rightarrow> tables \<Rightarrow> bool) \<Rightarrow> (tables \<Rightarrow> 'x \<times> tables) \<Rightarrow> bool" where
  "stmt_rel R f \<longleftrightarrow> (\<forall>tb. R tb (snd (f tb)))"

definition ok_step :: "tables \<Rightarrow> tables \<Rightarrow> bool" where
  "ok_step tb tb' \<longleftrightarrow> (tables_ok tb \<longrightarrow> tables_ok tb')"

lemma stmt_relI: "(\<And>tb r tb'. f tb = (r, tb') \<Longrightarrow> R tb tb') \<Longrightarrow> stmt_rel R f"
  by (metis prod.collapse stmt_rel_def)

lemma stmt_relD: "stmt_rel R f \<Longrightarrow> f tb = (r, tb') \<Longrightarrow> R tb tb'"
  by (metis snd_conv stmt_rel_def)

lemma stmt_okI: "(\<And>tb. tables_ok tb \<Longrightarrow> tables_ok (snd (f tb))) \<Longrightarrow> stmt_rel ok_step f"
  by (simp add: stmt_rel_def ok_step_def)

lemma stmt_ok_inserts [frame_intros]:
  "stmt_rel ok_step (insert_user u)" "stmt_rel ok_step (insert_session s)"
  "stmt_rel ok_step (insert_revoked t)" "stmt_rel ok_step (insert_outbox b)"
  "stmt_rel ok_step (insert_dead d)"
  by (rule stmt_okI, metis prod.collapse insert_user_ok insert_session_ok insert_revoked_ok
        insert_outbox_ok insert_dead_ok)+

text \<open>A step that changes one table.\<close>

definition only_users :: "tables \<Rightarrow> tables \<Rightarrow> bool" where
  "only_users tb tb' \<longleftrightarrow> refresh_sessions tb' = refresh_sessions tb \<and> revoked_tokens tb' = revoked_tokens tb
     \<and> outbox_events tb' = outbox_events tb \<and> dead_letter_jobs tb' = dead_letter_jobs tb"

definition only_tokens :: "tables \<Rightarrow> tables \<Rightarrow> bool" where
  "only_tokens tb tb' \<longleftrightarrow> users tb' = users tb \<and> refresh_sessions tb' = refresh_sessions tb
     \<and> outbox_events tb' = outbox_events tb \<and> dead_letter_jobs tb' = dead_letter_jobs tb"

definition only_sessions :: "tables \<Rightarrow> tables \<Rightarrow> bool" where
  "only_sessions tb tb' \<longleftrightarrow> users tb' = users tb \<and> revoked_tokens tb' = revoked_tokens tb
     \<and> outbox_events tb' = outbox_events tb \<and> dead_letter_jobs tb' = dead_letter_jobs tb"

lemmas only_defs = only_users_def only_tokens_def only_sessions_def

subsection \<open>Keyed-table facts\<close>

text \<open>
  The updates the program makes keep the primary key; the tables interpret the shared
  locale with exactly the updates that do.
\<close>

interpretation user_table: keyed_table u_id "{f. \<forall>r. u_id (f r) = u_id r}"
  by unfold_locales simp

interpretation session_table: keyed_table rs_id "{f. \<forall>r. rs_id (f r) = rs_id r}"
  by unfold_locales simp

interpretation outbox_table: keyed_table ob_id "{f. \<forall>r. ob_id (f r) = ob_id r}"
  by unfold_locales simp

interpretation dead_table: keyed_table dl_id "{f. \<forall>r. dl_id (f r) = dl_id r}"
  by unfold_locales simp

interpretation revoked_table: keyed_table rt_jti "{f. \<forall>r. rt_jti (f r) = rt_jti r}"
  by unfold_locales simp

lemmas find_defs = find_user_def find_user_by_email_def find_session_def find_outbox_def
  find_dead_def

lemma find_user_id: "find_user i tb = Some r \<Longrightarrow> u_id r = i \<and> r \<in> set (users tb)"
  using user_table.find_key_mem by (fastforce simp: find_user_def find_Some_iff)

lemma find_session_id: "find_session i tb = Some r \<Longrightarrow> rs_id r = i \<and> r \<in> set (refresh_sessions tb)"
  by (auto simp: find_session_def find_Some_iff)

lemma find_user_iff:
  "tables_ok tb \<Longrightarrow> find_user i tb = Some r \<longleftrightarrow> r \<in> set (users tb) \<and> u_id r = i"
  by (simp add: find_user_def user_table.find_Some_iff_mem tables_ok_def)

lemma find_session_iff:
  "tables_ok tb \<Longrightarrow> find_session i tb = Some r \<longleftrightarrow> r \<in> set (refresh_sessions tb) \<and> rs_id r = i"
  by (simp add: find_session_def session_table.find_Some_iff_mem tables_ok_def)

lemma find_user_None_iff: "find_user i tb = None \<longleftrightarrow> i \<notin> u_id ` set (users tb)"
  by (auto simp: find_user_def find_None_iff)

end
