(* ===== verification/Database.thy ===== *)
theory Database
  imports Tables
begin

section \<open>core/database.py: routing, failover, transactions\<close>

text \<open>
  One \<open>AsyncResilientRoutingSession\<close> together with the request's \<open>force_primary_var\<close>.
  \<open>committed\<close> is what the primary has durably, \<open>working\<close> what this session's transaction sees
  there, \<open>replica\<close> what the replica would answer (\<open>None\<close>: it does not), and \<open>pending\<close> says whether
  the session holds unflushed ORM work (\<open>new\<close>, \<open>dirty\<close> or \<open>deleted\<close>). \<open>budget\<close> injects faults:
  \<open>Some n\<close> is a primary connection that answers \<open>n\<close> more statements (a commit counts as one) and
  then fails every one with an \<open>OperationalError\<close>, after which the server has undone the
  transaction; \<open>None\<close> is a connection that never fails.
\<close>

datatype engine = PrimaryEngine | ReplicaEngine

text \<open>What \<open>get_bind\<close> distinguishes by \<open>isinstance\<close> and by the \<open>text\<close> attribute of a clause.\<close>

datatype clause = Insert | Update | Delete | Select | TextClause string | OtherClause

record session =
  committed :: tables
  working :: tables
  replica :: "tables option"
  force_primary :: bool
  pending :: bool
  budget :: "nat option"

type_synonym 'a db = "(session, exc, 'a) act"

subsection \<open>Routing\<close>

definition is_write_text :: "string \<Rightarrow> bool" where
  "is_write_text query =
     (let query_text = lower (lstrip query) in
      list_ex (startswith query_text)
        [''insert'', ''update'', ''delete'', ''create'', ''drop'', ''alter''])"

text \<open>
  \<open>RoutingSession.get_bind\<close>: the test override, the sticky flag and the clause give the engine
  and the new value of the flag.
\<close>

definition get_bind :: "engine option \<Rightarrow> clause option \<Rightarrow> bool \<Rightarrow> engine \<times> bool" where
  "get_bind override clause force =
     (case override of Some e \<Rightarrow> (e, force)
      | None \<Rightarrow>
          if force then (PrimaryEngine, force)
          else (case clause of None \<Rightarrow> (PrimaryEngine, force)
                | Some c \<Rightarrow>
                    (case c of
                       Insert \<Rightarrow> (PrimaryEngine, True)
                     | Update \<Rightarrow> (PrimaryEngine, True)
                     | Delete \<Rightarrow> (PrimaryEngine, True)
                     | Select \<Rightarrow> (ReplicaEngine, force)
                     | TextClause query \<Rightarrow>
                         if is_write_text query then (PrimaryEngine, True) else (PrimaryEngine, force)
                     | OtherClause \<Rightarrow> (PrimaryEngine, force))))"

definition set_force_primary :: "bool \<Rightarrow> unit db" where
  "set_force_primary b = modify (\<lambda>s. s\<lparr>force_primary := b\<rparr>)"

text \<open>The \<open>before_flush\<close> listener.\<close>

definition pin_primary_on_flush :: "session \<Rightarrow> session" where
  "pin_primary_on_flush s = s\<lparr>force_primary := True\<rparr>"

subsection \<open>Statements\<close>

text \<open>A statement on the primary sees and changes the session's transaction.\<close>

definition on_primary :: "(tables \<Rightarrow> (exc + 'a) \<times> tables) \<Rightarrow> 'a db" where
  "on_primary f =
     (\<lambda>s. if budget s = Some 0 then (Inl OperationalError, s\<lparr>working := committed s\<rparr>)
          else (case f (working s) of (r, w) \<Rightarrow>
             (r, s\<lparr>working := w, budget := map_option (\<lambda>n. n - 1) (budget s)\<rparr>)))"

text \<open>
  \<open>AsyncSession\<close>'s own execution of a statement: bind, then run. The replica only answers.
\<close>

definition run_statement :: "clause \<Rightarrow> (tables \<Rightarrow> (exc + 'a) \<times> tables) \<Rightarrow> 'a db" where
  "run_statement c f =
     (\<lambda>s. case get_bind None (Some c) (force_primary s) of (e, force) \<Rightarrow>
        (let s1 = s\<lparr>force_primary := force\<rparr> in
         case e of
           PrimaryEngine \<Rightarrow> on_primary f s1
         | ReplicaEngine \<Rightarrow>
             (case replica s1 of None \<Rightarrow> (Inl OperationalError, s1)
              | Some tb \<Rightarrow> (fst (f tb), s1))))"

definition rollback :: "unit db" where
  "rollback = modify (\<lambda>s. s\<lparr>working := committed s, pending := False\<rparr>)"

definition commit :: "unit db" where
  "commit =
     (\<lambda>s. if budget s = Some 0 then (Inl OperationalError, s\<lparr>working := committed s\<rparr>)
          else (Inr (), s\<lparr>committed := working s, pending := False,
                         budget := map_option (\<lambda>n. n - 1) (budget s)\<rparr>))"

subsection \<open>Failover\<close>

definition can_fail_over :: "session \<Rightarrow> bool" where
  "can_fail_over s \<longleftrightarrow> (if force_primary s then False else \<not> pending s)"

definition with_failover :: "'a db \<Rightarrow> 'a db" where
  "with_failover operation =
     attempt operation
       (\<lambda>e. if e = OperationalError
            then (\<lambda>s. if \<not> can_fail_over s then raise e s
                      else chain (set_force_primary True)
                             (\<lambda>_. chain rollback (\<lambda>_. operation)) s)
            else raise e)"

definition db_execute :: "clause \<Rightarrow> (tables \<Rightarrow> (exc + 'a) \<times> tables) \<Rightarrow> 'a db" where
  "db_execute c f = with_failover (run_statement c f)"

definition db_scalar :: "(tables \<Rightarrow> 'a) \<Rightarrow> 'a db" where
  "db_scalar q = with_failover (run_statement Select (\<lambda>tb. (Inr (q tb), tb)))"

definition db_get :: "(tables \<Rightarrow> 'a) \<Rightarrow> 'a db" where
  "db_get q = with_failover (run_statement Select (\<lambda>tb. (Inr (q tb), tb)))"

text \<open>\<open>scalars\<close> is not overridden: it goes through \<open>execute\<close>.\<close>

definition db_scalars :: "clause \<Rightarrow> (tables \<Rightarrow> (exc + 'a) \<times> tables) \<Rightarrow> 'a db" where
  "db_scalars c f = db_execute c f"

subsection \<open>The unit of work\<close>

text \<open>
  \<open>db.add(model)\<close>, and \<open>db.flush()\<close> of the pending work \<open>f\<close>. A flush that fails rolls the
  session's transaction back, as SQLAlchemy documents.
\<close>

definition db_add :: "unit db" where
  "db_add = modify (\<lambda>s. s\<lparr>pending := True\<rparr>)"

definition db_flush :: "(tables \<Rightarrow> (exc + 'a) \<times> tables) \<Rightarrow> 'a db" where
  "db_flush f =
     (\<lambda>s. case on_primary f (pin_primary_on_flush s) of
            (Inl e, t) \<Rightarrow> (Inl e, t\<lparr>working := committed t, pending := False\<rparr>)
          | (Inr x, t) \<Rightarrow> (Inr x, t\<lparr>pending := False\<rparr>))"

definition transaction :: "'a db \<Rightarrow> 'a db" where
  "transaction body =
     attempt (chain body (\<lambda>x. chain commit (\<lambda>_. ret x)))
             (\<lambda>e. chain rollback (\<lambda>_. raise e))"

text \<open>
  \<open>db_session\<close>, the request's session: the flag starts cleared, an exception rolls back, and at
  the end the session is closed (which discards what was not committed) and the flag restored.
\<close>

definition db_session :: "'a db \<Rightarrow> 'a db" where
  "db_session body =
     (\<lambda>s. ensure (attempt body (\<lambda>e. chain rollback (\<lambda>_. raise e)))
            (\<lambda>t. t\<lparr>working := committed t, pending := False, force_primary := force_primary s\<rparr>)
            (s\<lparr>force_primary := False, working := committed s, pending := False\<rparr>))"

text \<open>
  \<open>async with AsyncSessionLocal() as db\<close>: a session of its own on the same database, closed at
  the end.
\<close>

definition local_session :: "'a db \<Rightarrow> 'a db" where
  "local_session body =
     (\<lambda>s. ensure body (\<lambda>t. t\<lparr>working := committed t, pending := False\<rparr>)
            (s\<lparr>working := committed s, pending := False\<rparr>))"

text \<open>
  The idiom \<open>token = force_primary_var.set(True); try: ... finally: force_primary_var.reset(token)\<close>
  of the reads that must see the primary without pinning the rest of the request.
\<close>

definition on_primary_only :: "'a db \<Rightarrow> 'a db" where
  "on_primary_only m =
     (\<lambda>s. ensure m (\<lambda>t. t\<lparr>force_primary := force_primary s\<rparr>) (s\<lparr>force_primary := True\<rparr>))"

lemmas session_defs = db_execute_def db_scalar_def db_get_def db_scalars_def with_failover_def
  run_statement_def on_primary_def get_bind_def db_flush_def db_add_def set_force_primary_def
  pin_primary_on_flush_def rollback_def commit_def can_fail_over_def


subsection \<open>What routing guarantees\<close>

definition staged_pinned :: "session \<Rightarrow> bool" where
  "staged_pinned s \<longleftrightarrow> (working s \<noteq> committed s \<longrightarrow> force_primary s)"

abbreviation same_committed :: "session \<Rightarrow> session \<Rightarrow> bool" where
  "same_committed s t \<equiv> committed t = committed s"

abbreviation pin_kept :: "session \<Rightarrow> session \<Rightarrow> bool" where
  "pin_kept s t \<equiv> (force_primary s \<longrightarrow> force_primary t)"

abbreviation staged_pinned_kept :: "session \<Rightarrow> session \<Rightarrow> bool" where
  "staged_pinned_kept s t \<equiv> (staged_pinned s \<longrightarrow> staged_pinned t)"

text \<open>
  \<open>table_kept R\<close>: whatever relation \<open>R\<close> led from some tables to what is durable and to what is
  staged still leads there.
\<close>

definition table_kept :: "(tables \<Rightarrow> tables \<Rightarrow> bool) \<Rightarrow> session \<Rightarrow> session \<Rightarrow> bool" where
  "table_kept R s t \<longleftrightarrow>
     (\<forall>tb. R tb (committed s) \<and> R tb (working s) \<longrightarrow> R tb (committed t) \<and> R tb (working t))"

text \<open>
  A frame relation of sessions that survives pinning and rolling back survives a failover,
  and a transaction whose body and commit keep it.
\<close>

locale session_frame = frame_relation rel for rel :: "session \<Rightarrow> session \<Rightarrow> bool" +
  assumes rel_pin: "rel s (s\<lparr>force_primary := True\<rparr>)"
    and rel_rollback: "rel s (s\<lparr>working := committed s, pending := False\<rparr>)"
begin

lemma keeps_pin: "keeps rel (set_force_primary True)"
  by (simp add: set_force_primary_def keeps_modify rel_pin)

lemma keeps_rollback: "keeps rel rollback"
  by (simp add: rollback_def keeps_modify rel_rollback)

lemma keeps_guard: "keeps rel m \<Longrightarrow> keeps rel n \<Longrightarrow> keeps rel (\<lambda>s. if b s then m s else n s)"
  by (simp add: keeps_def)

lemma keeps_with_failover: "keeps rel m \<Longrightarrow> keeps rel (with_failover m)"
  unfolding with_failover_def
  by (intro keeps_attempt keeps_if keeps_guard keeps_chain keeps_raise keeps_pin keeps_rollback)

lemma keeps_db_execute: "keeps rel (run_statement c f) \<Longrightarrow> keeps rel (db_execute c f)"
  by (simp add: db_execute_def keeps_with_failover)

lemma keeps_db_scalars: "keeps rel (run_statement c f) \<Longrightarrow> keeps rel (db_scalars c f)"
  by (simp add: db_scalars_def keeps_db_execute)

lemma keeps_db_scalar:
  "keeps rel (run_statement Select (\<lambda>tb. (Inr (q tb), tb))) \<Longrightarrow> keeps rel (db_scalar q)"
  unfolding db_scalar_def by (rule keeps_with_failover)

lemma keeps_db_get:
  "keeps rel (run_statement Select (\<lambda>tb. (Inr (q tb), tb))) \<Longrightarrow> keeps rel (db_get q)"
  unfolding db_get_def by (rule keeps_with_failover)

lemma keeps_transaction: "keeps rel body \<Longrightarrow> keeps rel commit \<Longrightarrow> keeps rel (transaction body)"
  unfolding transaction_def
  by (intro keeps_attempt keeps_chain keeps_ret keeps_raise keeps_rollback)

lemmas keeps_session_intros = keeps_intros keeps_pin keeps_rollback keeps_transaction

end

interpretation committed_frame: session_frame same_committed
  by unfold_locales simp_all

interpretation pin_frame: session_frame pin_kept
  by unfold_locales simp_all

interpretation staged_frame: session_frame staged_pinned_kept
  by unfold_locales (simp_all add: staged_pinned_def)

declare committed_frame.keeps_session_intros [frame_intros]
declare pin_frame.keeps_session_intros [frame_intros]
declare staged_frame.keeps_session_intros [frame_intros]

text \<open>A pinned session runs every statement on the primary.\<close>

lemma pin_idem: "force_primary s \<Longrightarrow> s\<lparr>force_primary := True\<rparr> = s"
  by (cases s) simp

lemma run_statement_pinned: "force_primary s \<Longrightarrow> run_statement c f s = on_primary f s"
  by (simp add: run_statement_def get_bind_def pin_idem)

lemma on_primary_pin: "on_primary f s = (r, t) \<Longrightarrow> force_primary t = force_primary s"
  by (auto simp: on_primary_def split: if_splits prod.splits)

lemma with_failover_pinned:
  assumes "\<And>r t. m s = (r, t) \<Longrightarrow> force_primary t"
  shows "with_failover m s = m s"
proof (cases "m s")
  case (Pair r t)
  with assms have "force_primary t" by blast
  with Pair show ?thesis
    by (cases r) (simp_all add: with_failover_def can_fail_over_def)
qed

lemma db_execute_pinned: "force_primary s \<Longrightarrow> db_execute c f s = on_primary f s"
  unfolding db_execute_def
  by (subst with_failover_pinned) (auto simp: run_statement_pinned dest: on_primary_pin)

lemma db_scalar_pinned: "force_primary s \<Longrightarrow> db_scalar q s = on_primary (\<lambda>tb. (Inr (q tb), tb)) s"
  unfolding db_scalar_def
  by (subst with_failover_pinned) (auto simp: run_statement_pinned dest: on_primary_pin)

lemma db_get_pinned: "force_primary s \<Longrightarrow> db_get q s = on_primary (\<lambda>tb. (Inr (q tb), tb)) s"
  unfolding db_get_def
  by (subst with_failover_pinned) (auto simp: run_statement_pinned dest: on_primary_pin)

lemma db_scalars_pinned: "force_primary s \<Longrightarrow> db_scalars c f s = on_primary f s"
  by (simp add: db_scalars_def db_execute_pinned)

lemmas pinned_simps = db_execute_pinned db_scalar_pinned db_get_pinned db_scalars_pinned

lemma run_dml_pins:
  "c \<in> {Insert, Update, Delete} \<Longrightarrow>
     run_statement c f s = on_primary f (s\<lparr>force_primary := True\<rparr>)"
  by (cases "force_primary s")
     (auto simp: run_statement_def get_bind_def Let_def pin_idem)

lemma db_execute_dml:
  assumes "c \<in> {Insert, Update, Delete}"
  shows "db_execute c f s = on_primary f (s\<lparr>force_primary := True\<rparr>)"
  unfolding db_execute_def
  by (subst with_failover_pinned) (auto simp: run_dml_pins [OF assms] dest: on_primary_pin)

text \<open>Frames of the primitive operations.\<close>

lemma on_primary_committed: "on_primary f s = (r, t) \<Longrightarrow> committed t = committed s"
  by (auto simp: on_primary_def split: if_splits prod.splits)

lemma run_statement_committed: "keeps same_committed (run_statement c f)"
  by (rule keepsI)
     (auto simp: run_statement_def on_primary_def Let_def split: prod.split engine.split option.split)

lemma get_bind_keeps_pin: "force \<Longrightarrow> snd (get_bind None c force)"
  by (simp add: get_bind_def)

lemma run_statement_pin: "keeps pin_kept (run_statement c f)"
proof (rule keepsI, rule impI)
  fix s :: session
  assume "force_primary s"
  then have "run_statement c f s = on_primary f s" by (rule run_statement_pinned)
  with \<open>force_primary s\<close> show "force_primary (snd (run_statement c f s))"
    by (metis on_primary_pin prod.collapse)
qed

lemma run_select_staged:
  "keeps staged_pinned_kept (run_statement Select (\<lambda>tb. (Inr (q tb), tb)))"
  by (rule keepsI)
     (auto simp: run_statement_def on_primary_def staged_pinned_def get_bind_def Let_def
        split: option.split)

lemma run_dml_staged:
  assumes "c \<in> {Insert, Update, Delete}"
  shows "keeps staged_pinned_kept (run_statement c f)"
proof (rule keepsI, rule impI)
  fix s
  have "force_primary (snd (on_primary f (s\<lparr>force_primary := True\<rparr>)))"
    by (metis on_primary_pin prod.collapse session.select_convs(4) session.surjective session.update_convs(4))
  then show "staged_pinned (snd (run_statement c f s))"
    by (simp add: run_dml_pins [OF assms] staged_pinned_def)
qed

lemmas [frame_intros] =
  committed_frame.keeps_db_execute [OF run_statement_committed]
  committed_frame.keeps_db_scalars [OF run_statement_committed]
  committed_frame.keeps_db_scalar [OF run_statement_committed]
  committed_frame.keeps_db_get [OF run_statement_committed]
  pin_frame.keeps_db_execute [OF run_statement_pin]
  pin_frame.keeps_db_scalars [OF run_statement_pin]
  pin_frame.keeps_db_scalar [OF run_statement_pin]
  pin_frame.keeps_db_get [OF run_statement_pin]
  staged_frame.keeps_db_scalar [OF run_select_staged]
  staged_frame.keeps_db_get [OF run_select_staged]

lemma dml_staged [frame_intros]:
  "keeps staged_pinned_kept (db_execute Insert f)"
  "keeps staged_pinned_kept (db_execute Update f)"
  "keeps staged_pinned_kept (db_execute Delete f)"
  "keeps staged_pinned_kept (db_scalars Update f)"
  by (simp_all add: staged_frame.keeps_db_execute staged_frame.keeps_db_scalars run_dml_staged)

lemma db_add_frames [frame_intros]:
  "keeps same_committed db_add"
  "keeps pin_kept db_add"
  "keeps staged_pinned_kept db_add"
  by (simp_all add: keeps_def db_add_def staged_pinned_def)

lemma commit_frames [frame_intros]:
  "keeps pin_kept commit"
  "keeps staged_pinned_kept commit"
  by (simp_all add: keeps_def commit_def staged_pinned_def)

lemma db_flush_frames [frame_intros]:
  "keeps same_committed (db_flush f)"
  "keeps pin_kept (db_flush f)"
  "keeps staged_pinned_kept (db_flush f)"
  by (rule keepsI, auto simp: db_flush_def on_primary_def pin_primary_on_flush_def staged_pinned_def
        split: prod.split sum.split)+

lemma on_primary_only_apply:
  "on_primary_only m s =
     (fst (m (s\<lparr>force_primary := True\<rparr>)),
      (snd (m (s\<lparr>force_primary := True\<rparr>)))\<lparr>force_primary := force_primary s\<rparr>)"
  by (simp add: on_primary_only_def ensure_apply)

lemma read_on_primary_only:
  "on_primary_only (db_scalar q) s =
     (if budget s = Some 0 then (Inl OperationalError, s\<lparr>working := committed s\<rparr>)
      else (Inr (q (working s)), s\<lparr>budget := map_option (\<lambda>n. n - 1) (budget s)\<rparr>))"
  "on_primary_only (db_get q) s = on_primary_only (db_scalar q) s"
  by (simp_all add: on_primary_only_apply db_scalar_pinned db_get_pinned on_primary_def)

lemma on_primary_only_frames [frame_intros]:
  "keeps same_committed (on_primary_only (db_scalar q))"
  "keeps same_committed (on_primary_only (db_get q))"
  "keeps pin_kept (on_primary_only m)"
  "keeps staged_pinned_kept (on_primary_only (db_scalar q))"
  "keeps staged_pinned_kept (on_primary_only (db_get q))"
  by (simp_all add: keeps_def read_on_primary_only staged_pinned_def)
     (simp add: on_primary_only_apply)

subsection \<open>Relations between tables\<close>

text \<open>
  A reflexive and transitive relation between tables that every statement of an operation
  keeps is kept by the operation, whatever fails and wherever it rolls back. Each repository
  adds its operations to this locale; the invariants of the data interpret it.
\<close>

locale table_relation =
  fixes R :: "tables \<Rightarrow> tables \<Rightarrow> bool"
  assumes R_refl: "R tb tb"
    and R_trans: "R tb tb' \<Longrightarrow> R tb' tb'' \<Longrightarrow> R tb tb''"
begin

lemma session_frame_kept: "session_frame (table_kept R)"
  by unfold_locales (auto simp: table_kept_def)

lemmas kept_frame_rules [frame_intros] =
  session_frame.keeps_session_intros [OF session_frame_kept]

lemma query_rel [frame_intros]: "stmt_rel R (\<lambda>tb. (q tb, tb))"
  by (simp add: stmt_rel_def R_refl)

lemma kept_on_primary: "stmt_rel R f \<Longrightarrow> keeps (table_kept R) (on_primary f)"
  by (rule keepsI)
     (auto simp: on_primary_def table_kept_def split: prod.split dest: stmt_relD intro: R_trans)

lemma kept_primed:
  fixes s :: session
  shows "keeps (table_kept R) m \<Longrightarrow> table_kept R s (snd (m (s\<lparr>force_primary := b\<rparr>)))"
proof -
  assume "keeps (table_kept R) m"
  then have "table_kept R (s\<lparr>force_primary := b\<rparr>) (snd (m (s\<lparr>force_primary := b\<rparr>)))"
    by (simp add: keeps_def)
  then show ?thesis by (simp add: table_kept_def)
qed

lemma kept_run_statement: "stmt_rel R f \<Longrightarrow> keeps (table_kept R) (run_statement c f)"
proof (rule keepsI)
  fix s :: session
  assume f: "stmt_rel R f"
  obtain e force where g: "get_bind None (Some c) (force_primary s) = (e, force)" by force
  have "table_kept R s (snd (on_primary f (s\<lparr>force_primary := force\<rparr>)))"
    by (rule kept_primed, rule kept_on_primary, rule f)
  then show "table_kept R s (snd (run_statement c f s))"
    by (cases e) (auto simp: run_statement_def g Let_def table_kept_def split: option.split)
qed

lemma kept_statements [frame_intros]:
  "stmt_rel R f \<Longrightarrow> keeps (table_kept R) (db_execute c f)"
  "stmt_rel R f \<Longrightarrow> keeps (table_kept R) (db_scalars c f)"
  "keeps (table_kept R) (db_scalar q)"
  "keeps (table_kept R) (db_get q)"
  by (simp_all add: session_frame.keeps_db_execute session_frame.keeps_db_scalars
      session_frame.keeps_db_scalar session_frame.keeps_db_get session_frame_kept
      kept_run_statement query_rel)

lemma kept_unit_of_work [frame_intros]:
  "keeps (table_kept R) db_add"
  "keeps (table_kept R) commit"
  by (simp_all add: keeps_def db_add_def commit_def table_kept_def)

lemma kept_db_flush [frame_intros]: "stmt_rel R f \<Longrightarrow> keeps (table_kept R) (db_flush f)"
proof (rule keepsI)
  fix s :: session
  assume f: "stmt_rel R f"
  have "table_kept R s (snd (on_primary f (s\<lparr>force_primary := True\<rparr>)))"
    by (rule kept_primed, rule kept_on_primary, rule f)
  then show "table_kept R s (snd (db_flush f s))"
    by (auto simp: db_flush_def pin_primary_on_flush_def table_kept_def split: prod.split sum.split)
qed

lemma kept_on_primary_only [frame_intros]:
  "keeps (table_kept R) m \<Longrightarrow> keeps (table_kept R) (on_primary_only m)"
  using kept_primed [of m _ True] by (simp add: keeps_def on_primary_only_apply table_kept_def)

lemma kept_local_session [frame_intros]:
  "keeps (table_kept R) m \<Longrightarrow> keeps (table_kept R) (local_session m)"
proof (rule keepsI)
  fix s :: session
  assume "keeps (table_kept R) m"
  then have "table_kept R (s\<lparr>working := committed s, pending := False\<rparr>)
      (snd (m (s\<lparr>working := committed s, pending := False\<rparr>)))" by (simp add: keeps_def)
  then show "table_kept R s (snd (local_session m s))"
    by (auto simp: local_session_def ensure_apply table_kept_def)
qed

lemma kept_db_session [frame_intros]:
  "keeps (table_kept R) m \<Longrightarrow> keeps (table_kept R) (db_session m)"
proof (rule keepsI)
  fix s :: session
  let ?s = "s\<lparr>force_primary := False, working := committed s, pending := False\<rparr>"
  let ?m = "attempt m (\<lambda>e. chain rollback (\<lambda>_. raise e))"
  assume m: "keeps (table_kept R) m"
  have "keeps (table_kept R) ?m" by (intro kept_frame_rules m)
  then have "table_kept R ?s (snd (?m ?s))" by (simp add: keeps_def)
  then show "table_kept R s (snd (db_session m s))"
    by (auto simp: db_session_def ensure_apply table_kept_def)
qed

text \<open>What a whole operation did to the durable tables.\<close>

lemma kept_durable:
  "keeps (table_kept R) m \<Longrightarrow> m s = (r, t) \<Longrightarrow> R (committed s) (working s) \<Longrightarrow>
     R (committed s) (committed t) \<and> R (committed s) (working t)"
  using R_refl by (auto simp: table_kept_def dest!: keepsD)

end

interpretation ok: table_relation ok_step
  by unfold_locales (auto simp: ok_step_def)

lemma operation_keeps_constraints:
  "keeps (table_kept ok_step) m \<Longrightarrow> m s = (r, t) \<Longrightarrow> tables_ok (committed s) \<Longrightarrow>
     tables_ok (working s) \<Longrightarrow> tables_ok (committed t) \<and> tables_ok (working t)"
  using ok.kept_durable by (fastforce simp: ok_step_def)

subsection \<open>What a step that succeeds did\<close>

text \<open>
  \<open>unfaulted s t\<close>: the step left the durable tables, the replica and the routing alone. The
  lemmas below read off a successful step what it returned and what it staged; the sequences
  of the repositories are analysed with them.
\<close>

definition pinned_step :: "session \<Rightarrow> session \<Rightarrow> bool" where
  "pinned_step s t \<longleftrightarrow> committed t = committed s \<and> replica t = replica s \<and> force_primary t"

lemma set_force_primary_apply [simp]: "set_force_primary b s = (Inr (), s\<lparr>force_primary := b\<rparr>)"
  by (simp add: set_force_primary_def)

lemma set_force_primary_chain [simp]:
  "chain (set_force_primary b) k s = k () (s\<lparr>force_primary := b\<rparr>)"
  by (simp add: set_force_primary_def)

lemma on_primary_Inr:
  "on_primary f s = (Inr x, t) \<Longrightarrow> force_primary s \<Longrightarrow>
     f (working s) = (Inr x, working t) \<and> pinned_step s t \<and> pending t = pending s"
  by (auto simp: on_primary_def pinned_step_def split: if_splits prod.splits)

lemma pinned_get_Inr:
  "db_get q s = (Inr x, t) \<Longrightarrow> force_primary s \<Longrightarrow>
     x = q (working s) \<and> working t = working s \<and> pinned_step s t \<and> pending t = pending s"
  by (auto simp: db_get_pinned dest: on_primary_Inr)

lemma pinned_scalar_Inr:
  "db_scalar q s = (Inr x, t) \<Longrightarrow> force_primary s \<Longrightarrow>
     x = q (working s) \<and> working t = working s \<and> pinned_step s t \<and> pending t = pending s"
  by (auto simp: db_scalar_pinned dest: on_primary_Inr)

lemma pinned_execute_Inr:
  "db_execute c f s = (Inr x, t) \<Longrightarrow> force_primary s \<Longrightarrow>
     f (working s) = (Inr x, working t) \<and> pinned_step s t \<and> pending t = pending s"
  by (auto simp: db_execute_pinned dest: on_primary_Inr)

lemma pinned_scalars_Inr:
  "db_scalars c f s = (Inr x, t) \<Longrightarrow> force_primary s \<Longrightarrow>
     f (working s) = (Inr x, working t) \<and> pinned_step s t \<and> pending t = pending s"
  by (auto simp: db_scalars_pinned dest: on_primary_Inr)

lemma db_flush_Inr:
  "db_flush f s = (Inr x, t) \<Longrightarrow> f (working s) = (Inr x, working t) \<and> pinned_step s t \<and> \<not> pending t"
  by (auto simp: db_flush_def pin_primary_on_flush_def pinned_step_def on_primary_def
      split: prod.splits sum.splits if_splits)

lemma pinned_step_trans: "pinned_step s t \<Longrightarrow> pinned_step t u \<Longrightarrow> pinned_step s u"
  by (simp add: pinned_step_def)

lemma pinned_step_simps [simp]:
  "pinned_step (s\<lparr>pending := p\<rparr>) t \<longleftrightarrow> pinned_step s t"
  "pinned_step (s\<lparr>force_primary := b\<rparr>) t \<longleftrightarrow> pinned_step s t"
  by (simp_all add: pinned_step_def)

lemmas step_Inr = pinned_get_Inr pinned_scalar_Inr pinned_execute_Inr pinned_scalars_Inr db_flush_Inr

text \<open>On a connection that does not fail, a step of a pinned session is its effect on the tables.\<close>

lemma on_primary_live:
  "budget s = None \<Longrightarrow> on_primary f s = (fst (f (working s)), s\<lparr>working := snd (f (working s))\<rparr>)"
  by (cases s) (auto simp: on_primary_def split: prod.split)

lemma db_flush_live:
  "budget s = None \<Longrightarrow>
     db_flush f s =
       (case f (working s) of
          (Inr x, w) \<Rightarrow> (Inr x, s\<lparr>working := w, force_primary := True, pending := False\<rparr>)
        | (Inl e, w) \<Rightarrow> (Inl e, s\<lparr>working := committed s, force_primary := True, pending := False\<rparr>))"
  by (cases s) (auto simp: db_flush_def on_primary_def pin_primary_on_flush_def split: prod.split sum.split)

lemma transaction_live:
  "budget s = None \<Longrightarrow> keeps (\<lambda>a b. budget a = None \<longrightarrow> budget b = None) body \<Longrightarrow>
     transaction body s =
       (case body s of
          (Inr x, t) \<Rightarrow> (Inr x, t\<lparr>committed := working t, pending := False\<rparr>)
        | (Inl e, t) \<Rightarrow> (Inl e, t\<lparr>working := committed t, pending := False\<rparr>))"
  by (cases "body s"; cases "fst (body s)")
     (auto simp: transaction_def commit_def rollback_def dest!: keepsD)

definition new_session :: "tables \<Rightarrow> session" where
  "new_session tb = \<lparr>committed = tb, working = tb, replica = Some tb, force_primary = False,
     pending = False, budget = None\<rparr>"

subsection \<open>The unit of work\<close>

text \<open>
  The contract of \<open>transaction\<close>: what a commit and a rollback of any store promise about what
  is durable and what is staged. The lemmas are proved from it once; the session's own commit
  and rollback discharge it.
\<close>

locale unit_of_work =
  fixes commit_op rollback_op :: "('s, 'e, unit) act"
    and durable staged :: "'s \<Rightarrow> 'd"
  assumes commit_done: "commit_op s = (Inr u, t) \<Longrightarrow> durable t = staged s \<and> staged t = staged s"
    and commit_fails: "commit_op s = (Inl e, t) \<Longrightarrow> durable t = durable s"
    and rollback_done: "rollback_op s = (r, t) \<Longrightarrow> r = Inr () \<and> durable t = durable s \<and> staged t = durable s"
begin

definition scope :: "('s, 'e, 'a) act \<Rightarrow> ('s, 'e, 'a) act" where
  "scope body = attempt (chain body (\<lambda>x. chain commit_op (\<lambda>_. ret x)))
     (\<lambda>e. chain rollback_op (\<lambda>_. raise e))"

lemma scope_Inr:
  assumes "scope body s = (Inr x, t)"
  obtains u where "body s = (Inr x, u)" "durable t = staged u" "staged t = staged u"
  using assms
  by (auto simp: scope_def attempt_eq_Inr_iff chain_eq_Inr_iff dest: commit_done)

lemma rolled_back:
  "chain rollback_op (\<lambda>_. raise e') u = (r, t) \<Longrightarrow> durable t = durable u \<and> staged t = durable u"
  by (cases "rollback_op u") (use rollback_done in \<open>fastforce simp: chain_def\<close>)

lemma scope_Inl:
  assumes "scope body s = (Inl e, t)"
    and body: "\<And>r u. body s = (r, u) \<Longrightarrow> durable u = durable s"
  shows "durable t = durable s \<and> staged t = durable s"
proof -
  obtain r u where bu: "body s = (r, u)" by (cases "body s")
  show ?thesis
  proof (cases r)
    case (Inl e')
    with bu assms(1) have "durable t = durable u \<and> staged t = durable u"
      by (auto simp: scope_def dest: rolled_back)
    with body [OF bu] show ?thesis by simp
  next
    case (Inr x)
    obtain r2 t2 where ct: "commit_op u = (r2, t2)" by (cases "commit_op u")
    with bu Inr assms(1) obtain e' where "r2 = Inl e'"
      by (cases r2) (auto simp: scope_def)
    with ct bu Inr assms(1) have "durable t = durable t2 \<and> staged t = durable t2"
      by (auto simp: scope_def dest: rolled_back)
    moreover have "durable t2 = durable u" using ct \<open>r2 = Inl e'\<close> commit_fails by simp
    ultimately show ?thesis using body [OF bu] by simp
  qed
qed

end

interpretation session_work: unit_of_work commit rollback committed working
  by unfold_locales (auto simp: commit_def rollback_def split: if_splits)

lemma transaction_scope: "transaction = session_work.scope"
  by (simp add: fun_eq_iff transaction_def session_work.scope_def)

lemma transaction_Inr:
  assumes "transaction body s = (Inr x, t)"
  obtains u where "body s = (Inr x, u)" "committed t = working u" "working t = working u"
  using assms unfolding transaction_scope by (rule session_work.scope_Inr)

lemma transaction_Inl:
  assumes "transaction body s = (Inl e, t)" and "keeps same_committed body"
  shows "committed t = committed s \<and> working t = committed s"
  using assms(1) unfolding transaction_scope
  by (rule session_work.scope_Inl) (use assms(2) in \<open>auto dest: keepsD\<close>)

subsection \<open>Properties of the session\<close>

text \<open>
  C10: A transaction is all or nothing, at whatever statement the connection breaks: when it
  returns, exactly what the body staged is durable; when it raises, the durable tables are
  those it started with and nothing is left staged.
\<close>

theorem transaction_all_or_nothing:
  assumes "keeps same_committed body" and "transaction body s = (r, t)"
  shows "case r of
           Inr x \<Rightarrow> \<exists>u. body s = (Inr x, u) \<and> committed t = working u \<and> working t = working u
         | Inl e \<Rightarrow> committed t = committed s \<and> working t = committed s"
proof (cases r)
  case (Inl e)
  with assms show ?thesis by (simp add: transaction_Inl)
next
  case (Inr x)
  with assms obtain u where "body s = (Inr x, u)" "committed t = working u" "working t = working u"
    by (auto elim: transaction_Inr)
  with Inr show ?thesis by auto
qed


text \<open>
  A failed replica costs nothing: a session with no staged and no pending work reads the
  same answer from the primary, is pinned to it from then on, and keeps what is durable.
\<close>

theorem replica_failover_answers:
  assumes "replica s = None" and "working s = committed s" and "\<not> pending s"
    and "budget s \<noteq> Some 0"
  shows "fst (db_scalar q s) = Inr (q (committed s))
       \<and> force_primary (snd (db_scalar q s)) \<and> committed (snd (db_scalar q s)) = committed s"
proof (cases "force_primary s")
  case True
  with assms show ?thesis by (simp add: db_scalar_pinned on_primary_def)
next
  case False
  with assms show ?thesis
    by (simp add: session_defs chain_def attempt_def Let_def)
qed

text \<open>
  Failover never trades away a write: in a session whose staged work has pinned it, a read
  leaves the staged and the pending work as they were, unless the primary itself is gone.
\<close>

theorem failover_keeps_staged_work:
  assumes "staged_pinned s" and "budget s \<noteq> Some 0"
  shows "working (snd (db_scalar q s)) = working s \<and> (pending s \<longrightarrow> pending (snd (db_scalar q s)))
       \<and> staged_pinned (snd (db_scalar q s))"
proof (cases "force_primary s")
  case True
  with assms show ?thesis by (simp add: db_scalar_pinned on_primary_def staged_pinned_def)
next
  case False
  with assms have "working s = committed s" by (simp add: staged_pinned_def)
  with False assms show ?thesis
    by (cases "replica s"; cases "pending s")
       (simp_all add: session_defs chain_def attempt_def Let_def staged_pinned_def)
qed

text \<open>The request's session leaves no staged work and restores the caller's routing flag.\<close>

lemma db_session_closes:
  "db_session body s = (r, t) \<Longrightarrow>
     working t = committed t \<and> \<not> pending t \<and> force_primary t = force_primary s"
  by (auto simp: db_session_def ensure_apply)

end
