(* ===== verification/OutboxRepo.thy ===== *)
theory OutboxRepo
  imports Database
begin

section \<open>core/outbox/repository.py\<close>

text \<open>
  \<open>OutboxRepository\<close>: the event staged in the caller's transaction, and the age of the oldest
  event that waits to be dispatched.
\<close>

definition new_event :: "string \<Rightarrow> (string \<times> json) list \<Rightarrow> uuid \<Rightarrow> time \<Rightarrow> outbox_row" where
  "new_event task_name payload i created =
     \<lparr>ob_id = i, ob_task_name = task_name, ob_payload = payload, ob_created_at = created,
      ob_dispatched_at = None, ob_failed_at = None, ob_attempts = 0, ob_last_error = None\<rparr>"

definition event_pending :: "outbox_row \<Rightarrow> bool" where
  "event_pending r \<longleftrightarrow> ob_dispatched_at r = None \<and> ob_failed_at r = None"

definition outbox_stage_add :: "string \<Rightarrow> (string \<times> json) list \<Rightarrow> uuid \<Rightarrow> time \<Rightarrow> outbox_row db" where
  "outbox_stage_add task_name payload new_id created =
     chain (set_force_primary True) (\<lambda>_.
       (let event = new_event task_name payload new_id created
        in chain db_add (\<lambda>_. chain (db_flush (insert_outbox event)) (\<lambda>_. ret event))))"

definition oldest_pending :: "tables \<Rightarrow> time option" where
  "oldest_pending tb =
     (case map ob_created_at (filter event_pending (outbox_events tb)) of
        [] \<Rightarrow> None | t # ts \<Rightarrow> Some (fold min ts t))"

definition oldest_pending_age :: "time \<Rightarrow> time option db" where
  "oldest_pending_age now =
     chain (set_force_primary True) (\<lambda>_.
     chain (db_scalar oldest_pending) (\<lambda>oldest.
     ret (map_option (\<lambda>t. now - t) oldest)))"

lemma outbox_stage_add_frames [frame_intros]:
  "keeps same_committed (outbox_stage_add n p i t)"
  "keeps pin_kept (outbox_stage_add n p i t)"
  "keeps staged_pinned_kept (outbox_stage_add n p i t)"
  unfolding outbox_stage_add_def Let_def
  by (intro frame_intros)+

context table_relation
begin

lemma kept_outbox [frame_intros]:
  "(\<And>b. stmt_rel R (insert_outbox b)) \<Longrightarrow> keeps (table_kept R) (outbox_stage_add n p i t)"
  "keeps (table_kept R) (oldest_pending_age now)"
  unfolding outbox_stage_add_def oldest_pending_age_def Let_def
  by (intro frame_intros | assumption)+

end

lemma outbox_stage_add_Inr:
  "outbox_stage_add n p i c s = (Inr e, t) \<Longrightarrow>
     e = new_event n p i c \<and> insert_outbox e (working s) = (Inr (), working t) \<and> pinned_step s t"
  by (auto simp: outbox_stage_add_def Let_def chain_eq_Inr_iff db_add_def dest!: db_flush_Inr)

lemma new_event_id [simp]: "ob_id (new_event n p i c) = i"
  by (simp add: new_event_def)

lemma outbox_stage_add_live:
  "budget s = None \<Longrightarrow> i \<notin> ob_id ` set (outbox_events (working s)) \<Longrightarrow>
     outbox_stage_add n p i c s =
       (Inr (new_event n p i c),
        s\<lparr>working := (working s)\<lparr>outbox_events := outbox_events (working s) @ [new_event n p i c]\<rparr>,
          force_primary := True, pending := False\<rparr>)"
  by (simp add: outbox_stage_add_def Let_def db_add_def db_flush_live insert_outbox_def)

text \<open>The age reported is the age of an event that is still pending, and no pending event is older.\<close>

lemma oldest_pending_iff:
  "oldest_pending tb = Some m \<longleftrightarrow>
     (\<exists>r \<in> set (outbox_events tb). event_pending r \<and> ob_created_at r = m)
   \<and> (\<forall>r \<in> set (outbox_events tb). event_pending r \<longrightarrow> m \<le> ob_created_at r)"
proof -
  define ts where "ts = map ob_created_at (filter event_pending (outbox_events tb))"
  have mem: "set ts = ob_created_at ` {r \<in> set (outbox_events tb). event_pending r}"
    by (auto simp: ts_def)
  have old: "oldest_pending tb = (if ts = [] then None else Some (Min (set ts)))"
    unfolding oldest_pending_def ts_def [symmetric]
    by (cases ts) (simp_all add: Min.set_eq_fold del: list.set)
  have "oldest_pending tb = Some m \<longleftrightarrow> m \<in> set ts \<and> (\<forall>x \<in> set ts. m \<le> x)"
  proof (cases "ts = []")
    case False
    then have "Min (set ts) = m \<longleftrightarrow> m \<in> set ts \<and> (\<forall>x \<in> set ts. m \<le> x)"
      by (intro Min_eq_iff) simp_all
    with False old show ?thesis by simp
  qed (simp add: old)
  then show ?thesis unfolding mem by auto
qed

lemma oldest_pending_None: "oldest_pending tb = None \<longleftrightarrow> (\<forall>r \<in> set (outbox_events tb). \<not> event_pending r)"
proof -
  have "oldest_pending tb = None \<longleftrightarrow> map ob_created_at (filter event_pending (outbox_events tb)) = []"
    unfolding oldest_pending_def by (simp only: split: list.split) simp
  then show ?thesis by (simp add: filter_empty_conv)
qed

end
