(* ===== verification/UserRepo.thy ===== *)
theory UserRepo
  imports OutboxRepo "HOL-Library.Product_Lexorder"
begin

section \<open>user/repositories/user_repository.py\<close>

text \<open>
  \<open>User\<close> (\<open>user/entities/user.py\<close>) and the operations of \<open>UserRepository\<close>. Every value the code
  takes from \<open>uuid4()\<close> or \<open>datetime.now()\<close> is an argument, in the order of the calls. The driver's
  message for a violated constraint (\<open>str(err.orig)\<close>) is the parameter \<open>orig_text\<close>, and the
  pagination library's choice of a page the parameter \<open>apaginate\<close>.
\<close>

record user =
  user_id :: uuid
  user_email :: string
  user_full_name :: string
  user_password_hash :: string
  user_is_active :: bool
  user_is_verified :: bool
  user_pending_verification_jti :: "string option"
  user_pending_password_reset_jti :: "string option"
  user_created_at :: time
  user_updated_at :: time
  user_scopes :: string

definition scope_list :: "user \<Rightarrow> string list" where
  "scope_list u = split_ws (user_scopes u)"

definition user_to_entity :: "user_row \<Rightarrow> user" where
  "user_to_entity model =
     \<lparr>user_id = u_id model, user_email = u_email model, user_full_name = u_full_name model,
      user_password_hash = u_password_hash model, user_is_active = u_is_active model,
      user_is_verified = u_is_verified model,
      user_pending_verification_jti = u_pending_verification_jti model,
      user_pending_password_reset_jti = u_pending_password_reset_jti model,
      user_created_at = u_created_at model, user_updated_at = u_updated_at model,
      user_scopes = u_scopes model\<rparr>"

subsection \<open>Changes of a row\<close>

text \<open>
  \<open>UserModel(...)\<close> with its column defaults, and the keyword arguments \<open>**changes\<close> of an update.
  \<open>email\<close> and \<open>full_name\<close> come from a request body and may be an explicit \<open>null\<close>.
\<close>

definition new_user_row ::
  "uuid \<Rightarrow> string \<Rightarrow> string \<Rightarrow> string \<Rightarrow> string option \<Rightarrow> time \<Rightarrow> time \<Rightarrow> user_row" where
  "new_user_row i full_name email password_hash jti created updated =
     \<lparr>u_id = i, u_email = email, u_password_hash = password_hash, u_scopes = [],
      u_full_name = full_name, u_is_verified = False, u_pending_verification_jti = jti,
      u_pending_password_reset_jti = None, u_created_at = created, u_updated_at = updated,
      u_is_active = True\<rparr>"

datatype user_field =
  SetFullName "string option" | SetEmail "string option" | SetPasswordHash string
| SetIsVerified bool | SetIsActive bool
| SetPendingVerificationJti string | SetPendingPasswordResetJti string | SetScopes string

definition set_field :: "user_field \<Rightarrow> user_row \<Rightarrow> user_row" where
  "set_field f r =
     (case f of
        SetFullName v \<Rightarrow> (case v of None \<Rightarrow> r | Some x \<Rightarrow> r\<lparr>u_full_name := x\<rparr>)
      | SetEmail v \<Rightarrow> (case v of None \<Rightarrow> r | Some x \<Rightarrow> r\<lparr>u_email := x\<rparr>)
      | SetPasswordHash x \<Rightarrow> r\<lparr>u_password_hash := x\<rparr>
      | SetIsVerified b \<Rightarrow> r\<lparr>u_is_verified := b\<rparr>
      | SetIsActive b \<Rightarrow> r\<lparr>u_is_active := b\<rparr>
      | SetPendingVerificationJti j \<Rightarrow> r\<lparr>u_pending_verification_jti := Some j\<rparr>
      | SetPendingPasswordResetJti j \<Rightarrow> r\<lparr>u_pending_password_reset_jti := Some j\<rparr>
      | SetScopes v \<Rightarrow> r\<lparr>u_scopes := v\<rparr>)"

definition set_fields :: "user_field list \<Rightarrow> user_row \<Rightarrow> user_row" where
  "set_fields changes r = fold set_field changes r"

text \<open>
  The flush of a changed row. Attributes that end up equal to what they were emit no \<open>UPDATE\<close>,
  so \<open>updated_at\<close> only moves with a change. PostgreSQL checks \<open>NOT NULL\<close> in column order before
  it checks the unique index.
\<close>

definition flush_user_update :: "uuid \<Rightarrow> user_field list \<Rightarrow> time \<Rightarrow> tables \<Rightarrow> (exc + user_row) \<times> tables"
  where
  "flush_user_update i changes now tb =
     (case find_user i tb of None \<Rightarrow> (Inl (RuntimeError ''StaleDataError''), tb)
      | Some r \<Rightarrow>
          (let r' = set_fields changes r in
           if SetEmail None \<in> set changes
             then (Inl (IntegrityError (NotNullViolation ''users'' ''email'')), tb)
           else if SetFullName None \<in> set changes
             then (Inl (IntegrityError (NotNullViolation ''users'' ''full_name'')), tb)
           else if r' = r then (Inr r, tb)
           else if \<exists>q \<in> set (users tb). u_id q \<noteq> i \<and> u_email q = u_email r'
             then (Inl (IntegrityError (UniqueViolation ''users'' ''email'')), tb)
           else (Inr (r'\<lparr>u_updated_at := now\<rparr>),
                 tb\<lparr>users := update_where (\<lambda>q. u_id q = i)
                               (\<lambda>q. (set_fields changes q)\<lparr>u_updated_at := now\<rparr>) (users tb)\<rparr>)))"

text \<open>Deleting a user cascades to its refresh sessions (\<open>ondelete="CASCADE"\<close>).\<close>

definition flush_user_delete :: "uuid \<Rightarrow> tables \<Rightarrow> (exc + unit) \<times> tables" where
  "flush_user_delete i tb =
     (Inr (), tb\<lparr>users := delete_where (\<lambda>r. u_id r = i) (users tb),
                refresh_sessions := delete_where (\<lambda>r. rs_user_id r = i) (refresh_sessions tb)\<rparr>)"

subsection \<open>The operations\<close>

definition email_conflict :: "(violation \<Rightarrow> string) \<Rightarrow> exc \<Rightarrow> exc" where
  "email_conflict orig_text err =
     (case err of
        IntegrityError v \<Rightarrow>
          if contains (lower (orig_text v)) ''email''
          then Domain (conflict_error ''Email already in use'') else err
      | _ \<Rightarrow> err)"

definition flush_or_raise ::
  "(violation \<Rightarrow> string) \<Rightarrow> bool \<Rightarrow> (tables \<Rightarrow> (exc + 'a) \<times> tables) \<Rightarrow> 'a db" where
  "flush_or_raise orig_text adds f =
     attempt (chain (if adds then db_add else ret ()) (\<lambda>_. db_flush f))
             (\<lambda>err. raise (email_conflict orig_text err))"

definition user_stage_add ::
  "(violation \<Rightarrow> string) \<Rightarrow> string \<Rightarrow> string \<Rightarrow> string \<Rightarrow> uuid option \<Rightarrow> string option
     \<Rightarrow> uuid \<Rightarrow> time \<Rightarrow> time \<Rightarrow> user db" where
  "user_stage_add orig_text full_name email password_hash i jti new_id created updated =
     chain (set_force_primary True) (\<lambda>_.
       (let model = new_user_row (case i of Some x \<Rightarrow> x | None \<Rightarrow> new_id) full_name email
                      password_hash jti created updated
        in chain (flush_or_raise orig_text True (insert_user model)) (\<lambda>_. ret (user_to_entity model))))"

definition user_stage_update ::
  "(violation \<Rightarrow> string) \<Rightarrow> uuid \<Rightarrow> user_field list \<Rightarrow> time \<Rightarrow> user option db" where
  "user_stage_update orig_text i changes now =
     chain (set_force_primary True) (\<lambda>_.
       chain (db_get (find_user i)) (\<lambda>u.
         case u of None \<Rightarrow> ret None
         | Some _ \<Rightarrow>
             chain (flush_or_raise orig_text False (flush_user_update i changes now))
                   (\<lambda>model. ret (Some (user_to_entity model)))))"

definition user_stage_deactivate :: "(violation \<Rightarrow> string) \<Rightarrow> uuid \<Rightarrow> time \<Rightarrow> user option db" where
  "user_stage_deactivate orig_text i now = user_stage_update orig_text i [SetIsActive False] now"

definition user_add ::
  "(violation \<Rightarrow> string) \<Rightarrow> string \<Rightarrow> string \<Rightarrow> string \<Rightarrow> uuid \<Rightarrow> time \<Rightarrow> time \<Rightarrow> user db" where
  "user_add orig_text full_name email password_hash new_id created updated =
     transaction (user_stage_add orig_text full_name email password_hash None None new_id created updated)"

definition user_register ::
  "(violation \<Rightarrow> string) \<Rightarrow> uuid \<Rightarrow> string \<Rightarrow> string \<Rightarrow> string \<Rightarrow> string \<Rightarrow> (string \<times> json) list
     \<Rightarrow> uuid \<Rightarrow> time \<Rightarrow> time \<Rightarrow> uuid \<Rightarrow> time \<Rightarrow> user db" where
  "user_register orig_text i full_name email password_hash pending_verification_jti email_payload
     new_id created updated event_id event_created =
     transaction
       (chain (user_stage_add orig_text full_name email password_hash (Some i)
                 (Some pending_verification_jti) new_id created updated) (\<lambda>u.
        chain (outbox_stage_add ''send_email_task'' email_payload event_id event_created) (\<lambda>_.
        ret u)))"

definition user_get :: "uuid \<Rightarrow> bool \<Rightarrow> user option db" where
  "user_get i consistent =
     chain (if consistent then set_force_primary True else ret ()) (\<lambda>_.
     chain (db_scalar (find_user i)) (\<lambda>result.
     ret (map_option user_to_entity result)))"

definition user_get_by_email :: "string \<Rightarrow> bool \<Rightarrow> user option db" where
  "user_get_by_email email consistent =
     chain (if consistent then set_force_primary True else ret ()) (\<lambda>_.
     chain (db_scalar (find_user_by_email email)) (\<lambda>result.
     ret (map_option user_to_entity result)))"

definition user_update ::
  "(violation \<Rightarrow> string) \<Rightarrow> uuid \<Rightarrow> user_field list \<Rightarrow> time \<Rightarrow> user option db" where
  "user_update orig_text i changes now = transaction (user_stage_update orig_text i changes now)"

definition user_delete :: "(violation \<Rightarrow> string) \<Rightarrow> uuid \<Rightarrow> time \<Rightarrow> user option db" where
  "user_delete orig_text i now = transaction (user_stage_deactivate orig_text i now)"

definition user_force_delete :: "uuid \<Rightarrow> user option db" where
  "user_force_delete i =
     chain (set_force_primary True) (\<lambda>_.
     chain (db_get (find_user i)) (\<lambda>u.
       case u of None \<Rightarrow> ret None
       | Some model \<Rightarrow>
           chain (transaction (chain db_add (\<lambda>_. db_flush (flush_user_delete i)))) (\<lambda>_.
           ret (Some (user_to_entity model)))))"

definition ordered_users :: "tables \<Rightarrow> user_row list" where
  "ordered_users tb = rev (sort_key (\<lambda>r. (u_created_at r, uint (u_id r))) (users tb))"

definition user_list :: "('p \<Rightarrow> user_row list \<Rightarrow> user_row list) \<Rightarrow> 'p \<Rightarrow> user list db" where
  "user_list apaginate params =
     chain (db_scalars Select (\<lambda>tb. (Inr (ordered_users tb), tb))) (\<lambda>rows.
     ret (map user_to_entity (apaginate params rows)))"


subsection \<open>Rows and statements\<close>

lemma set_field_id [simp]: "u_id (set_field f r) = u_id r"
  by (simp add: set_field_def split: user_field.split option.split)

lemma set_fields_id [simp]: "u_id (set_fields fs r) = u_id r"
  unfolding set_fields_def by (induction fs arbitrary: r) simp_all

lemma flush_user_update_Inr:
  "flush_user_update i fs now tb = (Inr r', tb') \<Longrightarrow>
     \<exists>r. find_user i tb = Some r
       \<and> (r' = r \<and> tb' = tb \<and> set_fields fs r = r
          \<or> r' = (set_fields fs r)\<lparr>u_updated_at := now\<rparr>
          \<and> (\<forall>q \<in> set (users tb). u_id q \<noteq> i \<longrightarrow> u_email q \<noteq> u_email r')
          \<and> tb' = tb\<lparr>users := update_where (\<lambda>q. u_id q = i)
                       (\<lambda>q. (set_fields fs q)\<lparr>u_updated_at := now\<rparr>) (users tb)\<rparr>)"
  by (auto simp: flush_user_update_def Let_def split: option.splits if_splits)

lemma flush_user_update_ok [frame_intros]: "stmt_rel ok_step (flush_user_update i fs now)"
proof (rule stmt_okI)
  fix tb
  assume ok: "tables_ok tb"
  obtain x tb' where f: "flush_user_update i fs now tb = (x, tb')" by force
  show "tables_ok (snd (flush_user_update i fs now tb))"
  proof (cases "tb' = tb")
    case False
    with f obtain r' where x: "x = Inr r'"
      by (auto simp: flush_user_update_def Let_def split: option.splits if_splits)
    let ?g = "\<lambda>q. (set_fields fs q)\<lparr>u_updated_at := now\<rparr>"
    obtain r where r: "find_user i tb = Some r" and r': "r' = ?g r"
      and free: "\<forall>q \<in> set (users tb). u_id q \<noteq> i \<longrightarrow> u_email q \<noteq> u_email r'"
      and tb': "tb' = tb\<lparr>users := update_where (\<lambda>q. u_id q = i) ?g (users tb)\<rparr>"
      using flush_user_update_Inr [OF f [unfolded x]] False by blast
    have only: "q = r" if "q \<in> set (users tb)" "u_id q = i" for q
      using find_user_iff [OF ok] r that by (metis option.inject)
    have keys: "map u_id (users tb') = map u_id (users tb)"
      using user_table.keys_update_where [of ?g] by (simp add: tb')
    have clash: "u_email (?g x) \<noteq> u_email y"
      if "x \<in> set (users tb)" "y \<in> set (users tb)" "u_id x = i" "u_id y \<noteq> i" for x y
      using only [OF that(1,3)] free r' that by auto
    have "distinct (map u_email (update_where (\<lambda>q. u_id q = i) ?g (users tb)))"
    proof (rule distinct_map_update)
      show "distinct (map u_email (users tb))" using ok by (simp add: tables_ok_def)
      show "u_email (?g x) \<noteq> u_email y"
        if "x \<in> set (users tb)" "y \<in> set (users tb)" "u_id x = i" "\<not> u_id y = i" for x y
        using that by (intro clash)
      show "x = y" if "x \<in> set (users tb)" "y \<in> set (users tb)" "u_id x = i" "u_id y = i" for x y
        using only that by metis
    qed
    then have "distinct (map u_email (users tb'))" by (simp add: tb')
    moreover have "u_id ` set (users tb') = u_id ` set (users tb)"
      by (metis keys list.set_map)
    ultimately have "tables_ok tb'" using ok keys by (simp add: tables_ok_def tb')
    then show ?thesis by (simp add: f)
  qed (simp add: f ok)
qed

lemma flush_user_delete_ok [frame_intros]: "stmt_rel ok_step (flush_user_delete i)"
  by (rule stmt_okI) (auto simp: flush_user_delete_def tables_ok_def delete_where_def distinct_map_filter)

lemma flush_or_raise_frames [frame_intros]:
  "keeps same_committed (flush_or_raise ot b f)"
  "keeps pin_kept (flush_or_raise ot b f)"
  "keeps staged_pinned_kept (flush_or_raise ot b f)"
  unfolding flush_or_raise_def by (intro frame_intros | assumption)+

lemma flush_or_raise_Inr:
  "flush_or_raise ot b f s = (Inr x, t) \<Longrightarrow> f (working s) = (Inr x, working t) \<and> pinned_step s t"
  by (auto simp: flush_or_raise_def attempt_eq_Inr_iff chain_eq_Inr_iff db_add_def
      dest!: db_flush_Inr split: if_splits)

subsection \<open>Frames of the operations\<close>

lemma user_stage_frames [frame_intros]:
  "keeps same_committed (user_stage_add ot n e h oi j k c u)"
  "keeps pin_kept (user_stage_add ot n e h oi j k c u)"
  "keeps staged_pinned_kept (user_stage_add ot n e h oi j k c u)"
  "keeps same_committed (user_stage_update ot i fs now)"
  "keeps pin_kept (user_stage_update ot i fs now)"
  "keeps staged_pinned_kept (user_stage_update ot i fs now)"
  unfolding user_stage_add_def user_stage_update_def Let_def by (intro frame_intros)+

lemma user_stage_deactivate_frames [frame_intros]:
  "keeps same_committed (user_stage_deactivate ot i now)"
  "keeps pin_kept (user_stage_deactivate ot i now)"
  "keeps staged_pinned_kept (user_stage_deactivate ot i now)"
  unfolding user_stage_deactivate_def by (intro frame_intros)+

lemma user_read_frames [frame_intros]:
  "keeps same_committed (user_get i b)" "keeps same_committed (user_get_by_email e b)"
  "keeps pin_kept (user_get i b)" "keeps pin_kept (user_get_by_email e b)"
  "keeps staged_pinned_kept (user_get i b)" "keeps staged_pinned_kept (user_get_by_email e b)"
  unfolding user_get_def user_get_by_email_def by (intro frame_intros)+

lemma user_write_frames [frame_intros]:
  "keeps pin_kept (user_add ot n e h k c u)"
  "keeps staged_pinned_kept (user_add ot n e h k c u)"
  "keeps pin_kept (user_register ot i n e h j p k c u ei ec)"
  "keeps staged_pinned_kept (user_register ot i n e h j p k c u ei ec)"
  "keeps pin_kept (user_update ot i fs now)"
  "keeps staged_pinned_kept (user_update ot i fs now)"
  "keeps pin_kept (user_delete ot i now)"
  "keeps staged_pinned_kept (user_delete ot i now)"
  "keeps pin_kept (user_force_delete i)"
  "keeps staged_pinned_kept (user_force_delete i)"
  unfolding user_add_def user_register_def user_update_def user_delete_def user_force_delete_def
  by (intro frame_intros)+


context table_relation
begin

lemma kept_flush_or_raise [frame_intros]:
  "stmt_rel R f \<Longrightarrow> keeps (table_kept R) (flush_or_raise ot b f)"
  unfolding flush_or_raise_def by (intro frame_intros | assumption)+

lemma kept_user_reads [frame_intros]:
  "keeps (table_kept R) (user_get i b)"
  "keeps (table_kept R) (user_get_by_email e b)"
  "keeps (table_kept R) (user_list pg ps)"
  unfolding user_get_def user_get_by_email_def user_list_def by (intro frame_intros)+

lemma kept_user_stage_add [frame_intros]:
  "(\<And>r. stmt_rel R (insert_user r)) \<Longrightarrow> keeps (table_kept R) (user_stage_add ot n e h oi j k c u)"
  unfolding user_stage_add_def Let_def by (intro frame_intros | assumption)+

lemma kept_user_stage_update [frame_intros]:
  "(\<And>j ch t. stmt_rel R (flush_user_update j ch t)) \<Longrightarrow> keeps (table_kept R) (user_stage_update ot i fs now)"
  "(\<And>j ch t. stmt_rel R (flush_user_update j ch t)) \<Longrightarrow> keeps (table_kept R) (user_stage_deactivate ot i now)"
  unfolding user_stage_deactivate_def user_stage_update_def by (intro frame_intros | assumption)+

lemma kept_user_writes [frame_intros]:
  "(\<And>r. stmt_rel R (insert_user r)) \<Longrightarrow> keeps (table_kept R) (user_add ot n e h k c u)"
  "(\<And>r. stmt_rel R (insert_user r)) \<Longrightarrow> (\<And>b. stmt_rel R (insert_outbox b)) \<Longrightarrow>
     keeps (table_kept R) (user_register ot i n e h j p k c u ei ec)"
  "(\<And>j ch t. stmt_rel R (flush_user_update j ch t)) \<Longrightarrow> keeps (table_kept R) (user_update ot i fs now)"
  "(\<And>j ch t. stmt_rel R (flush_user_update j ch t)) \<Longrightarrow> keeps (table_kept R) (user_delete ot i now)"
  "(\<And>j. stmt_rel R (flush_user_delete j)) \<Longrightarrow> keeps (table_kept R) (user_force_delete i)"
  unfolding user_add_def user_register_def user_update_def user_delete_def user_force_delete_def
  by (intro frame_intros | assumption)+

end

subsection \<open>What the operations do\<close>

lemma user_stage_add_Inr:
  assumes "user_stage_add ot n e h oi j k c u s = (Inr x, t)"
  defines "m \<equiv> new_user_row (case oi of Some i \<Rightarrow> i | None \<Rightarrow> k) n e h j c u"
  shows "x = user_to_entity m \<and> insert_user m (working s) = (Inr (), working t) \<and> pinned_step s t"
  using assms(1)
  by (auto simp: user_stage_add_def Let_def chain_eq_Inr_iff m_def dest!: flush_or_raise_Inr)

lemma user_stage_update_Inr:
  assumes "user_stage_update ot i fs now s = (Inr x, t)"
  shows "pinned_step s t \<and>
     (case x of
        None \<Rightarrow> find_user i (working s) = None \<and> working t = working s
      | Some u \<Rightarrow> \<exists>r'. flush_user_update i fs now (working s) = (Inr r', working t)
                     \<and> u = user_to_entity r')"
  using assms
  by (auto simp: user_stage_update_def chain_eq_Inr_iff intro: pinned_step_trans
      dest!: pinned_get_Inr flush_or_raise_Inr split: option.splits)

lemma find_user_flush_update:
  assumes "flush_user_update i fs now tb = (Inr r', tb')"
  shows "find_user j tb' = (if j = i then Some r' else find_user j tb)
    \<and> only_users tb tb' \<and> u_id r' = i"
proof -
  let ?g = "\<lambda>q. (set_fields fs q)\<lparr>u_updated_at := now\<rparr>"
  have upd: "find_user j (tb\<lparr>users := update_where (\<lambda>q. u_id q = i) ?g (users tb)\<rparr>) =
      (if j = i then map_option ?g (find_user i tb) else find_user j tb)"
  proof (cases "find_user j tb")
    case None
    then show ?thesis
      using user_table.find_update_where [of ?g j "\<lambda>q. u_id q = i" "users tb"]
      by (auto simp: find_user_def)
  next
    case (Some r)
    then have "u_id r = j" by (simp add: find_user_id)
    with Some show ?thesis
      using user_table.find_update_where [of ?g j "\<lambda>q. u_id q = i" "users tb"]
      by (auto simp: find_user_def)
  qed
  obtain r where r: "find_user i tb = Some r" and id: "u_id r = i"
    using flush_user_update_Inr [OF assms] find_user_id by metis
  from flush_user_update_Inr [OF assms] r
  consider "r' = r" "tb' = tb"
    | "r' = ?g r" "tb' = tb\<lparr>users := update_where (\<lambda>q. u_id q = i) ?g (users tb)\<rparr>"
    by (metis option.inject)
  then show ?thesis
  proof cases
    case 1
    with r id show ?thesis by (simp add: only_users_def)
  next
    case 2
    show ?thesis
      unfolding 2(2) upd by (simp add: 2(1) r id only_users_def)
  qed
qed

text \<open>
  Sign-up is atomic. A registration that returns has stored exactly the new account,
  unverified and active, together with the outbox event that sends its verification mail; one
  that raises, at whatever statement, has stored neither.
\<close>

theorem register_all_or_nothing:
  "case user_register ot i name email hash jti mail k c u ei ec s of
     (Inr x, t) \<Rightarrow>
       (let row = new_user_row i name email hash (Some jti) c u in
        x = user_to_entity row
      \<and> email \<notin> u_email ` set (users (working s)) \<and> i \<notin> u_id ` set (users (working s))
      \<and> committed t = (working s)\<lparr>users := users (working s) @ [row],
          outbox_events := outbox_events (working s) @ [new_event ''send_email_task'' mail ei ec]\<rparr>)
   | (Inl err, t) \<Rightarrow> committed t = committed s \<and> working t = committed s"
proof -
  let ?body = "chain (user_stage_add ot name email hash (Some i) (Some jti) k c u) (\<lambda>x.
    chain (outbox_stage_add ''send_email_task'' mail ei ec) (\<lambda>_. ret x))"
  obtain r t where op: "transaction ?body s = (r, t)" by force
  show ?thesis
  proof (cases r)
    case (Inl e)
    have "keeps same_committed ?body" by (intro frame_intros)+
    with op Inl have "committed t = committed s \<and> working t = committed s"
      by (auto dest: transaction_Inl)
    with op Inl show ?thesis by (simp add: user_register_def)
  next
    case (Inr x)
    with op obtain v where "?body s = (Inr x, v)" "committed t = working v"
      by (auto elim: transaction_Inr)
    with op Inr show ?thesis
      by (auto simp: user_register_def chain_eq_Inr_iff Let_def insert_Inr
          new_event_def new_user_row_def dest!: user_stage_add_Inr outbox_stage_add_Inr)
  qed
qed

definition driver_names_column :: "(violation \<Rightarrow> string) \<Rightarrow> bool" where
  "driver_names_column ot \<longleftrightarrow>
     (\<forall>tn cn. contains (lower (ot (UniqueViolation tn cn))) (lower cn)
           \<and> contains (lower (ot (NotNullViolation tn cn))) (lower cn))"

lemma lower_email: "lower ''email'' = ''email''"
  by (simp add: lower_def lower_char_def Let_def)

lemma driver_namesD:
  "driver_names_column ot \<Longrightarrow> contains (lower (ot (UniqueViolation tn cn))) (lower cn)"
  "driver_names_column ot \<Longrightarrow> contains (lower (ot (NotNullViolation tn cn))) (lower cn)"
  by (simp_all add: driver_names_column_def)

text \<open>
  An address is registered once. Where the driver's message for a violated constraint
  names the column (as PostgreSQL's does), a registration with an address already in use
  raises the 409 conflict and stores nothing.
\<close>

theorem register_duplicate_email_conflicts:
  assumes "driver_names_column ot" and "budget s = None"
    and "email \<in> u_email ` set (users (working s))" and "i \<notin> u_id ` set (users (working s))"
  shows "user_register ot i name email hash jti mail k c u ei ec s =
    (Inl (Domain (conflict_error ''Email already in use'')),
     s\<lparr>working := committed s, force_primary := True, pending := False\<rparr>)"
proof -
  have named: "contains (lower (ot (UniqueViolation ''users'' ''email''))) ''email''"
    using driver_namesD(1) [OF assms(1), of "''users''" "''email''"] by (simp only: lower_email)
  have "user_stage_add ot name email hash (Some i) (Some jti) k c u s =
      (Inl (Domain (conflict_error ''Email already in use'')),
       s\<lparr>working := committed s, force_primary := True, pending := False\<rparr>)"
    using assms(2-4) named
    by (simp add: user_stage_add_def flush_or_raise_def db_add_def db_flush_live insert_user_def
        new_user_row_def email_conflict_def Let_def)
  then show ?thesis by (simp add: user_register_def transaction_def rollback_def)
qed

text \<open>
  An update of a user changes that user only. It returns the stored row, whose fields are
  the requested ones and whose \<open>updated_at\<close> moved if and only if something changed; every other
  user and table is as it was, and an unknown id changes nothing.
\<close>

theorem user_update_changes_one_row:
  "case user_update ot i fs now s of
     (Inr None, t) \<Rightarrow> find_user i (working s) = None \<and> committed t = working s
   | (Inr (Some x), t) \<Rightarrow>
       (\<exists>r r'. find_user i (working s) = Some r
          \<and> r' = (if set_fields fs r = r then r else (set_fields fs r)\<lparr>u_updated_at := now\<rparr>)
          \<and> x = user_to_entity r' \<and> find_user i (committed t) = Some r'
          \<and> (\<forall>j. j \<noteq> i \<longrightarrow> find_user j (committed t) = find_user j (working s))
          \<and> only_users (working s) (committed t))
   | (Inl err, t) \<Rightarrow> committed t = committed s"
proof -
  obtain r t where op: "user_update ot i fs now s = (r, t)" by force
  show ?thesis
  proof (cases r)
    case (Inl e)
    have "keeps same_committed (user_stage_update ot i fs now)" by (intro frame_intros)
    with op Inl show ?thesis by (auto simp: user_update_def dest: transaction_Inl)
  next
    case (Inr x)
    with op obtain v where v: "user_stage_update ot i fs now s = (Inr x, v)" "committed t = working v"
      by (auto simp: user_update_def elim: transaction_Inr)
    show ?thesis
    proof (cases x)
      case None
      with v op Inr show ?thesis by (auto dest!: user_stage_update_Inr)
    next
      case (Some u)
      with v obtain r' where f: "flush_user_update i fs now (working s) = (Inr r', working v)"
        and u: "u = user_to_entity r'" by (auto dest!: user_stage_update_Inr)
      obtain r0 where "find_user i (working s) = Some r0"
        "r' = (if set_fields fs r0 = r0 then r0 else (set_fields fs r0)\<lparr>u_updated_at := now\<rparr>)"
        using f by (auto simp: flush_user_update_def Let_def split: option.splits if_splits)
      with find_user_flush_update [OF f] op Inr Some u v(2) show ?thesis by auto
    qed
  qed
qed

end
