(* ===== verification/TokenRepo.thy ===== *)
theory TokenRepo
  imports Database
begin

section \<open>auth/repositories/revoked_token_repository.py\<close>

text \<open>
  \<open>TokenRef\<close> and \<open>RevokedToken\<close> (\<open>auth/entities\<close>) and the operations of
  \<open>RevokedTokenRepository\<close>. A revoked token matters until it would have expired anyway; the
  reads look only at rows whose expiry is still ahead.
\<close>

record token_ref =
  tr_jti :: string
  tr_expires_at :: time

record revoked_token =
  rv_id :: uuid
  rv_jti :: string
  rv_expires_at :: time

definition token_to_entity :: "revoked_row \<Rightarrow> revoked_token" where
  "token_to_entity model =
     \<lparr>rv_id = rt_id model, rv_jti = rt_jti model, rv_expires_at = rt_expires_at model\<rparr>"

definition new_revoked :: "string \<Rightarrow> time \<Rightarrow> uuid \<Rightarrow> revoked_row" where
  "new_revoked jti expires_at new_id = \<lparr>rt_id = new_id, rt_jti = jti, rt_expires_at = expires_at\<rparr>"

definition already_used :: "exc \<Rightarrow> exc" where
  "already_used err =
     (case err of IntegrityError _ \<Rightarrow> Domain (conflict_error ''Token already used'') | _ \<Rightarrow> err)"

definition token_stage_add :: "string \<Rightarrow> time \<Rightarrow> uuid \<Rightarrow> revoked_token db" where
  "token_stage_add jti expires_at new_id =
     chain (set_force_primary True) (\<lambda>_.
       (let model = new_revoked jti expires_at new_id in
        chain (attempt (chain db_add (\<lambda>_. db_flush (insert_revoked model)))
                 (\<lambda>err. raise (already_used err)))
              (\<lambda>_. ret (token_to_entity model))))"

text \<open>\<open>INSERT ... ON CONFLICT (jti) DO NOTHING\<close>.\<close>

definition insert_revoked_if_absent :: "revoked_row \<Rightarrow> tables \<Rightarrow> (exc + unit) \<times> tables" where
  "insert_revoked_if_absent r tb =
     (if rt_jti r \<in> rt_jti ` set (revoked_tokens tb) then (Inr (), tb) else insert_revoked r tb)"

definition token_stage_add_if_absent :: "string \<Rightarrow> time \<Rightarrow> uuid \<Rightarrow> unit db" where
  "token_stage_add_if_absent jti expires_at new_id =
     chain (set_force_primary True) (\<lambda>_.
     db_execute Insert (insert_revoked_if_absent (new_revoked jti expires_at new_id)))"

definition token_add :: "string \<Rightarrow> time \<Rightarrow> uuid \<Rightarrow> revoked_token db" where
  "token_add jti expires_at new_id = transaction (token_stage_add jti expires_at new_id)"

definition active_revocation :: "string \<Rightarrow> time \<Rightarrow> tables \<Rightarrow> revoked_row option" where
  "active_revocation jti now tb =
     find (\<lambda>r. rt_jti r = jti \<and> rt_expires_at r > now) (revoked_tokens tb)"

definition token_exists :: "string \<Rightarrow> time \<Rightarrow> bool db" where
  "token_exists jti now =
     chain (on_primary_only (db_scalar (active_revocation jti now))) (\<lambda>result.
     ret (result \<noteq> None))"

definition active_revocations :: "time \<Rightarrow> tables \<Rightarrow> token_ref list" where
  "active_revocations now tb =
     map (\<lambda>r. \<lparr>tr_jti = rt_jti r, tr_expires_at = rt_expires_at r\<rparr>)
       (filter (\<lambda>r. rt_expires_at r > now) (revoked_tokens tb))"

definition token_list_active :: "time \<Rightarrow> token_ref list db" where
  "token_list_active now =
     on_primary_only (db_execute Select (\<lambda>tb. (Inr (active_revocations now tb), tb)))"

definition delete_expired_tokens :: "time \<Rightarrow> tables \<Rightarrow> (exc + uuid list) \<times> tables" where
  "delete_expired_tokens now tb =
     (Inr (map rt_id (filter (\<lambda>r. rt_expires_at r \<le> now) (revoked_tokens tb))),
      tb\<lparr>revoked_tokens := delete_where (\<lambda>r. rt_expires_at r \<le> now) (revoked_tokens tb)\<rparr>)"

definition token_purge_expired :: "time \<Rightarrow> nat db" where
  "token_purge_expired now =
     chain (set_force_primary True) (\<lambda>_.
     transaction (chain (db_execute Delete (delete_expired_tokens now)) (\<lambda>result. ret (length result))))"

subsection \<open>Frames\<close>

lemma token_stmts_ok [frame_intros]:
  "stmt_rel ok_step (insert_revoked_if_absent r)"
  "stmt_rel ok_step (delete_expired_tokens now)"
proof -
  show "stmt_rel ok_step (insert_revoked_if_absent r)"
    by (rule stmt_okI) (auto simp: insert_revoked_if_absent_def intro: insert_revoked_ok prod.collapse [symmetric])
  show "stmt_rel ok_step (delete_expired_tokens now)"
    by (rule stmt_okI) (auto simp: delete_expired_tokens_def tables_ok_def delete_where_def distinct_map_filter)
qed

lemma token_frames [frame_intros]:
  "keeps same_committed (token_stage_add j e i)"
  "keeps pin_kept (token_stage_add j e i)"
  "keeps staged_pinned_kept (token_stage_add j e i)"
  "keeps same_committed (token_stage_add_if_absent j e i)"
  "keeps pin_kept (token_stage_add_if_absent j e i)"
  "keeps staged_pinned_kept (token_stage_add_if_absent j e i)"
  "keeps same_committed (token_exists j now)"
  "keeps pin_kept (token_exists j now)"
  "keeps staged_pinned_kept (token_exists j now)"
  unfolding token_stage_add_def token_stage_add_if_absent_def token_exists_def Let_def
  by (intro frame_intros)+

context table_relation
begin

lemma kept_tokens [frame_intros]:
  "stmt_rel R (insert_revoked (new_revoked j e i)) \<Longrightarrow> keeps (table_kept R) (token_stage_add j e i)"
  "stmt_rel R (insert_revoked_if_absent (new_revoked j e i)) \<Longrightarrow>
     keeps (table_kept R) (token_stage_add_if_absent j e i)"
  "stmt_rel R (insert_revoked (new_revoked j e i)) \<Longrightarrow> keeps (table_kept R) (token_add j e i)"
  "stmt_rel R (delete_expired_tokens now) \<Longrightarrow> keeps (table_kept R) (token_purge_expired now)"
  "keeps (table_kept R) (token_exists j now)"
  "keeps (table_kept R) (token_list_active now)"
  unfolding token_stage_add_def token_stage_add_if_absent_def token_add_def token_purge_expired_def
    token_exists_def token_list_active_def Let_def
  by (intro frame_intros | assumption)+

end

subsection \<open>What the operations do\<close>

lemma token_stage_add_Inr:
  "token_stage_add j e i s = (Inr x, t) \<Longrightarrow>
     x = token_to_entity (new_revoked j e i)
   \<and> insert_revoked (new_revoked j e i) (working s) = (Inr (), working t) \<and> pinned_step s t"
  by (auto simp: token_stage_add_def Let_def chain_eq_Inr_iff attempt_eq_Inr_iff db_add_def
      dest!: db_flush_Inr)

lemma token_stage_add_if_absent_Inr:
  "token_stage_add_if_absent j e i s = (Inr x, t) \<Longrightarrow>
     insert_revoked_if_absent (new_revoked j e i) (working s) = (Inr (), working t) \<and> pinned_step s t"
  by (auto simp: token_stage_add_if_absent_def dest!: pinned_execute_Inr)

lemma token_exists_Inr:
  "token_exists j now s = (Inr b, t) \<Longrightarrow>
     b = (active_revocation j now (working s) \<noteq> None) \<and> working t = working s
   \<and> committed t = committed s \<and> force_primary t = force_primary s \<and> pending t = pending s"
  by (auto simp: token_exists_def chain_eq_Inr_iff read_on_primary_only split: if_splits)

lemma active_revocation_iff:
  "active_revocation j now tb \<noteq> None \<longleftrightarrow>
     (\<exists>r \<in> set (revoked_tokens tb). rt_jti r = j \<and> rt_expires_at r > now)"
  by (auto simp: active_revocation_def find_None_iff)

lemma active_revocations_iff:
  "\<lparr>tr_jti = j, tr_expires_at = e\<rparr> \<in> set (active_revocations now tb) \<longleftrightarrow>
     (\<exists>r \<in> set (revoked_tokens tb). rt_jti r = j \<and> rt_expires_at r = e \<and> e > now)"
  by (auto simp: active_revocations_def image_iff)

text \<open>
  \<open>revocations_kept now\<close>: every revocation that matters after \<open>now\<close> is still there. It holds of
  everything the repository does up to that time, purges included.
\<close>

definition revocations_kept :: "time \<Rightarrow> tables \<Rightarrow> tables \<Rightarrow> bool" where
  "revocations_kept now tb tb' \<longleftrightarrow>
     (\<forall>r \<in> set (revoked_tokens tb). rt_expires_at r > now \<longrightarrow> r \<in> set (revoked_tokens tb'))"

interpretation revocations: table_relation "revocations_kept now" for now
  by unfold_locales (auto simp: revocations_kept_def)

lemma revocations_kept_stmts [frame_intros]:
  "stmt_rel (revocations_kept now) (insert_revoked r)"
  "stmt_rel (revocations_kept now) (insert_revoked_if_absent r)"
  by (auto simp: stmt_rel_def revocations_kept_def insert_revoked_if_absent_def insert_revoked_def)

lemma revocations_kept_purge: "t \<le> now \<Longrightarrow> stmt_rel (revocations_kept now) (delete_expired_tokens t)"
  by (auto simp: stmt_rel_def revocations_kept_def delete_expired_tokens_def set_delete_where)

lemma revocations_kept_others [frame_intros]:
  "stmt_rel (revocations_kept now) (insert_user u)"
  "stmt_rel (revocations_kept now) (insert_session s)"
  "stmt_rel (revocations_kept now) (insert_outbox b)"
  "stmt_rel (revocations_kept now) (insert_dead d)"
  by (auto simp: stmt_rel_def revocations_kept_def insert_defs)

end
