(* ===== verification/SessionRepo.thy ===== *)
theory SessionRepo
  imports Database
begin

section \<open>auth/repositories/refresh\_session\_repository.py\<close>

text \<open>
  \<open>RefreshSession\<close> (\<open>auth/entities/refresh_session.py\<close>) and \<open>RefreshSessionRepository\<close>. A login
  opens one row; each refresh claims the row at the generation its cookie carries and moves it
  to the next one in the same statement.
\<close>

record refresh_session =
  rf_id :: uuid
  rf_user_id :: uuid
  rf_generation :: int
  rf_expires_at :: time
  rf_rotated_at :: "time option"
  rf_revoked_at :: "time option"

definition refresh_to_entity :: "refresh_row \<Rightarrow> refresh_session" where
  "refresh_to_entity model =
     \<lparr>rf_id = rs_id model, rf_user_id = rs_user_id model, rf_generation = rs_generation model,
      rf_expires_at = rs_expires_at model, rf_rotated_at = rs_rotated_at model,
      rf_revoked_at = rs_revoked_at model\<rparr>"

definition new_refresh :: "uuid \<Rightarrow> time \<Rightarrow> uuid \<Rightarrow> time \<Rightarrow> refresh_row" where
  "new_refresh uid expires_at new_id created =
     \<lparr>rs_id = new_id, rs_user_id = uid, rs_generation = 0, rs_expires_at = expires_at,
      rs_rotated_at = None, rs_revoked_at = None, rs_created_at = created\<rparr>"

definition session_create :: "uuid \<Rightarrow> time \<Rightarrow> uuid \<Rightarrow> time \<Rightarrow> refresh_session db" where
  "session_create uid expires_at new_id created =
     chain (set_force_primary True) (\<lambda>_.
       (let model = new_refresh uid expires_at new_id created in
        transaction
          (chain db_add (\<lambda>_. chain (db_flush (insert_session model)) (\<lambda>_.
           ret (refresh_to_entity model))))))"

subsection \<open>Rotation\<close>

text \<open>The \<open>WHERE\<close> clause and the values of the claim, and the rows it returns.\<close>

definition claimable :: "uuid \<Rightarrow> uuid \<Rightarrow> int \<Rightarrow> time \<Rightarrow> refresh_row \<Rightarrow> bool" where
  "claimable sid uid generation now r \<longleftrightarrow>
     rs_id r = sid \<and> rs_user_id r = uid \<and> rs_generation r = generation
   \<and> rs_revoked_at r = None \<and> rs_expires_at r > now"

definition claimed :: "time \<Rightarrow> refresh_row \<Rightarrow> refresh_row" where
  "claimed now r = r\<lparr>rs_generation := rs_generation r + 1, rs_rotated_at := Some now\<rparr>"

definition claim_rows ::
  "uuid \<Rightarrow> uuid \<Rightarrow> int \<Rightarrow> time \<Rightarrow> tables \<Rightarrow> (exc + refresh_row list) \<times> tables" where
  "claim_rows sid uid generation now tb =
     (let p = claimable sid uid generation now in
      (Inr (map (claimed now) (filter p (refresh_sessions tb))),
       tb\<lparr>refresh_sessions := update_where p (claimed now) (refresh_sessions tb)\<rparr>))"

text \<open>\<open>one_or_none()\<close>.\<close>

definition one_or_none :: "'a list \<Rightarrow> ('s, exc, 'a option) act" where
  "one_or_none rows =
     (case rows of [] \<Rightarrow> ret None | [x] \<Rightarrow> ret (Some x) | _ \<Rightarrow> raise MultipleResultsFound)"

definition session_rotate :: "uuid \<Rightarrow> uuid \<Rightarrow> int \<Rightarrow> time \<Rightarrow> refresh_session option db" where
  "session_rotate sid uid generation now =
     chain (set_force_primary True) (\<lambda>_.
     transaction
       (chain (db_scalars Update (claim_rows sid uid generation now)) (\<lambda>rows.
        chain (one_or_none rows) (\<lambda>model.
        ret (map_option refresh_to_entity model)))))"

definition session_get :: "uuid \<Rightarrow> refresh_session option db" where
  "session_get sid =
     chain (on_primary_only (db_get (find_session sid))) (\<lambda>model.
     ret (map_option refresh_to_entity model))"

subsection \<open>Revocation\<close>

definition revoke_rows :: "(refresh_row \<Rightarrow> bool) \<Rightarrow> time \<Rightarrow> tables \<Rightarrow> (exc + unit) \<times> tables" where
  "revoke_rows conditions now tb =
     (Inr (), tb\<lparr>refresh_sessions :=
        update_where (\<lambda>r. conditions r \<and> rs_revoked_at r = None) (\<lambda>r. r\<lparr>rs_revoked_at := Some now\<rparr>)
          (refresh_sessions tb)\<rparr>)"

definition revoke_where :: "(refresh_row \<Rightarrow> bool) \<Rightarrow> time \<Rightarrow> unit db" where
  "revoke_where conditions now =
     chain (set_force_primary True) (\<lambda>_. db_execute Update (revoke_rows conditions now))"

definition session_revoke :: "uuid \<Rightarrow> time \<Rightarrow> unit db" where
  "session_revoke sid now = transaction (revoke_where (\<lambda>r. rs_id r = sid) now)"

definition session_stage_revoke :: "uuid \<Rightarrow> uuid \<Rightarrow> time \<Rightarrow> unit db" where
  "session_stage_revoke sid uid now = revoke_where (\<lambda>r. rs_id r = sid \<and> rs_user_id r = uid) now"

definition session_stage_revoke_all_for_user :: "uuid \<Rightarrow> time \<Rightarrow> unit db" where
  "session_stage_revoke_all_for_user uid now = revoke_where (\<lambda>r. rs_user_id r = uid) now"

definition delete_expired_sessions :: "time \<Rightarrow> tables \<Rightarrow> (exc + uuid list) \<times> tables" where
  "delete_expired_sessions now tb =
     (Inr (map rs_id (filter (\<lambda>r. rs_expires_at r \<le> now) (refresh_sessions tb))),
      tb\<lparr>refresh_sessions := delete_where (\<lambda>r. rs_expires_at r \<le> now) (refresh_sessions tb)\<rparr>)"

definition session_purge_expired :: "time \<Rightarrow> nat db" where
  "session_purge_expired now =
     chain (set_force_primary True) (\<lambda>_.
     transaction (chain (db_execute Delete (delete_expired_sessions now)) (\<lambda>result. ret (length result))))"

subsection \<open>Frames\<close>

lemma update_sessions_ok:
  assumes "\<And>r. rs_id (g r) = rs_id r" and "\<And>r. rs_user_id (g r) = rs_user_id r"
    and "tables_ok tb"
  shows "tables_ok (tb\<lparr>refresh_sessions := update_where p g (refresh_sessions tb)\<rparr>)"
  using assms session_table.keys_update_where [of g p "refresh_sessions tb"]
  by (auto simp: tables_ok_def set_update_where)

lemma session_stmts_ok [frame_intros]:
  "stmt_rel ok_step (claim_rows sid uid g now)"
  "stmt_rel ok_step (revoke_rows c now)"
  "stmt_rel ok_step (delete_expired_sessions now)"
  by (rule stmt_okI, simp add: claim_rows_def revoke_rows_def delete_expired_sessions_def Let_def
        update_sessions_ok claimed_def)+
     (auto simp: tables_ok_def delete_where_def distinct_map_filter)

lemma one_or_none_frame [frame_intros]:
  "keeps same_committed (one_or_none rows)" "keeps pin_kept (one_or_none rows)"
  "keeps staged_pinned_kept (one_or_none rows)"
  by (auto simp: one_or_none_def keeps_def split: list.split)

lemma session_frames [frame_intros]:
  "keeps same_committed (revoke_where c now)"
  "keeps pin_kept (revoke_where c now)"
  "keeps staged_pinned_kept (revoke_where c now)"
  "keeps same_committed (session_stage_revoke sid uid now)"
  "keeps pin_kept (session_stage_revoke sid uid now)"
  "keeps staged_pinned_kept (session_stage_revoke sid uid now)"
  "keeps same_committed (session_stage_revoke_all_for_user uid now)"
  "keeps pin_kept (session_stage_revoke_all_for_user uid now)"
  "keeps staged_pinned_kept (session_stage_revoke_all_for_user uid now)"
  "keeps same_committed (session_get sid)"
  "keeps pin_kept (session_get sid)"
  "keeps staged_pinned_kept (session_get sid)"
  "keeps pin_kept (session_rotate sid uid g now)"
  "keeps staged_pinned_kept (session_rotate sid uid g now)"
  "keeps pin_kept (session_create uid e i cr)"
  "keeps staged_pinned_kept (session_create uid e i cr)"
  "keeps pin_kept (session_revoke sid now)"
  "keeps staged_pinned_kept (session_revoke sid now)"
  unfolding session_stage_revoke_def session_stage_revoke_all_for_user_def revoke_where_def
    session_get_def session_rotate_def session_create_def session_revoke_def Let_def
  by (intro frame_intros)+

context table_relation
begin

lemma kept_one_or_none [frame_intros]: "keeps (table_kept R) (one_or_none rows)"
  by (auto simp: one_or_none_def keeps_def table_kept_def split: list.split)

lemma kept_sessions [frame_intros]:
  "stmt_rel R (insert_session (new_refresh uid e i c)) \<Longrightarrow> keeps (table_kept R) (session_create uid e i c)"
  "stmt_rel R (claim_rows sid uid g now) \<Longrightarrow> keeps (table_kept R) (session_rotate sid uid g now)"
  "keeps (table_kept R) (session_get sid)"
  "stmt_rel R (revoke_rows cond now) \<Longrightarrow> keeps (table_kept R) (revoke_where cond now)"
  "(\<And>cond. stmt_rel R (revoke_rows cond now)) \<Longrightarrow> keeps (table_kept R) (session_revoke sid now)"
  "(\<And>cond. stmt_rel R (revoke_rows cond now)) \<Longrightarrow> keeps (table_kept R) (session_stage_revoke sid uid now)"
  "(\<And>cond. stmt_rel R (revoke_rows cond now)) \<Longrightarrow>
     keeps (table_kept R) (session_stage_revoke_all_for_user uid now)"
  "stmt_rel R (delete_expired_sessions now) \<Longrightarrow> keeps (table_kept R) (session_purge_expired now)"
  unfolding session_create_def session_rotate_def session_get_def revoke_where_def session_revoke_def
    session_stage_revoke_def session_stage_revoke_all_for_user_def session_purge_expired_def Let_def
  by (intro frame_intros | assumption)+

end


subsection \<open>What the operations do\<close>

lemma one_or_none_Inr: "one_or_none rows s = (Inr x, t) \<Longrightarrow> t = s \<and> rows = (case x of None \<Rightarrow> [] | Some r \<Rightarrow> [r])"
  by (auto simp: one_or_none_def split: list.splits)

lemma session_rotate_Inr:
  assumes "session_rotate sid uid g now s = (Inr x, t)"
  shows "\<exists>rows. claim_rows sid uid g now (working s) = (Inr rows, committed t)
    \<and> map refresh_to_entity rows = (case x of None \<Rightarrow> [] | Some e \<Rightarrow> [e]) \<and> force_primary t
    \<and> working t = committed t \<and> replica t = replica s"
proof -
  obtain u where body: "chain (db_scalars Update (claim_rows sid uid g now)) (\<lambda>rows.
        chain (one_or_none rows) (\<lambda>model. ret (map_option refresh_to_entity model)))
      (s\<lparr>force_primary := True\<rparr>) = (Inr x, u)"
    and c: "committed t = working u" "working t = working u"
    using assms by (auto simp: session_rotate_def elim: transaction_Inr)
  have t: "force_primary t \<and> replica t = replica s"
    using assms body
    by (auto simp: session_rotate_def transaction_def attempt_eq_Inr_iff chain_eq_Inr_iff commit_def
        rollback_def pinned_step_def split: if_splits dest!: pinned_scalars_Inr one_or_none_Inr)
  from body c t show ?thesis
    by (auto simp: chain_eq_Inr_iff dest!: pinned_scalars_Inr one_or_none_Inr split: option.splits)
qed

lemma session_get_Inr:
  "session_get sid s = (Inr x, t) \<Longrightarrow>
     x = map_option refresh_to_entity (find_session sid (working s)) \<and> working t = working s
   \<and> committed t = committed s \<and> force_primary t = force_primary s \<and> pending t = pending s"
  by (auto simp: session_get_def chain_eq_Inr_iff read_on_primary_only split: if_splits)

lemma revoke_where_Inr:
  "revoke_where c now s = (Inr x, t) \<Longrightarrow>
     revoke_rows c now (working s) = (Inr (), working t) \<and> pinned_step s t"
  by (auto simp: revoke_where_def dest!: pinned_execute_Inr)

subsection \<open>How a session's row moves\<close>

text \<open>
  \<open>session_advances sid\<close>: the row of \<open>sid\<close>, where it is still there, belongs to the same user,
  expires when it did, has not gone back a generation, and if it was revoked it is revoked and
  at the same generation. Everything the program does to the tables is such a step, as long as
  no other login draws the same identifier.
\<close>

definition row_advances :: "refresh_row \<Rightarrow> refresh_row \<Rightarrow> bool" where
  "row_advances r r' \<longleftrightarrow>
     rs_user_id r' = rs_user_id r \<and> rs_expires_at r' = rs_expires_at r
   \<and> rs_generation r \<le> rs_generation r'
   \<and> (rs_revoked_at r \<noteq> None \<longrightarrow>
        rs_revoked_at r' = rs_revoked_at r \<and> rs_generation r' = rs_generation r)"

definition session_advances :: "uuid \<Rightarrow> tables \<Rightarrow> tables \<Rightarrow> bool" where
  "session_advances sid tb tb' \<longleftrightarrow>
     (\<forall>r' \<in> set (refresh_sessions tb'). rs_id r' = sid \<longrightarrow>
        (\<exists>r \<in> set (refresh_sessions tb). rs_id r = sid \<and> row_advances r r'))"

lemma row_advances_refl [simp]: "row_advances r r"
  by (simp add: row_advances_def)

lemma row_advances_trans: "row_advances r r' \<Longrightarrow> row_advances r' r'' \<Longrightarrow> row_advances r r''"
  by (auto simp: row_advances_def)

interpretation advances: table_relation "session_advances sid" for sid
proof
  fix tb tb' tb''
  show "session_advances sid tb tb" by (auto simp: session_advances_def)
  assume "session_advances sid tb tb'" and "session_advances sid tb' tb''"
  then show "session_advances sid tb tb''"
    unfolding session_advances_def by (meson row_advances_trans)
qed

lemma update_sessions_advance:
  assumes "\<And>r. p r \<Longrightarrow> rs_id (g r) = rs_id r \<and> row_advances r (g r)"
  shows "session_advances sid tb (tb\<lparr>refresh_sessions := update_where p g (refresh_sessions tb)\<rparr>)"
  unfolding session_advances_def
proof (intro ballI impI)
  fix r'
  assume "r' \<in> set (refresh_sessions (tb\<lparr>refresh_sessions := update_where p g (refresh_sessions tb)\<rparr>))"
    and id: "rs_id r' = sid"
  then obtain r where r: "r \<in> set (refresh_sessions tb)" "r' = (if p r then g r else r)"
    by (auto simp: set_update_where)
  with id assms show "\<exists>r \<in> set (refresh_sessions tb). rs_id r = sid \<and> row_advances r r'"
    by (intro bexI [of _ r]) auto
qed

lemma session_advances_stmts [frame_intros]:
  "stmt_rel (session_advances sid) (claim_rows i uid g now)"
  "stmt_rel (session_advances sid) (revoke_rows c now)"
  "stmt_rel (session_advances sid) (delete_expired_sessions now)"
  "i \<noteq> sid \<Longrightarrow> stmt_rel (session_advances sid) (insert_session (new_refresh uid e i c0))"
proof -
  show "stmt_rel (session_advances sid) (claim_rows i uid g now)"
    unfolding stmt_rel_def claim_rows_def Let_def
    by (simp, intro allI update_sessions_advance) (simp add: claimable_def claimed_def row_advances_def)
  show "stmt_rel (session_advances sid) (revoke_rows c now)"
    unfolding stmt_rel_def revoke_rows_def
    by (simp, intro allI update_sessions_advance) (simp add: row_advances_def)
qed (auto simp: stmt_rel_def session_advances_def delete_expired_sessions_def set_delete_where
       insert_session_def new_refresh_def)

lemma session_advances_others [frame_intros]:
  "stmt_rel (session_advances sid) (insert_user u)"
  "stmt_rel (session_advances sid) (insert_revoked r)"
  "stmt_rel (session_advances sid) (insert_outbox b)"
  "stmt_rel (session_advances sid) (insert_dead d)"
  by (auto simp: stmt_rel_def session_advances_def insert_defs)

text \<open>
  A session is past generation \<open>g\<close> when no row of it is claimable at \<open>g\<close> any more: the row is
  gone, revoked, or at a later generation.
\<close>

definition session_past :: "uuid \<Rightarrow> int \<Rightarrow> tables \<Rightarrow> bool" where
  "session_past sid g tb \<longleftrightarrow>
     (\<forall>r \<in> set (refresh_sessions tb). rs_id r = sid \<longrightarrow> rs_revoked_at r \<noteq> None \<or> g < rs_generation r)"

lemma session_past_advances:
  "session_past sid g tb \<Longrightarrow> session_advances sid tb tb' \<Longrightarrow> session_past sid g tb'"
  unfolding session_past_def session_advances_def row_advances_def by (metis less_le_trans)

lemma session_past_refuses:
  "session_past sid g tb \<Longrightarrow> claim_rows sid uid g now tb = (Inr [], tb)"
proof -
  assume "session_past sid g tb"
  then have "\<And>r. r \<in> set (refresh_sessions tb) \<Longrightarrow> \<not> claimable sid uid g now r"
    by (auto simp: session_past_def claimable_def)
  then show ?thesis
    by (auto simp: claim_rows_def Let_def filter_empty_conv update_where_none)
qed

text \<open>The claim, read through the row's key.\<close>

lemma claim_rows_find:
  assumes "tables_ok tb"
  shows "fst (claim_rows sid uid g now tb) =
    Inr (case find_session sid tb of None \<Rightarrow> []
         | Some r \<Rightarrow> if claimable sid uid g now r then [claimed now r] else [])"
proof -
  have "filter (claimable sid uid g now) (refresh_sessions tb) =
      filter (\<lambda>r. rs_id r = sid \<and> claimable sid uid g now r) (refresh_sessions tb)"
    by (rule filter_cong) (auto simp: claimable_def)
  also have "\<dots> = (case find_session sid tb of None \<Rightarrow> []
      | Some r \<Rightarrow> if claimable sid uid g now r then [r] else [])"
    using assms by (simp add: session_table.find_filter_key tables_ok_def find_session_def)
  finally show ?thesis by (simp add: claim_rows_def Let_def split: option.split)
qed

lemma claim_spends_generation:
  assumes "tables_ok tb" and "claim_rows sid uid g now tb = (Inr [x], tb')"
  shows "session_past sid g tb'"
proof -
  obtain r where r: "find_session sid tb = Some r" "claimable sid uid g now r"
    using claim_rows_find [OF assms(1), of sid uid g now] assms(2)
    by (auto split: option.splits if_splits)
  have "q = r" if "q \<in> set (refresh_sessions tb)" "rs_id q = sid" for q
    using r(1) that find_session_iff [OF assms(1)] by (metis option.inject)
  note only = this
  have rows: "refresh_sessions tb' = update_where (claimable sid uid g now) (claimed now) (refresh_sessions tb)"
    using assms(2) by (auto simp: claim_rows_def Let_def)
  have "rs_generation r' = g + 1" if r': "r' \<in> set (refresh_sessions tb')" "rs_id r' = sid" for r'
  proof -
    obtain q where q: "q \<in> set (refresh_sessions tb)"
      "r' = (if claimable sid uid g now q then claimed now q else q)"
      using r'(1) unfolding rows set_update_where by blast
    then have "rs_id q = sid" using r'(2) by (auto simp: claimed_def split: if_splits)
    with only q(1) have "q = r" by blast
    with q(2) r(2) show ?thesis by (simp add: claimed_def claimable_def)
  qed
  then show ?thesis by (simp add: session_past_def)
qed

subsection \<open>A generation is claimed once\<close>

text \<open>
  One attempt to rotate \<open>sid\<close> from generation \<open>g\<close>, by whoever holds the cookie, at whatever time
  and on whatever connection, as a step of the durable tables; its outcome is whether a new
  generation was handed out.
\<close>

definition rotation_attempt :: "uuid \<Rightarrow> int \<Rightarrow> tables \<Rightarrow> bool \<Rightarrow> tables \<Rightarrow> bool" where
  "rotation_attempt sid g tb b tb' \<longleftrightarrow>
     (\<exists>s r t uid now. committed s = tb \<and> working s = tb \<and> session_rotate sid uid g now s = (r, t)
        \<and> tb' = committed t \<and> b = (\<exists>x. r = Inr (Some x)))"

definition session_step :: "uuid \<Rightarrow> tables \<Rightarrow> tables \<Rightarrow> bool" where
  "session_step sid tb tb' \<longleftrightarrow> session_advances sid tb tb' \<and> ok_step tb tb'"

lemma rotation_attempt_step:
  assumes "rotation_attempt sid g tb b tb'"
  shows "session_step sid tb tb'"
proof -
  obtain s r t uid now where s: "committed s = tb" "working s = tb"
    and t: "session_rotate sid uid g now s = (r, t)" "tb' = committed t"
    using assms by (auto simp: rotation_attempt_def)
  have "keeps (table_kept (session_advances sid)) (session_rotate sid uid g now)"
    "keeps (table_kept ok_step) (session_rotate sid uid g now)"
    by (intro frame_intros)+
  from advances.kept_durable [OF this(1) t(1)] ok.kept_durable [OF this(2) t(1)] show ?thesis
    by (simp add: session_step_def s t(2) advances.R_refl ok.R_refl)
qed

lemma rotation_attempt_claims:
  assumes "rotation_attempt sid g tb b tb'"
  shows "b \<longrightarrow> (\<exists>uid now x. claim_rows sid uid g now tb = (Inr [x], tb'))"
proof
  assume b
  with assms obtain s x t uid now where s: "working s = tb" "tb' = committed t"
    and t: "session_rotate sid uid g now s = (Inr (Some x), t)"
    by (auto simp: rotation_attempt_def)
  from session_rotate_Inr [OF t] s obtain rows where
    "claim_rows sid uid g now tb = (Inr rows, tb')" "map refresh_to_entity rows = [x]"
    by auto
  then show "\<exists>uid now x. claim_rows sid uid g now tb = (Inr [x], tb')"
    by auto
qed

interpretation rotation: claim_once "rotation_attempt sid g" "session_step sid" tables_ok "session_past sid g"
  for sid g
proof
  show "session_past sid g y" if "tables_ok x" "rotation_attempt sid g x True y" for x y
    using that rotation_attempt_claims claim_spends_generation by blast
  show "\<not> b \<and> session_past sid g y"
    if "tables_ok x" "session_past sid g x" "rotation_attempt sid g x b y" for x b y
  proof
    show "\<not> b" using that rotation_attempt_claims session_past_refuses by fastforce
    show "session_past sid g y"
      using that rotation_attempt_step session_past_advances by (auto simp: session_step_def)
  qed
  show "session_past sid g y" if "tables_ok x" "session_past sid g x" "session_step sid x y" for x y
    using that session_past_advances by (auto simp: session_step_def)
  show "tables_ok y" if "tables_ok x" "rotation_attempt sid g x b y" for x b y
    using that rotation_attempt_step by (auto simp: session_step_def ok_step_def)
  show "tables_ok y" if "tables_ok x" "session_step sid x y" for x y
    using that by (auto simp: session_step_def ok_step_def)
qed

end
