(* ===== verification/AccountRepo.thy ===== *)
theory AccountRepo
  imports UserRepo TokenRepo SessionRepo
begin

section \<open>auth/repositories/account_repository.py\<close>

text \<open>
  \<open>AccountRepository\<close>: the operations that change a user, its tokens, its sessions and the
  outbox together, each in one transaction. \<open>clock\<close> and \<open>ids\<close> arguments are the values of
  \<open>datetime.now()\<close> and \<open>uuid4()\<close> in the order of the calls; \<open>ids k\<close> is the identifier drawn for the
  \<open>k\<close>-th token of a list.
\<close>

definition user_not_found :: "uuid \<Rightarrow> exc" where
  "user_not_found uid = Domain (entity_not_found_error ''User'' (str_uuid uid))"

definition account_verify_email ::
  "(violation \<Rightarrow> string) \<Rightarrow> uuid \<Rightarrow> string \<Rightarrow> time \<Rightarrow> time \<Rightarrow> uuid \<Rightarrow> user db" where
  "account_verify_email ot uid jti expires_at now new_id =
     transaction
       (chain (user_stage_update ot uid [SetIsVerified True] now) (\<lambda>u.
        case u of None \<Rightarrow> raise (user_not_found uid)
        | Some usr \<Rightarrow> chain (token_stage_add jti expires_at new_id) (\<lambda>_. ret usr)))"

definition account_reset_password ::
  "(violation \<Rightarrow> string) \<Rightarrow> uuid \<Rightarrow> string \<Rightarrow> string \<Rightarrow> time \<Rightarrow> time \<Rightarrow> uuid \<Rightarrow> time \<Rightarrow> user db" where
  "account_reset_password ot uid password_hash jti expires_at now new_id now2 =
     transaction
       (chain (user_stage_update ot uid [SetPasswordHash password_hash] now) (\<lambda>u.
        case u of None \<Rightarrow> raise (user_not_found uid)
        | Some usr \<Rightarrow>
            chain (token_stage_add jti expires_at new_id) (\<lambda>_.
            chain (session_stage_revoke_all_for_user uid now2) (\<lambda>_. ret usr))))"

definition account_start_email_verification ::
  "(violation \<Rightarrow> string) \<Rightarrow> uuid \<Rightarrow> string \<Rightarrow> (string \<times> json) list \<Rightarrow> time \<Rightarrow> uuid \<Rightarrow> time \<Rightarrow> unit db" where
  "account_start_email_verification ot uid jti email_payload now event_id created =
     transaction
       (chain (user_stage_update ot uid [SetPendingVerificationJti jti] now) (\<lambda>u.
        case u of None \<Rightarrow> raise (user_not_found uid)
        | Some _ \<Rightarrow> chain (outbox_stage_add ''send_email_task'' email_payload event_id created)
                       (\<lambda>_. ret ())))"

definition account_start_password_reset ::
  "(violation \<Rightarrow> string) \<Rightarrow> uuid \<Rightarrow> string \<Rightarrow> (string \<times> json) list \<Rightarrow> time \<Rightarrow> uuid \<Rightarrow> time \<Rightarrow> unit db" where
  "account_start_password_reset ot uid jti email_payload now event_id created =
     transaction
       (chain (user_stage_update ot uid [SetPendingPasswordResetJti jti] now) (\<lambda>u.
        case u of None \<Rightarrow> raise (user_not_found uid)
        | Some _ \<Rightarrow> chain (outbox_stage_add ''send_email_task'' email_payload event_id created)
                       (\<lambda>_. ret ())))"

definition stage_tokens :: "token_ref list \<Rightarrow> (nat \<Rightarrow> uuid) \<Rightarrow> unit db" where
  "stage_tokens tokens ids =
     each (\<lambda>(k, token). token_stage_add_if_absent (tr_jti token) (tr_expires_at token) (ids k))
          (enumerate 0 tokens)"

definition account_logout ::
  "uuid \<Rightarrow> token_ref list \<Rightarrow> uuid option \<Rightarrow> (nat \<Rightarrow> uuid) \<Rightarrow> time \<Rightarrow> unit db" where
  "account_logout uid tokens refresh_session_id ids now =
     transaction
       (chain (stage_tokens tokens ids) (\<lambda>_.
        case refresh_session_id of None \<Rightarrow> ret ()
        | Some sid \<Rightarrow> session_stage_revoke sid uid now))"

definition account_close ::
  "(violation \<Rightarrow> string) \<Rightarrow> uuid \<Rightarrow> token_ref list \<Rightarrow> time \<Rightarrow> (nat \<Rightarrow> uuid) \<Rightarrow> time \<Rightarrow> user option db" where
  "account_close ot uid tokens now ids now2 =
     transaction
       (chain (user_stage_deactivate ot uid now) (\<lambda>u.
        case u of None \<Rightarrow> ret None
        | Some usr \<Rightarrow>
            chain (stage_tokens tokens ids) (\<lambda>_.
            chain (session_stage_revoke_all_for_user uid now2) (\<lambda>_. ret (Some usr)))))"

subsection \<open>Frames\<close>

lemma stage_tokens_frames [frame_intros]:
  "keeps same_committed (stage_tokens toks ids)"
  "keeps pin_kept (stage_tokens toks ids)"
  "keeps staged_pinned_kept (stage_tokens toks ids)"
  unfolding stage_tokens_def by (intro frame_intros, simp add: frame_intros split: prod.split)+

lemma account_frames [frame_intros]:
  "keeps pin_kept (account_verify_email ot uid j e n i)"
  "keeps pin_kept (account_reset_password ot uid h j e n i n2)"
  "keeps pin_kept (account_start_email_verification ot uid j p n i c)"
  "keeps pin_kept (account_start_password_reset ot uid j p n i c)"
  "keeps pin_kept (account_logout uid toks sid ids n)"
  "keeps pin_kept (account_close ot uid toks n ids n2)"
  "keeps staged_pinned_kept (account_verify_email ot uid j e n i)"
  "keeps staged_pinned_kept (account_reset_password ot uid h j e n i n2)"
  "keeps staged_pinned_kept (account_start_email_verification ot uid j p n i c)"
  "keeps staged_pinned_kept (account_start_password_reset ot uid j p n i c)"
  "keeps staged_pinned_kept (account_logout uid toks sid ids n)"
  "keeps staged_pinned_kept (account_close ot uid toks n ids n2)"
  unfolding account_verify_email_def account_reset_password_def account_start_email_verification_def
    account_start_password_reset_def account_logout_def account_close_def
  by (intro frame_intros)+

context table_relation
begin

lemma kept_stage_tokens [frame_intros]:
  "(\<And>j e i. stmt_rel R (insert_revoked_if_absent (new_revoked j e i))) \<Longrightarrow>
     keeps (table_kept R) (stage_tokens toks ids)"
  unfolding stage_tokens_def by (intro frame_intros) (auto split: prod.split intro!: frame_intros)

lemma kept_stage_issued:
  assumes "\<And>tok i. tok \<in> set toks \<Longrightarrow>
      stmt_rel R (insert_revoked_if_absent (new_revoked (tr_jti tok) (tr_expires_at tok) i))"
  shows "keeps (table_kept R) (stage_tokens toks ids)"
  unfolding stage_tokens_def
  by (rule frame_relation.keeps_each_mem [OF session_frame.axioms(1) [OF session_frame_kept]])
     (auto simp: in_set_enumerate_eq intro!: kept_tokens assms)

lemma kept_account [frame_intros]:
  assumes "\<And>j ch t. stmt_rel R (flush_user_update j ch t)"
    and "\<And>b. stmt_rel R (insert_outbox b)"
    and "\<And>j e i. stmt_rel R (insert_revoked (new_revoked j e i))"
    and "\<And>j e i. stmt_rel R (insert_revoked_if_absent (new_revoked j e i))"
    and "\<And>cond t. stmt_rel R (revoke_rows cond t)"
  shows "keeps (table_kept R) (account_verify_email ot uid j e n i)"
    and "keeps (table_kept R) (account_reset_password ot uid h j e n i n2)"
    and "keeps (table_kept R) (account_start_email_verification ot uid j p n i c)"
    and "keeps (table_kept R) (account_start_password_reset ot uid j p n i c)"
    and "keeps (table_kept R) (account_logout uid toks sid ids n)"
    and "keeps (table_kept R) (account_close ot uid toks n ids n2)"
  unfolding account_verify_email_def account_reset_password_def account_start_email_verification_def
    account_start_password_reset_def account_logout_def account_close_def
  by (intro frame_intros assms)+

end

subsection \<open>What the operations do\<close>

lemma insert_revoked_if_absent_Inr:
  "insert_revoked_if_absent r tb = (Inr u, tb') \<Longrightarrow>
     rt_jti r \<in> rt_jti ` set (revoked_tokens tb')
   \<and> set (revoked_tokens tb) \<subseteq> set (revoked_tokens tb')
   \<and> only_tokens tb tb'"
  by (auto simp: insert_revoked_if_absent_def insert_Inr only_tokens_def split: if_splits)

definition adds_revocations :: "token_ref list \<Rightarrow> tables \<Rightarrow> tables \<Rightarrow> bool" where
  "adds_revocations toks tb tb' \<longleftrightarrow>
     (\<forall>tok \<in> set toks. tr_jti tok \<in> rt_jti ` set (revoked_tokens tb'))
   \<and> set (revoked_tokens tb) \<subseteq> set (revoked_tokens tb')
   \<and> only_tokens tb tb'"

lemma adds_revocations_one:
  "token_stage_add_if_absent (tr_jti tok) (tr_expires_at tok) i s = (Inr u, t) \<Longrightarrow>
     adds_revocations [tok] (working s) (working t) \<and> pinned_step s t"
  by (auto simp: adds_revocations_def new_revoked_def
      dest!: token_stage_add_if_absent_Inr insert_revoked_if_absent_Inr)

lemma adds_revocations_append:
  "adds_revocations ts tb tb' \<Longrightarrow> adds_revocations us tb' tb'' \<Longrightarrow> adds_revocations (ts @ us) tb tb''"
  unfolding adds_revocations_def only_tokens_def by (auto 4 4)

lemma each_tokens_Inr:
  "each (\<lambda>(k, token). token_stage_add_if_absent (tr_jti token) (tr_expires_at token) (ids k))
     (enumerate n toks) s = (Inr u, t) \<Longrightarrow>
     adds_revocations toks (working s) (working t)
   \<and> committed t = committed s \<and> replica t = replica s \<and> (force_primary s \<longrightarrow> force_primary t)"
proof (induction toks arbitrary: n s)
  case Nil
  then show ?case by (simp add: adds_revocations_def only_tokens_def)
next
  case (Cons tok toks)
  then obtain s1 where one: "token_stage_add_if_absent (tr_jti tok) (tr_expires_at tok) (ids n) s = (Inr (), s1)"
    and rest: "each (\<lambda>(k, token). token_stage_add_if_absent (tr_jti token) (tr_expires_at token) (ids k))
       (enumerate (Suc n) toks) s1 = (Inr u, t)"
    by (auto simp: chain_eq_Inr_iff)
  from adds_revocations_one [OF one] Cons.IH [OF rest] show ?case
    using adds_revocations_append [of "[tok]" "working s" "working s1" toks "working t"]
    by (simp add: pinned_step_def)
qed

lemma stage_tokens_Inr:
  "stage_tokens toks ids s = (Inr u, t) \<Longrightarrow>
     adds_revocations toks (working s) (working t)
   \<and> committed t = committed s \<and> replica t = replica s \<and> (force_primary s \<longrightarrow> force_primary t)"
  unfolding stage_tokens_def by (rule each_tokens_Inr)

text \<open>After a revocation every row it selects is revoked and no other table changed.\<close>

lemma revoke_rows_done:
  assumes "revoke_rows c now tb = (Inr u, tb')"
    and c: "\<And>r v. c (r\<lparr>rs_revoked_at := v\<rparr>) = c r"
  shows "(\<forall>r \<in> set (refresh_sessions tb'). c r \<longrightarrow> rs_revoked_at r \<noteq> None) \<and> only_sessions tb tb'"
proof -
  let ?p = "\<lambda>r. c r \<and> rs_revoked_at r = None" and ?g = "\<lambda>r. r\<lparr>rs_revoked_at := Some now\<rparr>"
  have tb': "tb' = tb\<lparr>refresh_sessions := update_where ?p ?g (refresh_sessions tb)\<rparr>"
    using assms(1) by (simp add: revoke_rows_def)
  have "rs_revoked_at r \<noteq> None" if r: "r \<in> set (refresh_sessions tb')" "c r" for r
  proof -
    from r(1) obtain q where "r = (if ?p q then ?g q else q)"
      unfolding tb' by (auto elim: update_where_memE)
    with r(2) c show ?thesis by (cases "?p q") auto
  qed
  then show ?thesis by (simp add: tb' only_sessions_def)
qed

lemma stage_revoke_all_Inr:
  assumes "session_stage_revoke_all_for_user uid now s = (Inr u, t)"
  shows "(\<forall>r \<in> set (refresh_sessions (working t)). rs_user_id r = uid \<longrightarrow> rs_revoked_at r \<noteq> None)
    \<and> only_sessions (working s) (working t) \<and> pinned_step s t"
proof -
  have w: "revoke_where (\<lambda>r. rs_user_id r = uid) now s = (Inr u, t)"
    using assms by (simp add: session_stage_revoke_all_for_user_def)
  note p = revoke_where_Inr [OF w]
  show ?thesis
    using revoke_rows_done [OF conjunct1 [OF p]] p by simp
qed

lemma stage_revoke_Inr:
  assumes "session_stage_revoke sid uid now s = (Inr u, t)"
  shows "(\<forall>r \<in> set (refresh_sessions (working t)). rs_id r = sid \<and> rs_user_id r = uid \<longrightarrow> rs_revoked_at r \<noteq> None)
    \<and> only_sessions (working s) (working t) \<and> pinned_step s t"
proof -
  have w: "revoke_where (\<lambda>r. rs_id r = sid \<and> rs_user_id r = uid) now s = (Inr u, t)"
    using assms by (simp add: session_stage_revoke_def)
  note p = revoke_where_Inr [OF w]
  show ?thesis
    using revoke_rows_done [OF conjunct1 [OF p]] p by simp
qed

lemma stage_update_found:
  assumes "user_stage_update ot uid chs now s = (Inr (Some x), t)"
  shows "\<exists>r r'. find_user uid (working s) = Some r \<and> find_user uid (working t) = Some r'
     \<and> x = user_to_entity r'
     \<and> (\<exists>ts. r' = (set_fields chs r)\<lparr>u_updated_at := ts\<rparr>)
     \<and> (\<forall>j. j \<noteq> uid \<longrightarrow> find_user j (working t) = find_user j (working s))
     \<and> only_users (working s) (working t) \<and> pinned_step s t"
proof -
  obtain r' where f: "flush_user_update uid chs now (working s) = (Inr r', working t)"
    and x: "x = user_to_entity r'" and p: "pinned_step s t"
    using user_stage_update_Inr [OF assms] by auto
  obtain r where r: "find_user uid (working s) = Some r"
    "r' = (if set_fields chs r = r then r else (set_fields chs r)\<lparr>u_updated_at := now\<rparr>)"
    using f by (auto simp: flush_user_update_def Let_def split: option.splits if_splits)
  have "\<exists>ts. r' = (set_fields chs r)\<lparr>u_updated_at := ts\<rparr>"
  proof (cases "set_fields chs r = r")
    case True
    with r(2) have "r' = (set_fields chs r)\<lparr>u_updated_at := u_updated_at r\<rparr>" by simp
    then show ?thesis by (rule exI)
  next
    case False
    with r(2) show ?thesis by auto
  qed
  then show ?thesis
    using find_user_flush_update [OF f] x p r(1) by (intro exI [of _ r] exI [of _ r']) auto
qed

subsection \<open>Properties\<close>

lemma reset_password_commits:
  assumes "account_reset_password ot uid h jti e now i now2 s = (Inr x, t)"
  shows "(\<exists>r. find_user uid (committed t) = Some r \<and> x = user_to_entity r \<and> u_password_hash r = h)
     \<and> (\<forall>j. j \<noteq> uid \<longrightarrow> find_user j (committed t) = find_user j (working s))
     \<and> jti \<notin> rt_jti ` set (revoked_tokens (working s))
     \<and> revoked_tokens (committed t) = revoked_tokens (working s) @ [new_revoked jti e i]
     \<and> (\<forall>r \<in> set (refresh_sessions (committed t)). rs_user_id r = uid \<longrightarrow> rs_revoked_at r \<noteq> None)"
proof -
  from assms obtain v where c: "committed t = working v"
    and v: "chain (user_stage_update ot uid [SetPasswordHash h] now) (\<lambda>u.
        case u of None \<Rightarrow> raise (user_not_found uid)
        | Some usr \<Rightarrow>
            chain (token_stage_add jti e i) (\<lambda>_.
            chain (session_stage_revoke_all_for_user uid now2) (\<lambda>_. ret usr))) s = (Inr x, v)"
    unfolding account_reset_password_def by (rule transaction_Inr)
  from v obtain s1 tk s2 where
    up: "user_stage_update ot uid [SetPasswordHash h] now s = (Inr (Some x), s1)" and
    tok: "token_stage_add jti e i s1 = (Inr tk, s2)" and
    rev: "session_stage_revoke_all_for_user uid now2 s2 = (Inr (), v)"
    by (auto simp: chain_eq_Inr_iff split: option.splits)
  note U = stage_update_found [OF up]
  have T: "insert_revoked (new_revoked jti e i) (working s1) = (Inr (), working s2)"
    using token_stage_add_Inr [OF tok] by simp
  note V = stage_revoke_all_Inr [OF rev]
  have w: "users (working v) = users (working s1)"
    "revoked_tokens (working v) = revoked_tokens (working s2)"
    "revoked_tokens (working s1) = revoked_tokens (working s)"
    using U T V by (auto simp: insert_Inr only_defs)
  have "find_user j (working v) = find_user j (working s1)" for j
    by (simp add: find_user_def w)
  with U T V w c show ?thesis
    by (auto simp: insert_Inr set_fields_def set_field_def new_revoked_def)
qed

lemma verify_email_commits:
  assumes "account_verify_email ot uid jti e now i s = (Inr x, t)"
  shows "(\<exists>r. find_user uid (committed t) = Some r \<and> x = user_to_entity r \<and> u_is_verified r)
     \<and> (\<forall>j. j \<noteq> uid \<longrightarrow> find_user j (committed t) = find_user j (working s))
     \<and> jti \<notin> rt_jti ` set (revoked_tokens (working s))
     \<and> revoked_tokens (committed t) = revoked_tokens (working s) @ [new_revoked jti e i]
     \<and> refresh_sessions (committed t) = refresh_sessions (working s)"
proof -
  from assms obtain v where c: "committed t = working v"
    and v: "chain (user_stage_update ot uid [SetIsVerified True] now) (\<lambda>u.
        case u of None \<Rightarrow> raise (user_not_found uid)
        | Some usr \<Rightarrow> chain (token_stage_add jti e i) (\<lambda>_. ret usr)) s = (Inr x, v)"
    unfolding account_verify_email_def by (rule transaction_Inr)
  from v obtain s1 tk where up: "user_stage_update ot uid [SetIsVerified True] now s = (Inr (Some x), s1)"
    and tok: "token_stage_add jti e i s1 = (Inr tk, v)"
    by (auto simp: chain_eq_Inr_iff split: option.splits)
  note U = stage_update_found [OF up]
  have T: "insert_revoked (new_revoked jti e i) (working s1) = (Inr (), working v)"
    using token_stage_add_Inr [OF tok] by simp
  have w: "users (working v) = users (working s1)"
    "refresh_sessions (working v) = refresh_sessions (working s)"
    "revoked_tokens (working s1) = revoked_tokens (working s)"
    using U T by (auto simp: insert_Inr only_defs)
  have "find_user j (working v) = find_user j (working s1)" for j
    by (simp add: find_user_def w)
  with U T w c show ?thesis
    by (auto simp: insert_Inr set_fields_def set_field_def new_revoked_def)
qed

lemma account_writes_atomic:
  "account_reset_password ot uid h jti e now i now2 s = (Inl err, t) \<Longrightarrow>
     committed t = committed s \<and> working t = committed s"
  "account_verify_email ot uid jti e now i s = (Inl err, t) \<Longrightarrow>
     committed t = committed s \<and> working t = committed s"
  unfolding account_reset_password_def account_verify_email_def
  by (erule transaction_Inl, (intro frame_intros)+)+

text \<open>
  A password reset is one unit. When it returns, the new hash is stored for exactly that
  user, the reset token is spent and not one refresh session of the user is left unrevoked;
  when it raises, at whatever statement, the durable tables are as they were.
\<close>

theorem reset_password_one_unit:
  "case account_reset_password ot uid h jti e now i now2 s of
     (Inr x, t) \<Rightarrow>
       (\<exists>r. find_user uid (committed t) = Some r \<and> x = user_to_entity r \<and> u_password_hash r = h)
     \<and> (\<forall>j. j \<noteq> uid \<longrightarrow> find_user j (committed t) = find_user j (working s))
     \<and> jti \<notin> rt_jti ` set (revoked_tokens (working s))
     \<and> revoked_tokens (committed t) = revoked_tokens (working s) @ [new_revoked jti e i]
     \<and> (\<forall>r \<in> set (refresh_sessions (committed t)). rs_user_id r = uid \<longrightarrow> rs_revoked_at r \<noteq> None)
   | (Inl err, t) \<Rightarrow> committed t = committed s \<and> working t = committed s"
  using reset_password_commits account_writes_atomic(1)
  by (simp split: prod.split sum.split)

text \<open>
  Verifying an address is one unit: the user is verified and the token is spent, or neither.
\<close>

theorem verify_email_one_unit:
  "case account_verify_email ot uid jti e now i s of
     (Inr x, t) \<Rightarrow>
       (\<exists>r. find_user uid (committed t) = Some r \<and> x = user_to_entity r \<and> u_is_verified r)
     \<and> (\<forall>j. j \<noteq> uid \<longrightarrow> find_user j (committed t) = find_user j (working s))
     \<and> jti \<notin> rt_jti ` set (revoked_tokens (working s))
     \<and> revoked_tokens (committed t) = revoked_tokens (working s) @ [new_revoked jti e i]
     \<and> refresh_sessions (committed t) = refresh_sessions (working s)
   | (Inl err, t) \<Rightarrow> committed t = committed s \<and> working t = committed s"
  using verify_email_commits account_writes_atomic(2)
  by (simp split: prod.split sum.split)

lemma close_effect:
  "case account_close ot uid toks now ids now2 s of
     (Inr (Some x), t) \<Rightarrow>
       (\<exists>r. find_user uid (committed t) = Some r \<and> x = user_to_entity r \<and> \<not> u_is_active r)
     \<and> (\<forall>j. j \<noteq> uid \<longrightarrow> find_user j (committed t) = find_user j (working s))
     \<and> (\<forall>tok \<in> set toks. tr_jti tok \<in> rt_jti ` set (revoked_tokens (committed t)))
     \<and> set (revoked_tokens (working s)) \<subseteq> set (revoked_tokens (committed t))
     \<and> (\<forall>r \<in> set (refresh_sessions (committed t)). rs_user_id r = uid \<longrightarrow> rs_revoked_at r \<noteq> None)
   | (Inr None, t) \<Rightarrow> find_user uid (working s) = None \<and> committed t = working s
   | (Inl err, t) \<Rightarrow> committed t = committed s \<and> working t = committed s"
proof -
  let ?body = "chain (user_stage_deactivate ot uid now) (\<lambda>u.
        case u of None \<Rightarrow> ret None
        | Some usr \<Rightarrow>
            chain (stage_tokens toks ids) (\<lambda>_.
            chain (session_stage_revoke_all_for_user uid now2) (\<lambda>_. ret (Some usr))))"
  obtain r t where op: "transaction ?body s = (r, t)" by force
  show ?thesis
  proof (cases r)
    case (Inl err)
    have "keeps same_committed ?body" by (intro frame_intros)+
    with op Inl show ?thesis by (auto simp: account_close_def dest: transaction_Inl)
  next
    case (Inr y)
    with op obtain v where v: "?body s = (Inr y, v)" and c: "committed t = working v"
      by (auto elim: transaction_Inr)
    show ?thesis
    proof (cases y)
      case None
      with v have "user_stage_deactivate ot uid now s = (Inr None, v)"
        by (auto simp: chain_eq_Inr_iff split: option.splits)
      with op Inr None c show ?thesis
        by (auto simp: account_close_def user_stage_deactivate_def dest!: user_stage_update_Inr)
    next
      case (Some x)
      with v obtain s1 s2 where
        up: "user_stage_update ot uid [SetIsActive False] now s = (Inr (Some x), s1)" and
        tok: "stage_tokens toks ids s1 = (Inr (), s2)" and
        rev: "session_stage_revoke_all_for_user uid now2 s2 = (Inr (), v)"
        by (auto simp: chain_eq_Inr_iff user_stage_deactivate_def split: option.splits)
      note U = stage_update_found [OF up]
      have T: "adds_revocations toks (working s1) (working s2)"
        using stage_tokens_Inr [OF tok] by simp
      note V = stage_revoke_all_Inr [OF rev]
      have w: "users (working v) = users (working s1)"
        "revoked_tokens (working v) = revoked_tokens (working s2)"
        "revoked_tokens (working s1) = revoked_tokens (working s)"
        using U T V by (auto simp: adds_revocations_def only_defs)
      have "find_user j (working v) = find_user j (working s1)" for j
        by (simp add: find_user_def w)
      with U T V w op Inr Some c show ?thesis
        by (auto simp: account_close_def adds_revocations_def set_fields_def set_field_def)
    qed
  qed
qed

text \<open>
  Closing an account ends every way in: when it returns the user, that user is inactive,
  every token of the request is revoked and no refresh session of the user is live; an
  unknown user changes nothing, and neither does a failure.
\<close>

theorem close_account_one_unit:
  "case account_close ot uid toks now ids now2 s of
     (Inr (Some x), t) \<Rightarrow>
       (\<exists>r. find_user uid (committed t) = Some r \<and> x = user_to_entity r \<and> \<not> u_is_active r)
     \<and> (\<forall>j. j \<noteq> uid \<longrightarrow> find_user j (committed t) = find_user j (working s))
     \<and> (\<forall>tok \<in> set toks. tr_jti tok \<in> rt_jti ` set (revoked_tokens (committed t)))
     \<and> set (revoked_tokens (working s)) \<subseteq> set (revoked_tokens (committed t))
     \<and> (\<forall>r \<in> set (refresh_sessions (committed t)). rs_user_id r = uid \<longrightarrow> rs_revoked_at r \<noteq> None)
   | (Inr None, t) \<Rightarrow> find_user uid (working s) = None \<and> committed t = working s
   | (Inl err, t) \<Rightarrow> committed t = committed s \<and> working t = committed s"
  by (rule close_effect)

lemma logout_effect:
  "case account_logout uid toks sid ids now s of
     (Inr _, t) \<Rightarrow>
       (\<forall>tok \<in> set toks. tr_jti tok \<in> rt_jti ` set (revoked_tokens (committed t)))
     \<and> set (revoked_tokens (working s)) \<subseteq> set (revoked_tokens (committed t))
     \<and> (\<forall>r \<in> set (refresh_sessions (committed t)).
          Some (rs_id r) = sid \<and> rs_user_id r = uid \<longrightarrow> rs_revoked_at r \<noteq> None)
     \<and> users (committed t) = users (working s)
   | (Inl err, t) \<Rightarrow> committed t = committed s \<and> working t = committed s"
proof -
  let ?body = "chain (stage_tokens toks ids) (\<lambda>_.
        case sid of None \<Rightarrow> ret () | Some i \<Rightarrow> session_stage_revoke i uid now)"
  obtain r t where op: "transaction ?body s = (r, t)" by force
  show ?thesis
  proof (cases r)
    case (Inl err)
    have "keeps same_committed ?body" by (intro frame_intros)+
    with op Inl show ?thesis by (auto simp: account_logout_def dest: transaction_Inl)
  next
    case (Inr y)
    with op obtain v where v: "?body s = (Inr y, v)" and c: "committed t = working v"
      by (auto elim: transaction_Inr)
    from v obtain s1 where tok: "stage_tokens toks ids s = (Inr (), s1)"
      and rev: "(case sid of None \<Rightarrow> ret () | Some i \<Rightarrow> session_stage_revoke i uid now) s1 = (Inr y, v)"
      by (auto simp: chain_eq_Inr_iff)
    have T: "adds_revocations toks (working s) (working s1)" using stage_tokens_Inr [OF tok] by simp
    show ?thesis
    proof (cases sid)
      case None
      with rev T op Inr c show ?thesis
        by (auto simp: account_logout_def adds_revocations_def only_tokens_def)
    next
      case (Some i)
      with rev have "session_stage_revoke i uid now s1 = (Inr y, v)" by simp
      from stage_revoke_Inr [OF this] T op Inr c Some show ?thesis
        by (auto simp: account_logout_def adds_revocations_def only_defs)
    qed
  qed
qed

text \<open>
  Logging out is one unit: every token of the request is revoked and the cookie's refresh
  session, if it is the user's own, is no longer live, and no other table changes; a failure
  changes nothing.
\<close>

theorem logout_one_unit:
  "case account_logout uid toks sid ids now s of
     (Inr _, t) \<Rightarrow>
       (\<forall>tok \<in> set toks. tr_jti tok \<in> rt_jti ` set (revoked_tokens (committed t)))
     \<and> set (revoked_tokens (working s)) \<subseteq> set (revoked_tokens (committed t))
     \<and> (\<forall>r \<in> set (refresh_sessions (committed t)).
          Some (rs_id r) = sid \<and> rs_user_id r = uid \<longrightarrow> rs_revoked_at r \<noteq> None)
     \<and> users (committed t) = users (working s)
   | (Inl err, t) \<Rightarrow> committed t = committed s \<and> working t = committed s"
  by (rule logout_effect)

end
