(* ===== verification/Redis.thy ===== *)
theory Redis
  imports Tables
begin

section \<open>core/redis.py: the commands the program sends\<close>

text \<open>
  The shared Redis client, as the store behind it and the commands the program uses: strings and
  sets under keys that may expire. Every command carries the server's clock; a key is dead from
  its expiry on. \<open>answers\<close> injects faults: \<open>Some n\<close> is a connection that executes \<open>n\<close> more commands
  and then raises \<open>RedisError\<close>. A pipeline without a transaction runs its commands one by one
  (a fault leaves a prefix of them applied), one with a transaction applies all or none.
\<close>

datatype redis_value = RStr string | RSet "string set"

record redis =
  kv :: "string \<Rightarrow> (redis_value \<times> time option) option"
  answers :: "nat option"

type_synonym 'a rd = "(redis, exc, 'a) act"

definition empty_redis :: redis where
  "empty_redis = \<lparr>kv = (\<lambda>_. None), answers = None\<rparr>"

definition live_entry :: "redis \<Rightarrow> time \<Rightarrow> string \<Rightarrow> redis_value option" where
  "live_entry r now k =
     (case kv r k of None \<Rightarrow> None
      | Some (v, e) \<Rightarrow> (case e of None \<Rightarrow> Some v | Some t \<Rightarrow> if now < t then Some v else None))"

definition put_entry :: "string \<Rightarrow> redis_value \<Rightarrow> time option \<Rightarrow> redis \<Rightarrow> redis" where
  "put_entry k v e r = r\<lparr>kv := (kv r)(k := Some (v, e))\<rparr>"

definition command :: "(redis \<Rightarrow> 'a \<times> redis) \<Rightarrow> 'a rd" where
  "command f =
     (\<lambda>r. if answers r = Some 0 then (Inl RedisError, r)
          else (case f (r\<lparr>answers := map_option (\<lambda>n. n - 1) (answers r)\<rparr>) of (x, r') \<Rightarrow> (Inr x, r')))"

definition redis_get :: "time \<Rightarrow> string \<Rightarrow> string option rd" where
  "redis_get now k =
     command (\<lambda>r. (case live_entry r now k of Some (RStr v) \<Rightarrow> Some v | _ \<Rightarrow> None, r))"

definition redis_mget :: "time \<Rightarrow> string list \<Rightarrow> string option list rd" where
  "redis_mget now ks =
     command (\<lambda>r. (map (\<lambda>k. case live_entry r now k of Some (RStr v) \<Rightarrow> Some v | _ \<Rightarrow> None) ks, r))"

text \<open>\<open>SET\<close> with its optional relative expiry; \<open>px\<close> and \<open>ex\<close> are both given in microseconds here.\<close>

definition set_string :: "time \<Rightarrow> string \<Rightarrow> string \<Rightarrow> time option \<Rightarrow> redis \<Rightarrow> redis" where
  "set_string now k v ttl r = put_entry k (RStr v) (map_option (\<lambda>d. now + d) ttl) r"

definition redis_set :: "time \<Rightarrow> string \<Rightarrow> string \<Rightarrow> time option \<Rightarrow> unit rd" where
  "redis_set now k v ttl = command (\<lambda>r. ((), set_string now k v ttl r))"

definition redis_set_nx :: "time \<Rightarrow> string \<Rightarrow> string \<Rightarrow> time option \<Rightarrow> bool rd" where
  "redis_set_nx now k v ttl =
     command (\<lambda>r. if live_entry r now k = None then (True, set_string now k v ttl r) else (False, r))"

definition redis_ping :: "bool rd" where
  "redis_ping = command (\<lambda>r. (True, r))"

definition redis_smembers :: "time \<Rightarrow> string \<Rightarrow> string set rd" where
  "redis_smembers now k =
     command (\<lambda>r. (case live_entry r now k of Some (RSet m) \<Rightarrow> m | _ \<Rightarrow> {}, r))"

definition sadd_member :: "time \<Rightarrow> string \<Rightarrow> string \<Rightarrow> redis \<Rightarrow> redis" where
  "sadd_member now k m r =
     (case live_entry r now k of
        Some (RSet ms) \<Rightarrow> put_entry k (RSet (insert m ms)) (snd (the (kv r k))) r
      | _ \<Rightarrow> put_entry k (RSet {m}) None r)"

definition expire_key :: "time \<Rightarrow> string \<Rightarrow> time \<Rightarrow> redis \<Rightarrow> redis" where
  "expire_key now k ttl r =
     (case live_entry r now k of None \<Rightarrow> r | Some v \<Rightarrow> put_entry k v (Some (now + ttl)) r)"

definition delete_keys :: "string set \<Rightarrow> redis \<Rightarrow> redis" where
  "delete_keys ks r = r\<lparr>kv := (\<lambda>k. if k \<in> ks then None else kv r k)\<rparr>"

text \<open>The two kinds of pipeline.\<close>

definition pipeline :: "(redis \<Rightarrow> redis) list \<Rightarrow> unit rd" where
  "pipeline cmds = each (\<lambda>c. command (\<lambda>r. ((), c r))) cmds"

definition transaction_pipeline :: "(redis \<Rightarrow> redis) list \<Rightarrow> unit rd" where
  "transaction_pipeline cmds = command (\<lambda>r. ((), fold (\<lambda>c. c) cmds r))"

lemmas redis_cmd_defs = redis_get_def redis_mget_def redis_set_def redis_set_nx_def redis_ping_def
  redis_smembers_def

subsection \<open>Facts about entries\<close>

lemma live_entry_put:
  "live_entry (put_entry k v e r) now j =
     (if j = k then (case e of None \<Rightarrow> Some v | Some t \<Rightarrow> if now < t then Some v else None)
      else live_entry r now j)"
  by (simp add: live_entry_def put_entry_def)

lemma live_entry_answers [simp]: "live_entry (r\<lparr>answers := a\<rparr>) now k = live_entry r now k"
  by (simp add: live_entry_def)

lemma live_entry_delete: "live_entry (delete_keys ks r) now k = (if k \<in> ks then None else live_entry r now k)"
  by (simp add: live_entry_def delete_keys_def)

lemma answers_put [simp]: "answers (put_entry k v e r) = answers r"
  by (simp add: put_entry_def)

lemma live_entry_earlier:
  "live_entry r now k = Some v \<Longrightarrow> t \<le> now \<Longrightarrow> live_entry r t k = Some v"
  by (auto simp: live_entry_def split: option.splits if_splits)

lemma command_Inr: "command f r = (Inr x, r') \<Longrightarrow>
    \<exists>a. f (r\<lparr>answers := a\<rparr>) = (x, r') \<and> (answers r = None \<longrightarrow> a = None)"
  by (auto simp: command_def split: if_splits prod.splits)

lemma command_Inl: "command f r = (Inl e, r') \<Longrightarrow> e = RedisError \<and> r' = r"
  by (auto simp: command_def split: if_splits prod.splits)

lemma command_live: "answers r = None \<Longrightarrow> command f r = (Inr (fst (f r)), snd (f r))"
  by (cases r) (simp add: command_def split: prod.split)

end
