(* ===== verification/World.thy ===== *)
theory World
  imports Database Redis
begin

section \<open>The request's world\<close>

text \<open>
  What a request handler can touch: its database session and the shared Redis client. An action
  on one of them leaves the other alone.
\<close>

record world =
  w_db :: session
  w_redis :: redis

type_synonym 'a io = "(world, exc, 'a) act"

definition on_db :: "'a db \<Rightarrow> 'a io" where
  "on_db m = (\<lambda>w. case m (w_db w) of (r, t) \<Rightarrow> (r, w\<lparr>w_db := t\<rparr>))"

definition on_redis :: "'a rd \<Rightarrow> 'a io" where
  "on_redis m = (\<lambda>w. case m (w_redis w) of (r, t) \<Rightarrow> (r, w\<lparr>w_redis := t\<rparr>))"

lemma on_db_eq: "on_db m w = (r, w') \<longleftrightarrow> (\<exists>t. m (w_db w) = (r, t) \<and> w' = w\<lparr>w_db := t\<rparr>)"
  by (auto simp: on_db_def split: prod.split)

lemma on_redis_eq: "on_redis m w = (r, w') \<longleftrightarrow> (\<exists>t. m (w_redis w) = (r, t) \<and> w' = w\<lparr>w_redis := t\<rparr>)"
  by (auto simp: on_redis_def split: prod.split)

text \<open>Frames of the two halves.\<close>

definition db_frame :: "(session \<Rightarrow> session \<Rightarrow> bool) \<Rightarrow> world \<Rightarrow> world \<Rightarrow> bool" where
  "db_frame rel w w' \<longleftrightarrow> rel (w_db w) (w_db w')"

definition redis_frame :: "(redis \<Rightarrow> redis \<Rightarrow> bool) \<Rightarrow> world \<Rightarrow> world \<Rightarrow> bool" where
  "redis_frame rel w w' \<longleftrightarrow> rel (w_redis w) (w_redis w')"

lemma on_db_frame: "keeps rel m \<Longrightarrow> keeps (db_frame rel) (on_db m)"
  by (auto simp: keeps_def db_frame_def on_db_def split: prod.split dest: spec [of _ "w_db w" for w])
     (metis snd_conv)

lemma on_redis_db_frame: "(\<And>s. rel s s) \<Longrightarrow> keeps (db_frame rel) (on_redis m)"
  by (auto simp: keeps_def db_frame_def on_redis_def split: prod.split)

text \<open>
  \<open>get_db\<close>, a dependency of a route: the request's session is opened before the handler runs, an
  exception rolls it back, and it is closed after the handler has finished.
\<close>

definition request_session :: "'a io \<Rightarrow> 'a io" where
  "request_session body =
     (\<lambda>w. ensure (attempt body (\<lambda>e. chain (on_db rollback) (\<lambda>_. raise e)))
            (\<lambda>w'. w'\<lparr>w_db := (w_db w')\<lparr>working := committed (w_db w'), pending := False,
                                    force_primary := force_primary (w_db w)\<rparr>\<rparr>)
            (w\<lparr>w_db := (w_db w)\<lparr>force_primary := False, working := committed (w_db w),
                              pending := False\<rparr>\<rparr>))"

end
