(* ===== verification/Blocklist.thy ===== *)
theory Blocklist
  imports Redis TokenRepo
begin

section \<open>auth/blocklist.py\<close>

text \<open>
  \<open>TokenBlocklist\<close>: the revocations that Redis can answer for. \<open>now\<close> is the process's clock where
  the code reads it and \<open>rnow\<close> the Redis server's clock at the command. The time to live is the
  code's: whole milliseconds, truncated.
\<close>

definition jti_key_prefix :: string where "jti_key_prefix = ''auth:blocklist:jti:''"
definition ready_key :: string where "ready_key = ''auth:blocklist:ready''"
definition seeding_key :: string where "seeding_key = ''auth:blocklist:seeding''"
definition seeding_lock_seconds :: int where "seeding_lock_seconds = 60"

text \<open>\<open>int((expires_at - now).total_seconds() * 1000)\<close>: truncation towards zero.\<close>

definition ttl_ms :: "time \<Rightarrow> time \<Rightarrow> int" where
  "ttl_ms expires_at now =
     (let d = expires_at - now in if d \<ge> 0 then d div 1000 else - ((- d) div 1000))"

definition revoke_commands :: "time \<Rightarrow> time \<Rightarrow> token_ref list \<Rightarrow> (redis \<Rightarrow> redis) list" where
  "revoke_commands now rnow tokens =
     map (\<lambda>token. set_string rnow (jti_key_prefix @ tr_jti token) ''1''
                    (Some (ttl_ms (tr_expires_at token) now * 1000)))
         (filter (\<lambda>token. ttl_ms (tr_expires_at token) now > 0) tokens)"

definition blocklist_revoke :: "time \<Rightarrow> time \<Rightarrow> token_ref list \<Rightarrow> unit rd" where
  "blocklist_revoke now rnow tokens =
     (let cmds = revoke_commands now rnow tokens in
      if cmds \<noteq> [] then pipeline cmds else ret ())"

definition blocklist_lookup :: "time \<Rightarrow> string \<Rightarrow> bool option rd" where
  "blocklist_lookup rnow jti =
     attempt
       (chain (redis_mget rnow [jti_key_prefix @ jti, ready_key]) (\<lambda>values.
          case values of
            [revoked, ready] \<Rightarrow> ret (if ready = None then None else Some (revoked \<noteq> None))
          | _ \<Rightarrow> raise (ValueError ''unpack'')))
       (\<lambda>e. if e = RedisError then ret None else raise e)"

definition claim_seeding :: "time \<Rightarrow> bool rd" where
  "claim_seeding rnow =
     attempt (redis_set_nx rnow seeding_key ''1'' (Some (seconds seeding_lock_seconds)))
       (\<lambda>e. if e = RedisError then ret False else raise e)"

definition blocklist_seed :: "time \<Rightarrow> time \<Rightarrow> token_ref list \<Rightarrow> unit rd" where
  "blocklist_seed now rnow tokens =
     attempt
       (chain (blocklist_revoke now rnow tokens) (\<lambda>_. redis_set rnow ready_key ''1'' None))
       (\<lambda>e. if e = RedisError then ret () else raise e)"

subsection \<open>What the commands leave behind\<close>

lemma keys_apart [simp]:
  "jti_key_prefix @ j \<noteq> ready_key" "jti_key_prefix @ j \<noteq> seeding_key" "ready_key \<noteq> seeding_key"
  "ready_key \<noteq> jti_key_prefix @ j" "seeding_key \<noteq> jti_key_prefix @ j" "seeding_key \<noteq> ready_key"
  by (simp_all add: jti_key_prefix_def ready_key_def seeding_key_def)

lemma ttl_ms_lower: "e - now - 1000 < ttl_ms e now * 1000"
proof -
  let ?d = "e - now"
  have down: "x div 1000 * 1000 = x - x mod 1000" "0 \<le> x mod 1000" "x mod 1000 < 1000" for x :: int
    by (simp_all add: minus_mod_eq_div_mult)
  have low: "- 1000 < x mod 1000" for x :: int
    by (rule less_le_trans [of _ 0]) simp_all
  show ?thesis
    using down [of ?d] down [of "- ?d"] low by (simp add: ttl_ms_def Let_def)
qed

text \<open>
  \<open>blocks r now tok\<close>: Redis answers "revoked" for the token now and until a millisecond before it
  expires.
\<close>

definition blocks :: "redis \<Rightarrow> time \<Rightarrow> token_ref \<Rightarrow> bool" where
  "blocks r now tok \<longleftrightarrow>
     (\<forall>t. now \<le> t \<and> t + 1000 \<le> tr_expires_at tok \<longrightarrow>
        live_entry r t (jti_key_prefix @ tr_jti tok) = Some (RStr ''1''))"

lemma blocks_later: "blocks r now tok \<Longrightarrow> now \<le> now' \<Longrightarrow> blocks r now' tok"
  by (auto simp: blocks_def)

lemma blocks_answers [simp]: "blocks (r\<lparr>answers := a\<rparr>) now tok = blocks r now tok"
  by (simp add: blocks_def)

lemma set_string_blocks:
  assumes "now \<le> rnow" and "ttl_ms (tr_expires_at tok) now > 0"
  shows "blocks (set_string rnow (jti_key_prefix @ tr_jti tok) ''1''
           (Some (ttl_ms (tr_expires_at tok) now * 1000)) r) t0 tok"
  using assms ttl_ms_lower [of "tr_expires_at tok" now]
  by (auto simp: blocks_def set_string_def live_entry_put)

lemma set_string_keeps_blocks:
  assumes "now \<le> rnow" and "blocks r t0 tok'" and "tr_jti tok = tr_jti tok' \<longrightarrow> tok = tok'"
    and "ttl_ms (tr_expires_at tok) now > 0"
  shows "blocks (set_string rnow (jti_key_prefix @ tr_jti tok) ''1''
           (Some (ttl_ms (tr_expires_at tok) now * 1000)) r) t0 tok'"
proof (cases "tr_jti tok = tr_jti tok'")
  case True
  with assms show ?thesis by (simp add: set_string_blocks)
next
  case False
  with assms(2) show ?thesis by (auto simp: blocks_def set_string_def live_entry_put)
qed

text \<open>A property that every command keeps is kept by a pipeline, wherever it breaks off.\<close>

lemma pipeline_keeps:
  assumes "pipeline cmds r = (x, r')" and "P r"
    and "\<And>c r. c \<in> set cmds \<Longrightarrow> P r \<Longrightarrow> P (c r)" and "\<And>r a. P r \<Longrightarrow> P (r\<lparr>answers := a\<rparr>)"
  shows "P r'"
  using assms
proof (induction cmds arbitrary: r)
  case (Cons c cmds)
  show ?case
  proof (cases "answers r = Some 0")
    case True
    with Cons.prems(1,2) show ?thesis by (simp add: pipeline_def chain_def command_def)
  next
    case False
    let ?r = "c (r\<lparr>answers := map_option (\<lambda>n. n - 1) (answers r)\<rparr>)"
    have "P ?r" using Cons.prems by simp
    moreover have "pipeline cmds ?r = (x, r')"
      using Cons.prems(1) False by (simp add: pipeline_def chain_def command_def)
    ultimately show ?thesis using Cons.IH Cons.prems(3,4) by simp
  qed
qed (simp add: pipeline_def)

lemma pipeline_raises: "pipeline cmds r = (Inl e, r') \<Longrightarrow> e = RedisError"
  by (induction cmds arbitrary: r)
     (auto simp: pipeline_def chain_def command_def split: if_splits)

lemma pipeline_establishes:
  assumes "pipeline cmds r = (Inr u, r')" and "c \<in> set cmds"
    and "\<And>r. Q (c r)" and "\<And>d r. d \<in> set cmds \<Longrightarrow> Q r \<Longrightarrow> Q (d r)"
    and "\<And>r a. Q r \<Longrightarrow> Q (r\<lparr>answers := a\<rparr>)"
  shows "Q r'"
  using assms
proof (induction cmds arbitrary: r)
  case (Cons d cmds)
  let ?r = "d (r\<lparr>answers := map_option (\<lambda>n. n - 1) (answers r)\<rparr>)"
  have rest: "pipeline cmds ?r = (Inr u, r')"
    using Cons.prems(1) by (auto simp: pipeline_def chain_def command_def split: if_splits)
  show ?case
  proof (cases "c = d")
    case True
    then show ?thesis
      using pipeline_keeps [OF rest, of Q] Cons.prems(3-5) by auto
  next
    case False
    with Cons.prems(2) have "c \<in> set cmds" by simp
    with Cons.IH [OF rest] Cons.prems(3-5) show ?thesis by auto
  qed
qed simp

subsection \<open>Revoking and looking up\<close>

text \<open>Whatever a revocation does, it keeps what was blocked and does not touch the ready flag.\<close>

lemma revoke_keeps_blocks:
  assumes "blocklist_revoke now rnow toks r = (x, r')" and "now \<le> rnow" and "blocks r t0 tok'"
    and "\<And>tok. tok \<in> set toks \<Longrightarrow> tr_jti tok = tr_jti tok' \<Longrightarrow> tok = tok'"
  shows "blocks r' t0 tok'"
proof (cases "revoke_commands now rnow toks = []")
  case True
  with assms show ?thesis by (simp add: blocklist_revoke_def)
next
  case False
  with assms(1) have "pipeline (revoke_commands now rnow toks) r = (x, r')"
    by (simp add: blocklist_revoke_def)
  then show ?thesis
    by (rule pipeline_keeps [where P = "\<lambda>r. blocks r t0 tok'"])
       (use assms in \<open>auto simp: revoke_commands_def intro!: set_string_keeps_blocks\<close>)
qed

lemma revoke_keeps_ready:
  assumes "blocklist_revoke now rnow toks r = (x, r')"
  shows "kv r' ready_key = kv r ready_key"
proof (cases "revoke_commands now rnow toks = []")
  case True
  with assms show ?thesis by (simp add: blocklist_revoke_def)
next
  case False
  with assms(1) have "pipeline (revoke_commands now rnow toks) r = (x, r')"
    by (simp add: blocklist_revoke_def)
  then show ?thesis
    by (rule pipeline_keeps [where P = "\<lambda>q. kv q ready_key = kv r ready_key"])
       (auto simp: revoke_commands_def set_string_def put_entry_def)
qed

lemma revoke_blocks:
  assumes "blocklist_revoke now rnow toks r = (Inr u, r')" and "now \<le> rnow" and "tok \<in> set toks"
    and same: "\<And>tok'. tok' \<in> set toks \<Longrightarrow> tr_jti tok' = tr_jti tok \<Longrightarrow> tok' = tok"
  shows "blocks r' rnow tok"
proof (cases "ttl_ms (tr_expires_at tok) now > 0")
  case True
  define c where "c = set_string rnow (jti_key_prefix @ tr_jti tok) ''1''
    (Some (ttl_ms (tr_expires_at tok) now * 1000))"
  have c: "c \<in> set (revoke_commands now rnow toks)"
    using True assms(3) by (auto simp: revoke_commands_def c_def)
  then have "pipeline (revoke_commands now rnow toks) r = (Inr u, r')"
    using assms(1) by (auto simp: blocklist_revoke_def Let_def split: if_splits)
  then show ?thesis
  proof (rule pipeline_establishes [where Q = "\<lambda>r. blocks r rnow tok", OF _ c])
    show "blocks (c q) rnow tok" for q
      using True assms(2) by (simp add: c_def set_string_blocks)
    show "blocks (d q) rnow tok" if "d \<in> set (revoke_commands now rnow toks)" "blocks q rnow tok" for d q
      using that assms(2) same by (auto simp: revoke_commands_def intro!: set_string_keeps_blocks)
  qed simp
next
  case False
  then have "tr_expires_at tok - now - 1000 < 0"
    using ttl_ms_lower [of "tr_expires_at tok" now] by linarith
  with assms(2) show ?thesis by (auto simp: blocks_def)
qed

definition redis_ready :: "redis \<Rightarrow> time \<Rightarrow> bool" where
  "redis_ready r now \<longleftrightarrow> (\<exists>v. live_entry r now ready_key = Some (RStr v))"

lemma lookup_answers:
  assumes "blocklist_lookup rnow j r = (x, r')"
  shows "(x = Inr None \<or> redis_ready r rnow \<and>
            x = Inr (Some (\<exists>v. live_entry r rnow (jti_key_prefix @ j) = Some (RStr v))))
    \<and> kv r' = kv r"
  using assms
  by (auto simp: blocklist_lookup_def redis_mget_def command_def attempt_def chain_def redis_ready_def
      split: if_splits prod.splits option.splits redis_value.splits)

end
