(* ===== verification/AuthDeps.thy ===== *)
theory AuthDeps
  imports World Blocklist
begin

section \<open>auth/dependencies.py\<close>

text \<open>
  The dependencies of the authenticated routes. \<open>TokenPayload\<close> is AuthX's decoded token; decoding
  and the scope test are AuthX's and come in as the parameters \<open>decode\<close> and \<open>has_scopes\<close>. Claims that
  AuthX does not know (\<open>sid\<close> and \<open>gen\<close>) are in \<open>model_extra\<close>.
\<close>

record token_payload =
  tp_sub :: string
  tp_jti :: "string option"
  tp_type :: string
  tp_expiry :: time
  tp_scopes :: "string list"
  tp_extra :: "(string \<times> json) list"

record auth_session =
  as_user_id :: uuid
  as_tokens :: "token_ref list"
  as_refresh_session_id :: "uuid option"

text \<open>
  \<open>is_token_revoked\<close>. The reading of the clock in \<open>exists\<close> is \<open>t1\<close>, those of seeding \<open>t2\<close> (the query)
  and \<open>t3\<close> (the blocklist), and the Redis server's clock at its commands \<open>r1\<close>, \<open>r2\<close> and \<open>r3\<close>.
\<close>

definition is_token_revoked ::
  "(string \<Rightarrow> exc + token_payload) \<Rightarrow> string \<Rightarrow> time \<Rightarrow> time \<Rightarrow> time \<Rightarrow> time \<Rightarrow> time \<Rightarrow> time \<Rightarrow> bool io" where
  "is_token_revoked decode token r1 t1 r2 t2 t3 r3 =
     (case decode token of Inl e \<Rightarrow> raise e
      | Inr payload \<Rightarrow>
          (case tp_jti payload of None \<Rightarrow> ret True
           | Some jti \<Rightarrow>
               chain (on_redis (blocklist_lookup r1 jti)) (\<lambda>cached.
                 case cached of Some b \<Rightarrow> ret b
                 | None \<Rightarrow>
                     chain (on_db (local_session (token_exists jti t1))) (\<lambda>revoked.
                     chain (on_redis (claim_seeding r2)) (\<lambda>claimed.
                     chain (if claimed
                            then chain (on_db (local_session (token_list_active t2))) (\<lambda>active.
                                 on_redis (blocklist_seed t3 r3 active))
                            else ret ()) (\<lambda>_.
                     ret revoked))))))"

subsection \<open>Claims of the refresh cookie\<close>

text \<open>\<open>UUID(value)\<close> and \<open>int(value)\<close> for a claim read from JSON.\<close>

definition uuid_of_json :: "json \<Rightarrow> exc + uuid" where
  "uuid_of_json v =
     (case v of
        JStr s \<Rightarrow> (case parse_uuid s of Some u \<Rightarrow> Inr u
                   | None \<Rightarrow> Inl (ValueError ''badly formed hexadecimal UUID string''))
      | JNull \<Rightarrow> Inl (TypeError ''one of the hex, bytes, bytes_le, fields, or int arguments must be given'')
      | _ \<Rightarrow> Inl (AttributeError ''replace''))"

definition digit_value :: "char \<Rightarrow> nat option" where
  "digit_value c = (let n = of_char c :: nat in if 48 \<le> n \<and> n \<le> 57 then Some (n - 48) else None)"

fun decimal_digits :: "nat \<Rightarrow> string \<Rightarrow> nat option" where
  "decimal_digits acc [] = Some acc"
| "decimal_digits acc (c # cs) =
     (case digit_value c of
        Some d \<Rightarrow> decimal_digits (10 * acc + d) cs
      | None \<Rightarrow>
          if c = CHR ''_''
          then (case cs of [] \<Rightarrow> None
                | c' # cs' \<Rightarrow> (case digit_value c' of None \<Rightarrow> None
                               | Some d \<Rightarrow> decimal_digits (10 * acc + d) cs'))
          else None)"

definition unsigned_int :: "string \<Rightarrow> nat option" where
  "unsigned_int s =
     (case s of [] \<Rightarrow> None
      | c # cs \<Rightarrow> (case digit_value c of None \<Rightarrow> None | Some d \<Rightarrow> decimal_digits d cs))"

definition py_int :: "string \<Rightarrow> int option" where
  "py_int text =
     (let s = strip text in
      case s of [] \<Rightarrow> None
      | c # cs \<Rightarrow>
          if c = CHR ''-'' then map_option (\<lambda>n. - int n) (unsigned_int cs)
          else if c = CHR ''+'' then map_option int (unsigned_int cs)
          else map_option int (unsigned_int s))"

definition int_of_json :: "json \<Rightarrow> exc + int" where
  "int_of_json v =
     (case v of
        JInt n \<Rightarrow> Inr n
      | JBool b \<Rightarrow> Inr (if b then 1 else 0)
      | JStr s \<Rightarrow> (case py_int s of Some n \<Rightarrow> Inr n
                   | None \<Rightarrow> Inl (ValueError ''invalid literal for int() with base 10''))
      | _ \<Rightarrow> Inl (TypeError ''int() argument must be a string, a bytes-like object or a real number''))"

definition claim :: "token_payload \<Rightarrow> string \<Rightarrow> exc + json" where
  "claim payload name =
     (case map_of (tp_extra payload) name of Some v \<Rightarrow> Inr v | None \<Rightarrow> Inl (KeyError name))"

definition suppressed :: "exc \<Rightarrow> bool" where
  "suppressed e \<longleftrightarrow> (case e of KeyError _ \<Rightarrow> True | TypeError _ \<Rightarrow> True | ValueError _ \<Rightarrow> True | _ \<Rightarrow> False)"

definition read_session_claims :: "token_payload \<Rightarrow> exc + uuid \<times> int" where
  "read_session_claims payload =
     (case claim payload ''sid'' of Inl e \<Rightarrow> Inl e
      | Inr v \<Rightarrow>
          (case uuid_of_json v of Inl e \<Rightarrow> Inl e
           | Inr sid \<Rightarrow>
               (case claim payload ''gen'' of Inl e \<Rightarrow> Inl e
                | Inr w \<Rightarrow>
                    (case int_of_json w of Inl e \<Rightarrow> Inl e | Inr g \<Rightarrow> Inr (sid, g)))))"

definition refresh_session_claims :: "token_payload \<Rightarrow> exc + (uuid \<times> int) option" where
  "refresh_session_claims payload =
     (case read_session_claims payload of
        Inr c \<Rightarrow> Inr (Some c)
      | Inl e \<Rightarrow> if suppressed e then Inr None else Inl e)"

subsection \<open>The session of a request\<close>

definition own_token :: "token_payload \<Rightarrow> token_ref list" where
  "own_token payload =
     (case tp_jti payload of None \<Rightarrow> []
      | Some j \<Rightarrow> [\<lparr>tr_jti = j, tr_expires_at = tp_expiry payload\<rparr>])"

text \<open>
  The refresh cookie, where there is one, adds its token and its session; a cookie that does not
  decode is ignored.
\<close>

definition cookie_part :: "(string \<Rightarrow> exc + token_payload) \<Rightarrow> string option \<Rightarrow> exc + token_ref list \<times> uuid option" where
  "cookie_part decode cookie =
     (case cookie of None \<Rightarrow> Inr ([], None)
      | Some refresh_token \<Rightarrow>
          if refresh_token = [] then Inr ([], None)
          else (case decode refresh_token of
                  Inl e \<Rightarrow> (case e of JWTDecodeError _ \<Rightarrow> Inr ([], None) | _ \<Rightarrow> Inl e)
                | Inr refresh_payload \<Rightarrow>
                    (case refresh_session_claims refresh_payload of
                       Inl e \<Rightarrow> Inl e
                     | Inr claims \<Rightarrow> Inr (own_token refresh_payload, map_option fst claims))))"

definition get_auth_session ::
  "(string \<Rightarrow> exc + token_payload) \<Rightarrow> token_payload \<Rightarrow> string option \<Rightarrow> exc + auth_session" where
  "get_auth_session decode payload cookie =
     (case cookie_part decode cookie of Inl e \<Rightarrow> Inl e
      | Inr (refresh_tokens, sid) \<Rightarrow>
          (case parse_uuid (tp_sub payload) of
             None \<Rightarrow> Inl (ValueError ''badly formed hexadecimal UUID string'')
           | Some uid \<Rightarrow>
               Inr \<lparr>as_user_id = uid, as_tokens = own_token payload @ refresh_tokens,
                    as_refresh_session_id = sid\<rparr>))"

definition require_scopes ::
  "(token_payload \<Rightarrow> string list \<Rightarrow> bool \<Rightarrow> bool) \<Rightarrow> string list \<Rightarrow> bool \<Rightarrow> token_payload \<Rightarrow> exc + token_payload"
  where
  "require_scopes has_scopes required all_required payload =
     (if \<not> has_scopes payload required all_required
      then Inl (Domain (unauthorized_action_error ''Insufficient permissions'')) else Inr payload)"

end
