(* ===== verification/Settings.thy ===== *)
theory Settings
  imports Tables
begin

section \<open>core/setting.py\<close>

text \<open>
  The settings the modelled code reads, with the defaults the class gives them. Durations that
  the source keeps as floating-point seconds are microseconds here.
\<close>

record settings =
  environment :: string
  database_url :: string
  database_replica_url :: "string option"
  backend_url :: string
  server_hosts :: string
  forwarded_allow_ips :: string
  jwt_refresh_token_ttl_days :: int
  refresh_reuse_grace_seconds :: int
  redis_host :: string
  redis_port :: nat
  redis_db :: nat
  cache_prefix :: string
  cache_default_ttl :: int
  outbox_poll_interval :: time
  outbox_batch_size :: nat
  outbox_max_attempts :: int
  outbox_retention_days :: int
  outbox_max_lag :: time
  dead_letter_retention_days :: int
  task_max_retries :: int
  task_retry_delay :: time
  task_retry_backoff :: bool

definition default_settings :: "string \<Rightarrow> settings" where
  "default_settings url =
     \<lparr>environment = ''local'', database_url = url, database_replica_url = None,
      backend_url = ''http://localhost:8000'', server_hosts = ''127.0.0.1,172.17.0.1'',
      forwarded_allow_ips = ''127.0.0.1,::1'', jwt_refresh_token_ttl_days = 20,
      refresh_reuse_grace_seconds = 10, redis_host = ''127.0.0.1'', redis_port = 6379,
      redis_db = 0, cache_prefix = ''fasti-cache'', cache_default_ttl = 3600,
      outbox_poll_interval = seconds 5, outbox_batch_size = 100, outbox_max_attempts = 10,
      outbox_retention_days = 7, outbox_max_lag = seconds 60, dead_letter_retention_days = 30,
      task_max_retries = 3, task_retry_delay = seconds 5, task_retry_backoff = True\<rparr>"

definition days :: "int \<Rightarrow> time" where "days n = seconds (86400 * n)"

definition split_csv :: "string \<Rightarrow> string list" where
  "split_csv value = map strip (split_on (CHR '','') value)"

definition get_replica_url :: "settings \<Rightarrow> string" where
  "get_replica_url st =
     (case database_replica_url st of
        Some u \<Rightarrow> if u \<noteq> [] then u else replace (database_url st) ''5433'' ''5434''
      | None \<Rightarrow> replace (database_url st) ''5433'' ''5434'')"

definition ensure_scheme :: "string \<Rightarrow> string" where
  "ensure_scheme value = (if \<not> contains value ''://'' then ''http://'' @ value else value)"

definition server_host_list :: "settings \<Rightarrow> string list" where
  "server_host_list st = split_csv (server_hosts st)"

definition trust_compose_caddy_locally :: "bool \<Rightarrow> settings \<Rightarrow> settings" where
  "trust_compose_caddy_locally uses_default_trust st =
     (if uses_default_trust \<and> environment st = ''local''
      then st\<lparr>forwarded_allow_ips := forwarded_allow_ips st @ '',172.28.0.10''\<rparr> else st)"

lemma ensure_scheme_contains: "contains (ensure_scheme v) ''://''"
  by (cases "contains v ''://''") (simp_all add: ensure_scheme_def startswith_def)

lemma ensure_scheme_idem: "ensure_scheme (ensure_scheme v) = ensure_scheme v"
  using ensure_scheme_contains [of v] by (simp add: ensure_scheme_def [of "ensure_scheme v"])

end
