(* ===== verification/AuthService.thy ===== *)
theory AuthService
  imports AccountRepo AuthDeps Settings
begin

section \<open>auth/services\<close>

text \<open>
  \<open>SecurityService\<close>, \<open>EmailVerificationService\<close>, \<open>PasswordResetService\<close> and \<open>AuthService\<close>. What is not
  the program's own comes in through \<open>auth_env\<close>: the driver's message of a constraint, bcrypt
  (which may reject its input), PyJWT with the signing key, and the settings the services were
  constructed with. \<open>jwt_decode\<close> takes the time at which it checks the expiry. A decoded payload is
  a dictionary: every claim may be missing.
\<close>

record token_claims =
  tc_sub :: string
  tc_type :: string
  tc_jti :: string
  tc_iat :: time
  tc_exp :: time

record decoded_claims =
  dc_sub :: "string option"
  dc_type :: "string option"
  dc_jti :: "string option"
  dc_exp :: "int option"

record auth_env =
  orig_text :: "violation \<Rightarrow> string"
  hashpw :: "string \<Rightarrow> string \<Rightarrow> exc + string"
  checkpw :: "string \<Rightarrow> string \<Rightarrow> exc + bool"
  dummy_password_hash :: string
  jwt_encode :: "token_claims \<Rightarrow> string"
  jwt_decode :: "time \<Rightarrow> string \<Rightarrow> exc + decoded_claims"
  env_backend_url :: string
  session_ttl :: time
  reuse_grace :: time

definition of_sum :: "exc + 'a \<Rightarrow> ('s, exc, 'a) act" where
  "of_sum x = (\<lambda>s. (x, s))"

subsection \<open>security_service.py\<close>

definition hash_password :: "auth_env \<Rightarrow> string \<Rightarrow> string \<Rightarrow> string db" where
  "hash_password env password salt = of_sum (hashpw env password salt)"

definition check_password :: "auth_env \<Rightarrow> string \<Rightarrow> string \<Rightarrow> bool db" where
  "check_password env password hashed_password = of_sum (checkpw env password hashed_password)"

definition authenticate :: "auth_env \<Rightarrow> string \<Rightarrow> string \<Rightarrow> user option db" where
  "authenticate env email password =
     chain (user_get_by_email email True) (\<lambda>usr.
       (let password_hash = (case usr of Some u \<Rightarrow> user_password_hash u | None \<Rightarrow> dummy_password_hash env)
        in chain (check_password env password password_hash) (\<lambda>password_ok.
           ret (case usr of None \<Rightarrow> None
                | Some u \<Rightarrow> if \<not> password_ok \<or> \<not> user_is_active u \<or> \<not> user_is_verified u then None
                            else Some u))))"

subsection \<open>email_verification_service.py and password_reset_service.py\<close>

definition verify_token_expiry :: time where "verify_token_expiry = seconds (24 * 3600)"
definition reset_token_expiry :: time where "reset_token_expiry = seconds (15 * 60)"
definition verify_type :: string where "verify_type = ''email_verify''"
definition reset_type :: string where "reset_type = ''password_reset''"

definition create_verification_token :: "auth_env \<Rightarrow> string \<Rightarrow> time \<Rightarrow> uuid \<Rightarrow> string \<times> string" where
  "create_verification_token env uid now u =
     (let jti = uuid_hex u in
      (jwt_encode env \<lparr>tc_sub = uid, tc_type = verify_type, tc_jti = jti, tc_iat = now,
                       tc_exp = now + verify_token_expiry\<rparr>, jti))"

definition create_reset_token :: "auth_env \<Rightarrow> string \<Rightarrow> time \<Rightarrow> uuid \<Rightarrow> string \<times> string" where
  "create_reset_token env uid now u =
     (let jti = uuid_hex u in
      (jwt_encode env \<lparr>tc_sub = uid, tc_type = reset_type, tc_jti = jti, tc_iat = now,
                       tc_exp = now + reset_token_expiry\<rparr>, jti))"

definition quoted_link :: "string \<Rightarrow> string" where
  "quoted_link link = [CHR 0x22] @ link @ [CHR 0x22]"

definition verification_email_payload :: "auth_env \<Rightarrow> string \<Rightarrow> string \<Rightarrow> (string \<times> json) list" where
  "verification_email_payload env email token =
     (let link = env_backend_url env @ ''/api/v1/auth/verify-email?token='' @ token in
      [(''subject'', JStr ''Verify your email''), (''recipients'', JList [JStr email]),
       (''body'', JStr (''<p>Click to verify your account: <a href='' @ quoted_link link @ ''>''
                          @ link @ ''</a></p>''))])"

definition reset_email_payload :: "auth_env \<Rightarrow> string \<Rightarrow> string \<Rightarrow> (string \<times> json) list" where
  "reset_email_payload env email token =
     (let link = env_backend_url env @ ''/api/v1/auth/reset-password?token='' @ token in
      [(''subject'', JStr ''Reset your password''), (''recipients'', JList [JStr email]),
       (''body'', JStr (''<p>Click to reset your password: <a href='' @ quoted_link link @ ''>''
                          @ link @ ''</a></p>''))])"

subsection \<open>auth_service.py: sessions\<close>

definition auth_login ::
  "auth_env \<Rightarrow> string \<Rightarrow> string \<Rightarrow> time \<Rightarrow> uuid \<Rightarrow> time \<Rightarrow> (user \<times> refresh_session) db" where
  "auth_login env email password now new_id created =
     chain (authenticate env email password) (\<lambda>usr.
       case usr of None \<Rightarrow> raise (Domain invalid_credentials_error)
       | Some u \<Rightarrow>
           chain (session_create (user_id u) (now + session_ttl env) new_id created) (\<lambda>sess.
           ret (u, sess)))"

definition is_live :: "refresh_session \<Rightarrow> uuid \<Rightarrow> time \<Rightarrow> bool" where
  "is_live sess uid now \<longleftrightarrow>
     rf_user_id sess = uid \<and> rf_revoked_at sess = None \<and> rf_expires_at sess > now"

definition was_just_rotated_from :: "auth_env \<Rightarrow> refresh_session \<Rightarrow> int \<Rightarrow> time \<Rightarrow> bool" where
  "was_just_rotated_from env sess generation now \<longleftrightarrow>
     rf_generation sess = generation + 1
   \<and> (case rf_rotated_at sess of None \<Rightarrow> False | Some t \<Rightarrow> now - t \<le> reuse_grace env)"

text \<open>
  \<open>t1\<close> is the clock of the claim, \<open>t2\<close> that of \<open>_is_live\<close>, \<open>t3\<close> that of the grace window and \<open>t4\<close> that
  of the revocation.
\<close>

definition auth_refresh ::
  "auth_env \<Rightarrow> uuid \<Rightarrow> uuid \<Rightarrow> int \<Rightarrow> time \<Rightarrow> time \<Rightarrow> time \<Rightarrow> time \<Rightarrow> (user \<times> refresh_session) db" where
  "auth_refresh env uid sid generation t1 t2 t3 t4 =
     chain (user_get uid True) (\<lambda>usr.
       case usr of None \<Rightarrow> raise (Domain invalid_credentials_error)
       | Some u \<Rightarrow>
           if \<not> user_is_active u \<or> \<not> user_is_verified u then raise (Domain invalid_credentials_error)
           else
             chain (session_rotate sid uid generation t1) (\<lambda>rotated.
               case rotated of Some sess \<Rightarrow> ret (u, sess)
               | None \<Rightarrow>
                   chain (session_get sid) (\<lambda>current.
                     case current of None \<Rightarrow> raise (Domain invalid_refresh_token_error)
                     | Some cur \<Rightarrow>
                         if \<not> is_live cur uid t2 then raise (Domain invalid_refresh_token_error)
                         else if was_just_rotated_from env cur generation t3
                         then raise (Domain (conflict_error
                                ''Refresh token was just rotated; retry with the latest cookie''))
                         else chain (session_revoke sid t4) (\<lambda>_.
                                raise (Domain invalid_refresh_token_error)))))"

definition auth_logout :: "auth_session \<Rightarrow> time \<Rightarrow> time \<Rightarrow> (nat \<Rightarrow> uuid) \<Rightarrow> time \<Rightarrow> unit io" where
  "auth_logout sess now rnow ids t2 =
     chain (on_redis (blocklist_revoke now rnow (as_tokens sess))) (\<lambda>_.
     on_db (account_logout (as_user_id sess) (as_tokens sess) (as_refresh_session_id sess) ids t2))"

definition auth_close_account ::
  "auth_env \<Rightarrow> uuid \<Rightarrow> token_ref list \<Rightarrow> time \<Rightarrow> time \<Rightarrow> time \<Rightarrow> (nat \<Rightarrow> uuid) \<Rightarrow> time \<Rightarrow> unit io" where
  "auth_close_account env uid tokens now rnow t1 ids t2 =
     chain (on_redis (blocklist_revoke now rnow tokens)) (\<lambda>_.
     chain (on_db (account_close (orig_text env) uid tokens t1 ids t2)) (\<lambda>usr.
     case usr of None \<Rightarrow> raise (user_not_found uid) | Some _ \<Rightarrow> ret ()))"

subsection \<open>auth_service.py: tokens sent by mail\<close>

text \<open>\<open>_decode\<close>: \<open>payload["jti"]\<close> raises \<open>KeyError\<close> when the claim is missing.\<close>

definition decode_token ::
  "auth_env \<Rightarrow> string \<Rightarrow> string \<Rightarrow> string \<Rightarrow> string \<Rightarrow> string \<Rightarrow> time \<Rightarrow> time \<Rightarrow> decoded_claims db" where
  "decode_token env token expected_type invalid wrong_type used t0 t1 =
     (case jwt_decode env t0 token of
        Inl e \<Rightarrow> (case e of PyJWTError _ \<Rightarrow> raise (Domain (invalid_token_error invalid)) | _ \<Rightarrow> raise e)
      | Inr payload \<Rightarrow>
          if dc_type payload \<noteq> Some expected_type then raise (Domain (invalid_token_error wrong_type))
          else (case dc_jti payload of None \<Rightarrow> raise (KeyError ''jti'')
                | Some jti \<Rightarrow>
                    chain (token_exists jti t1) (\<lambda>revoked.
                      if revoked then raise (Domain (invalid_token_error used)) else ret payload)))"

definition user_for_token :: "decoded_claims \<Rightarrow> user db" where
  "user_for_token payload =
     (case dc_sub payload of None \<Rightarrow> raise (KeyError ''sub'')
      | Some sub \<Rightarrow>
          (case parse_uuid sub of None \<Rightarrow> raise (ValueError ''badly formed hexadecimal UUID string'')
           | Some uid \<Rightarrow>
               chain (user_get uid True) (\<lambda>usr.
                 case usr of None \<Rightarrow> raise (Domain (entity_not_found_error ''User'' sub))
                 | Some u \<Rightarrow> ret u)))"

definition expiry_of :: "decoded_claims \<Rightarrow> time db" where
  "expiry_of payload =
     (case dc_exp payload of None \<Rightarrow> raise (KeyError ''exp'') | Some e \<Rightarrow> ret (seconds e))"

definition reject_used :: "string \<Rightarrow> exc \<Rightarrow> 'a db" where
  "reject_used used err =
     (if is_conflict_error err then raise (Domain (invalid_token_error used)) else raise err)"

definition auth_verify_email ::
  "auth_env \<Rightarrow> string \<Rightarrow> time \<Rightarrow> time \<Rightarrow> time \<Rightarrow> uuid \<Rightarrow> unit db" where
  "auth_verify_email env token t0 t1 t2 new_id =
     chain (decode_token env token verify_type ''Invalid or expired verification link''
              ''Invalid verification token'' ''Verification link already used'' t0 t1) (\<lambda>payload.
     chain (user_for_token payload) (\<lambda>usr.
       if user_pending_verification_jti usr \<noteq> dc_jti payload
       then raise (Domain (invalid_token_error
              ''Verification link has been superseded by a newer request''))
       else attempt
              (chain (expiry_of payload) (\<lambda>e.
               chain (account_verify_email (orig_text env) (user_id usr) (the (dc_jti payload)) e t2 new_id)
                     (\<lambda>_. ret ())))
              (reject_used ''Verification link already used'')))"

definition auth_resend_verification ::
  "auth_env \<Rightarrow> string \<Rightarrow> time \<Rightarrow> uuid \<Rightarrow> time \<Rightarrow> uuid \<Rightarrow> time \<Rightarrow> unit db" where
  "auth_resend_verification env email now u t2 event_id created =
     chain (user_get_by_email email False) (\<lambda>found.
       case found of None \<Rightarrow> ret ()
       | Some usr \<Rightarrow>
           if user_is_verified usr then ret ()
           else (case create_verification_token env (str_uuid (user_id usr)) now u of (token, jti) \<Rightarrow>
                   account_start_email_verification (orig_text env) (user_id usr) jti
                     (verification_email_payload env email token) t2 event_id created))"

definition auth_forgot_password ::
  "auth_env \<Rightarrow> string \<Rightarrow> time \<Rightarrow> uuid \<Rightarrow> time \<Rightarrow> uuid \<Rightarrow> time \<Rightarrow> unit db" where
  "auth_forgot_password env email now u t2 event_id created =
     chain (user_get_by_email email False) (\<lambda>found.
       case found of None \<Rightarrow> ret ()
       | Some usr \<Rightarrow>
           if \<not> user_is_active usr then ret ()
           else (case create_reset_token env (str_uuid (user_id usr)) now u of (token, jti) \<Rightarrow>
                   account_start_password_reset (orig_text env) (user_id usr) jti
                     (reset_email_payload env email token) t2 event_id created))"

definition auth_reset_password ::
  "auth_env \<Rightarrow> string \<Rightarrow> string \<Rightarrow> string \<Rightarrow> time \<Rightarrow> time \<Rightarrow> time \<Rightarrow> uuid \<Rightarrow> time \<Rightarrow> unit db" where
  "auth_reset_password env token new_password salt t0 t1 t2 new_id t3 =
     chain (decode_token env token reset_type ''Invalid or expired reset link''
              ''Invalid reset token'' ''Reset link already used'' t0 t1) (\<lambda>payload.
     chain (user_for_token payload) (\<lambda>usr.
       if \<not> user_is_active usr then raise (user_not_found (user_id usr))
       else if user_pending_password_reset_jti usr \<noteq> dc_jti payload
       then raise (Domain (invalid_token_error ''Reset link has been superseded by a newer request''))
       else attempt
              (chain (hash_password env new_password salt) (\<lambda>h.
               chain (expiry_of payload) (\<lambda>e.
               chain (account_reset_password (orig_text env) (user_id usr) h (the (dc_jti payload)) e
                        t2 new_id t3) (\<lambda>_. ret ()))))
              (reject_used ''Reset link already used'')))"

end
