(* ===== verification/AuthProps.thy ===== *)
theory AuthProps
  imports AuthService
begin

section \<open>What the authentication service guarantees\<close>

text \<open>
  Lemmas that read off what each step of \<open>AuthService\<close> returned, and the properties of signing in,
  refreshing and the tokens that are sent by mail.
\<close>

lemma of_sum_simps [simp]: "of_sum x s = (x, s)"
  by (simp add: of_sum_def)

lemma of_sum_frames [frame_intros]:
  "keeps same_committed (of_sum x)" "keeps pin_kept (of_sum x)" "keeps staged_pinned_kept (of_sum x)"
  by (simp_all add: keeps_def)

lemma user_get_pinned_Inr:
  "user_get uid True s = (Inr x, t) \<Longrightarrow>
     map_option user_to_entity (find_user uid (working s)) = x \<and> working t = working s \<and> pinned_step s t"
  by (auto simp: user_get_def chain_eq_Inr_iff dest!: pinned_scalar_Inr)

lemma user_get_by_email_pinned_Inr:
  "user_get_by_email e True s = (Inr x, t) \<Longrightarrow>
     map_option user_to_entity (find_user_by_email e (working s)) = x \<and> working t = working s
   \<and> pinned_step s t"
  by (auto simp: user_get_by_email_def chain_eq_Inr_iff dest!: pinned_scalar_Inr)

lemma decode_token_Inr:
  "decode_token env token ty bad wt used t0 t1 s = (Inr p, t) \<Longrightarrow>
     jwt_decode env t0 token = Inr p \<and> dc_type p = Some ty
   \<and> (\<exists>j. dc_jti p = Some j \<and> active_revocation j t1 (working s) = None)
   \<and> working t = working s \<and> committed t = committed s"
  by (auto simp: decode_token_def chain_eq_Inr_iff split: sum.splits exc.splits if_splits option.splits
      dest!: token_exists_Inr)

lemma user_for_token_Inr:
  "user_for_token p s = (Inr u, t) \<Longrightarrow>
     (\<exists>sub uid r. dc_sub p = Some sub \<and> parse_uuid sub = Some uid
        \<and> find_user uid (working s) = Some r \<and> u = user_to_entity r)
   \<and> working t = working s \<and> committed t = committed s"
  by (auto simp: user_for_token_def chain_eq_Inr_iff pinned_step_def split: option.splits
      dest!: user_get_pinned_Inr)

text \<open>
  What PyJWT documents of \<open>decode\<close>: the payload is the token's, and a payload whose \<open>exp\<close> has passed
  is rejected.
\<close>

definition jwt_expires :: "auth_env \<Rightarrow> bool" where
  "jwt_expires env \<longleftrightarrow>
     (\<forall>token t p t' p'. jwt_decode env t token = Inr p \<and> jwt_decode env t' token = Inr p' \<longrightarrow>
        p' = p \<and> (\<forall>e. dc_exp p = Some e \<longrightarrow> t < seconds e))"

lemma user_to_entity_simps [simp]:
  "user_id (user_to_entity r) = u_id r"
  "user_email (user_to_entity r) = u_email r"
  "user_password_hash (user_to_entity r) = u_password_hash r"
  "user_is_active (user_to_entity r) = u_is_active r"
  "user_is_verified (user_to_entity r) = u_is_verified r"
  "user_pending_verification_jti (user_to_entity r) = u_pending_verification_jti r"
  "user_pending_password_reset_jti (user_to_entity r) = u_pending_password_reset_jti r"
  by (simp_all add: user_to_entity_def)

lemma auth_reset_password_Inr:
  assumes "auth_reset_password env token pw salt t0 t1 t2 i t3 s = (Inr (), t)"
  shows "\<exists>p j e r. jwt_decode env t0 token = Inr p \<and> dc_jti p = Some j \<and> dc_exp p = Some e
    \<and> find_user (u_id r) (working s) = Some r \<and> u_pending_password_reset_jti r = Some j
    \<and> j \<notin> rt_jti ` set (revoked_tokens (working s))
    \<and> new_revoked j (seconds e) i \<in> set (revoked_tokens (committed t))
    \<and> (\<exists>h. hashpw env pw salt = Inr h
        \<and> (\<exists>r'. find_user (u_id r) (committed t) = Some r' \<and> u_password_hash r' = h))
    \<and> (\<forall>q \<in> set (refresh_sessions (committed t)). rs_user_id q = u_id r \<longrightarrow> rs_revoked_at q \<noteq> None)"
proof -
  obtain p s1 u s2 where p: "decode_token env token reset_type ''Invalid or expired reset link''
              ''Invalid reset token'' ''Reset link already used'' t0 t1 s = (Inr p, s1)"
    and u: "user_for_token p s1 = (Inr u, s2)"
    and act: "user_is_active u" and sup: "user_pending_password_reset_jti u = dc_jti p"
    and body: "attempt
              (chain (hash_password env pw salt) (\<lambda>h.
               chain (expiry_of p) (\<lambda>e.
               chain (account_reset_password (orig_text env) (user_id u) h (the (dc_jti p)) e
                        t2 i t3) (\<lambda>_. ret ()))))
              (reject_used ''Reset link already used'') s2 = (Inr (), t)"
    using assms by (auto simp: auth_reset_password_def chain_eq_Inr_iff split: if_splits)
  from decode_token_Inr [OF p] obtain j where j: "jwt_decode env t0 token = Inr p" "dc_jti p = Some j"
    and w1: "working s1 = working s" by auto
  from user_for_token_Inr [OF u] obtain uid r where r: "find_user uid (working s) = Some r"
    "u = user_to_entity r" and w2: "working s2 = working s" by (auto simp: w1)
  have uid: "u_id r = uid" using find_user_id [OF r(1)] by simp
  from body obtain h e x where h: "hashpw env pw salt = Inr h" and e: "dc_exp p = Some e"
    and ac: "account_reset_password (orig_text env) uid h j (seconds e) t2 i t3 s2 = (Inr x, t)"
    by (auto simp: attempt_eq_Inr_iff chain_eq_Inr_iff reject_used_def hash_password_def expiry_of_def
        j(2) r(2) uid split: if_splits option.splits)
  from reset_password_commits [OF ac] have "(\<exists>r. find_user uid (committed t) = Some r \<and> u_password_hash r = h)
     \<and> j \<notin> rt_jti ` set (revoked_tokens (working s))
     \<and> new_revoked j (seconds e) i \<in> set (revoked_tokens (committed t))
     \<and> (\<forall>r \<in> set (refresh_sessions (committed t)). rs_user_id r = uid \<longrightarrow> rs_revoked_at r \<noteq> None)"
    by (auto simp: w2)
  moreover have "u_pending_password_reset_jti r = Some j"
    using sup by (simp add: r(2) j(2))
  ultimately show ?thesis using j e h r(1) uid by blast
qed

text \<open>A spent token whose payload still decodes is still on record.\<close>

lemma spent_token_recorded:
  assumes "jwt_expires env"
    and "jwt_decode env t0 token = Inr p" "dc_jti p = Some j" "dc_exp p = Some e"
    and "new_revoked j (seconds e) i \<in> set (revoked_tokens tb)" and "revocations_kept t0' tb tb'"
    and "jwt_decode env t0' token = Inr p'" "dc_jti p' = Some j'"
  shows "j' \<in> rt_jti ` set (revoked_tokens tb')"
proof -
  have same: "p' = p" and fresh: "t0' < seconds e"
    using assms(1,2,4,7) unfolding jwt_expires_def by blast+
  have "new_revoked j (seconds e) i \<in> set (revoked_tokens tb')"
    using assms(5,6) fresh by (auto simp: revocations_kept_def new_revoked_def)
  then have "j \<in> rt_jti ` set (revoked_tokens tb')"
    by (metis image_eqI new_revoked_def revoked_row.select_convs(2))
  with same assms(3,8) show ?thesis by simp
qed

lemma reset_link_spent:
  assumes "jwt_expires env"
    and "auth_reset_password env token pw salt t0 t1 t2 i t3 s = (Inr (), t)"
    and "revocations_kept t0' (committed t) (working s')"
  shows "fst (auth_reset_password env token pw' salt' t0' t1' t2' i' t3' s') \<noteq> Inr ()"
proof
  assume "fst (auth_reset_password env token pw' salt' t0' t1' t2' i' t3' s') = Inr ()"
  then obtain t' where again: "auth_reset_password env token pw' salt' t0' t1' t2' i' t3' s' = (Inr (), t')"
    by (metis prod.collapse)
  obtain p j e where p: "jwt_decode env t0 token = Inr p" "dc_jti p = Some j" "dc_exp p = Some e"
    and row: "new_revoked j (seconds e) i \<in> set (revoked_tokens (committed t))"
    using auth_reset_password_Inr [OF assms(2)] by blast
  obtain p' j' where p': "jwt_decode env t0' token = Inr p'" "dc_jti p' = Some j'"
    and free: "j' \<notin> rt_jti ` set (revoked_tokens (working s'))"
    using auth_reset_password_Inr [OF again] by blast
  from spent_token_recorded [OF assms(1) p row assms(3) p'] free show False by blast
qed

lemma auth_verify_email_Inr:
  assumes "auth_verify_email env token t0 t1 t2 i s = (Inr (), t)"
  shows "\<exists>p j e r. jwt_decode env t0 token = Inr p \<and> dc_jti p = Some j \<and> dc_exp p = Some e
    \<and> find_user (u_id r) (working s) = Some r \<and> u_pending_verification_jti r = Some j
    \<and> j \<notin> rt_jti ` set (revoked_tokens (working s))
    \<and> new_revoked j (seconds e) i \<in> set (revoked_tokens (committed t))
    \<and> (\<exists>r'. find_user (u_id r) (committed t) = Some r' \<and> u_is_verified r')"
proof -
  obtain p s1 u s2 where p: "decode_token env token verify_type ''Invalid or expired verification link''
              ''Invalid verification token'' ''Verification link already used'' t0 t1 s = (Inr p, s1)"
    and u: "user_for_token p s1 = (Inr u, s2)"
    and sup: "user_pending_verification_jti u = dc_jti p"
    and body: "attempt
              (chain (expiry_of p) (\<lambda>e.
               chain (account_verify_email (orig_text env) (user_id u) (the (dc_jti p)) e t2 i)
                     (\<lambda>_. ret ())))
              (reject_used ''Verification link already used'') s2 = (Inr (), t)"
    using assms by (auto simp: auth_verify_email_def chain_eq_Inr_iff split: if_splits)
  from decode_token_Inr [OF p] obtain j where j: "jwt_decode env t0 token = Inr p" "dc_jti p = Some j"
    and w1: "working s1 = working s" by auto
  from user_for_token_Inr [OF u] obtain uid r where r: "find_user uid (working s) = Some r"
    "u = user_to_entity r" and w2: "working s2 = working s" by (auto simp: w1)
  have uid: "u_id r = uid" using find_user_id [OF r(1)] by simp
  from body obtain e x where e: "dc_exp p = Some e"
    and ac: "account_verify_email (orig_text env) uid j (seconds e) t2 i s2 = (Inr x, t)"
    by (auto simp: attempt_eq_Inr_iff chain_eq_Inr_iff reject_used_def expiry_of_def j(2) r(2) uid
        split: if_splits option.splits)
  have "u_pending_verification_jti r = Some j"
    using sup by (simp add: r(2) j(2))
  with verify_email_commits [OF ac] j e r(1) uid show ?thesis
    by (auto simp: w2)
qed

lemma verification_link_spent:
  assumes "jwt_expires env"
    and "auth_verify_email env token t0 t1 t2 i s = (Inr (), t)"
    and "revocations_kept t0' (committed t) (working s')"
  shows "fst (auth_verify_email env token t0' t1' t2' i' s') \<noteq> Inr ()"
proof
  assume "fst (auth_verify_email env token t0' t1' t2' i' s') = Inr ()"
  then obtain t' where again: "auth_verify_email env token t0' t1' t2' i' s' = (Inr (), t')"
    by (metis prod.collapse)
  obtain p j e where p: "jwt_decode env t0 token = Inr p" "dc_jti p = Some j" "dc_exp p = Some e"
    and row: "new_revoked j (seconds e) i \<in> set (revoked_tokens (committed t))"
    using auth_verify_email_Inr [OF assms(2)] by blast
  obtain p' j' where p': "jwt_decode env t0' token = Inr p'" "dc_jti p' = Some j'"
    and free: "j' \<notin> rt_jti ` set (revoked_tokens (working s'))"
    using auth_verify_email_Inr [OF again] by blast
  from spent_token_recorded [OF assms(1) p row assms(3) p'] free show False by blast
qed

subsection \<open>Signing in and refreshing\<close>

lemma pinned_live:
  "budget s = None \<Longrightarrow> force_primary s \<Longrightarrow> db_scalar q s = (Inr (q (working s)), s)"
  "budget s = None \<Longrightarrow> force_primary s \<Longrightarrow> db_get q' s = (Inr (q' (working s)), s)"
  "budget s = None \<Longrightarrow> force_primary s \<Longrightarrow>
     db_scalars c f s = (fst (f (working s)), s\<lparr>working := snd (f (working s))\<rparr>)"
  "budget s = None \<Longrightarrow> force_primary s \<Longrightarrow>
     db_execute c f' s = (fst (f' (working s)), s\<lparr>working := snd (f' (working s))\<rparr>)"
  by (cases s, simp_all add: pinned_simps on_primary_live)+

lemma authenticate_frames [frame_intros]:
  "keeps same_committed (authenticate env e pw)" "keeps pin_kept (authenticate env e pw)"
  "keeps staged_pinned_kept (authenticate env e pw)"
  unfolding authenticate_def check_password_def Let_def by (intro frame_intros)+

lemma authenticate_Inr:
  assumes "authenticate env e pw s = (Inr (Some u), t)"
  shows "\<exists>r. find_user_by_email e (working s) = Some r \<and> u = user_to_entity r
    \<and> checkpw env pw (u_password_hash r) = Inr True \<and> u_is_active r \<and> u_is_verified r
    \<and> working t = working s"
proof -
  obtain x s1 where x: "user_get_by_email e True s = (Inr x, s1)"
    and rest: "chain (of_sum (checkpw env pw (case x of Some u \<Rightarrow> user_password_hash u
        | None \<Rightarrow> dummy_password_hash env)))
      (\<lambda>ok. ret (case x of None \<Rightarrow> None
         | Some u \<Rightarrow> if \<not> ok \<or> \<not> user_is_active u \<or> \<not> user_is_verified u then None else Some u)) s1
      = (Inr (Some u), t)"
    using assms by (auto simp: authenticate_def check_password_def Let_def chain_eq_Inr_iff)
  from user_get_by_email_pinned_Inr [OF x] rest show ?thesis
    by (cases "find_user_by_email e (working s)")
       (auto simp: chain_eq_Inr_iff split: if_splits)
qed

lemma session_create_Inr:
  assumes "session_create uid e i c s = (Inr x, t)"
  shows "x = refresh_to_entity (new_refresh uid e i c)
    \<and> insert_session (new_refresh uid e i c) (working s) = (Inr (), committed t)"
  using assms
  by (auto simp: session_create_def Let_def db_add_def chain_eq_Inr_iff elim!: transaction_Inr
      dest!: db_flush_Inr)

lemma session_create_Inl: "session_create uid e i c s = (Inl err, t) \<Longrightarrow> committed t = committed s"
proof -
  assume op: "session_create uid e i c s = (Inl err, t)"
  have "keeps same_committed (chain db_add (\<lambda>_. chain (db_flush (insert_session (new_refresh uid e i c)))
      (\<lambda>_. ret (refresh_to_entity (new_refresh uid e i c)))))"
    by (intro frame_intros)+
  from transaction_Inl [OF _ this] op show ?thesis
    by (fastforce simp: session_create_def Let_def)
qed

text \<open>
  C21: A rejected sign-in looks the same whatever the reason: for an unknown address, a wrong
  password, a deactivated and an unverified account the password is checked against one hash,
  the answer is the same 401 and the tables are untouched.
\<close>

theorem login_uniform_rejection:
  assumes "budget s = None"
    and "checkpw env pw (case find_user_by_email email (working s) of
           Some r \<Rightarrow> u_password_hash r | None \<Rightarrow> dummy_password_hash env) = Inr ok"
    and "\<not> (\<exists>r. find_user_by_email email (working s) = Some r \<and> ok \<and> u_is_active r \<and> u_is_verified r)"
  shows "auth_login env email pw now i c s =
    (Inl (Domain invalid_credentials_error), s\<lparr>force_primary := True\<rparr>)"
  using assms
  by (cases "find_user_by_email email (working s)")
     (auto simp: auth_login_def authenticate_def user_get_by_email_def check_password_def Let_def
       pinned_live)

lemma login_effect:
  "case auth_login env email pw now i c s of
     (Inr (u, x), t) \<Rightarrow>
       (\<exists>r. find_user_by_email email (working s) = Some r \<and> u = user_to_entity r
          \<and> checkpw env pw (u_password_hash r) = Inr True \<and> u_is_active r \<and> u_is_verified r
          \<and> x = refresh_to_entity (new_refresh (u_id r) (now + session_ttl env) i c)
          \<and> i \<notin> rs_id ` set (refresh_sessions (working s))
          \<and> committed t = (working s)\<lparr>refresh_sessions := refresh_sessions (working s)
                             @ [new_refresh (u_id r) (now + session_ttl env) i c]\<rparr>)
   | (Inl err, t) \<Rightarrow> committed t = committed s"
proof -
  obtain q t where op: "auth_login env email pw now i c s = (q, t)" by force
  show ?thesis
  proof (cases q)
    case (Inl e)
    obtain q1 s1 where au: "authenticate env email pw s = (q1, s1)" by force
    then have "committed s1 = committed s" by (rule keepsD [OF authenticate_frames(1)])
    moreover have "t = s1 \<or> (\<exists>uid. session_create uid (now + session_ttl env) i c s1 = (Inl e, t))"
      using op Inl au
      by (auto simp: auth_login_def chain_eq_Inl_iff split: option.splits)
    ultimately have "committed t = committed s" by (auto dest: session_create_Inl)
    with op Inl show ?thesis by simp
  next
    case (Inr y)
    obtain u x where y: "y = (u, x)" by (cases y)
    from op Inr y obtain s1 where au: "authenticate env email pw s = (Inr (Some u), s1)"
      and cr: "session_create (user_id u) (now + session_ttl env) i c s1 = (Inr x, t)"
      by (auto simp: auth_login_def chain_eq_Inr_iff split: option.splits)
    obtain r where r: "find_user_by_email email (working s) = Some r" "u = user_to_entity r"
      "checkpw env pw (u_password_hash r) = Inr True" "u_is_active r" "u_is_verified r"
      and w: "working s1 = working s"
      using authenticate_Inr [OF au] by blast
    note session_create_Inr [OF cr]
    with op Inr y r w show ?thesis by (auto simp: insert_Inr new_refresh_def)
  qed
qed

text \<open>
  A sign-in that succeeds had the right password of an active, verified account, and opened
  exactly one refresh session for it: generation 0, not revoked, with the configured lifetime.
\<close>

theorem login_opens_session:
  "case auth_login env email pw now i c s of
     (Inr (u, x), t) \<Rightarrow>
       (\<exists>r. find_user_by_email email (working s) = Some r \<and> u = user_to_entity r
          \<and> checkpw env pw (u_password_hash r) = Inr True \<and> u_is_active r \<and> u_is_verified r
          \<and> x = refresh_to_entity (new_refresh (u_id r) (now + session_ttl env) i c)
          \<and> committed t = (working s)\<lparr>refresh_sessions := refresh_sessions (working s)
                             @ [new_refresh (u_id r) (now + session_ttl env) i c]\<rparr>)
   | (Inl err, t) \<Rightarrow> committed t = committed s"
  using login_effect [where env = env and email = email and pw = pw and now = now and i = i and c = c and s = s]
  by (auto split: prod.splits sum.splits)

lemma claim_rows_stale:
  assumes "tables_ok tb" and "find_session sid tb = Some r" and "\<not> claimable sid uid g now r"
  shows "claim_rows sid uid g now tb = (Inr [], tb)"
proof -
  have no: "\<not> claimable sid uid g now q" if "q \<in> set (refresh_sessions tb)" for q
    using find_session_iff [OF assms(1), of sid] assms(2,3) that
    by (metis claimable_def option.inject)
  then have "update_where (claimable sid uid g now) (claimed now) (refresh_sessions tb) = refresh_sessions tb"
    by (rule update_where_none)
  with no show ?thesis by (auto simp: claim_rows_def Let_def filter_empty_conv)
qed

text \<open>
  C15: A replayed refresh cookie. When the session is live and the cookie's generation is not the
  current one, a replay of the generation just rotated from, within the grace window, is a 409
  that leaves the session as it is; any other replay is theft: the answer is 401 and the session
  is revoked.
\<close>

theorem refresh_replayed_cookie:
  assumes "budget s = None" and "tables_ok (working s)"
    and "find_user uid (working s) = Some ur" and "u_is_active ur" and "u_is_verified ur"
    and "find_session sid (working s) = Some r" and "rs_user_id r = uid" and "rs_revoked_at r = None"
    and "t2 < rs_expires_at r" and "rs_generation r \<noteq> g"
  shows "auth_refresh env uid sid g t1 t2 t3 t4 s =
    (if rs_generation r = g + 1
        \<and> (case rs_rotated_at r of None \<Rightarrow> False | Some t \<Rightarrow> t3 - t \<le> reuse_grace env)
     then (Inl (Domain (conflict_error ''Refresh token was just rotated; retry with the latest cookie'')),
           s\<lparr>committed := working s, force_primary := True, pending := False\<rparr>)
     else (Inl (Domain invalid_refresh_token_error),
           (let tb = snd (revoke_rows (\<lambda>q. rs_id q = sid) t4 (working s)) in
            s\<lparr>committed := tb, working := tb, force_primary := True, pending := False\<rparr>)))"
proof -
  have stale: "claim_rows sid uid g t1 (working s) = (Inr [], working s)"
    using assms by (intro claim_rows_stale) (auto simp: claimable_def)
  have rot: "session_rotate sid uid g t1 (s\<lparr>force_primary := True\<rparr>) =
      (Inr None, s\<lparr>committed := working s, force_primary := True, pending := False\<rparr>)"
    using assms(1) stale
    by (simp add: session_rotate_def transaction_def pinned_live one_or_none_def commit_def)
  have get: "session_get sid (s\<lparr>committed := working s, force_primary := True, pending := False\<rparr>) =
      (Inr (Some (refresh_to_entity r)), s\<lparr>committed := working s, force_primary := True, pending := False\<rparr>)"
    using assms(1,6) by (cases s) (simp add: session_get_def read_on_primary_only)
  have live: "is_live (refresh_to_entity r) uid t2"
    using assms by (simp add: is_live_def refresh_to_entity_def)
  have rev: "session_revoke sid t4 (s\<lparr>committed := working s, force_primary := True, pending := False\<rparr>) =
      (Inr (), (let tb = snd (revoke_rows (\<lambda>q. rs_id q = sid) t4 (working s)) in
            s\<lparr>committed := tb, working := tb, force_primary := True, pending := False\<rparr>))"
    using assms(1)
    by (simp add: session_revoke_def revoke_where_def transaction_def pinned_live commit_def
        revoke_rows_def Let_def)
  show ?thesis
    using assms(1,3-5) rot get live rev
    by (simp add: auth_refresh_def user_get_def pinned_live was_just_rotated_from_def
        refresh_to_entity_def)
qed

text \<open>
  C16: A refresh that succeeds moved the cookie's own session, live and at the cookie's
  generation, to the next generation for an active, verified user; the expiry it hands out is
  the one the sign-in set.
\<close>

theorem refresh_rotates:
  assumes "auth_refresh env uid sid g t1 t2 t3 t4 s = (Inr (u, x), t)"
  shows "\<exists>ur r. find_user uid (working s) = Some ur \<and> u = user_to_entity ur
      \<and> u_is_active ur \<and> u_is_verified ur
      \<and> r \<in> set (refresh_sessions (working s)) \<and> claimable sid uid g t1 r
      \<and> x = refresh_to_entity (claimed t1 r)
      \<and> rf_generation x = g + 1 \<and> rf_expires_at x = rs_expires_at r
      \<and> claimed t1 r \<in> set (refresh_sessions (committed t))"
proof -
  obtain v s1 where us: "user_get uid True s = (Inr (Some v), s1)" "user_is_active v" "user_is_verified v"
    and rest: "chain (session_rotate sid uid g t1) (\<lambda>rotated.
               case rotated of Some sess \<Rightarrow> ret (v, sess)
               | None \<Rightarrow>
                   chain (session_get sid) (\<lambda>current.
                     case current of None \<Rightarrow> raise (Domain invalid_refresh_token_error)
                     | Some cur \<Rightarrow>
                         if \<not> is_live cur uid t2 then raise (Domain invalid_refresh_token_error)
                         else if was_just_rotated_from env cur g t3
                         then raise (Domain (conflict_error
                                ''Refresh token was just rotated; retry with the latest cookie''))
                         else chain (session_revoke sid t4) (\<lambda>_.
                                raise (Domain invalid_refresh_token_error)))) s1 = (Inr (u, x), t)"
    using assms by (auto simp: auth_refresh_def chain_eq_Inr_iff split: option.splits if_splits)
  have rot: "session_rotate sid uid g t1 s1 = (Inr (Some x), t)" and v: "v = u"
    using rest by (auto simp: chain_eq_Inr_iff split: option.splits if_splits)
  obtain ur where ur: "find_user uid (working s) = Some ur" "v = user_to_entity ur"
    and w: "working s1 = working s"
    using user_get_pinned_Inr [OF us(1)] by auto
  obtain rows where rows: "claim_rows sid uid g t1 (working s) = (Inr rows, committed t)"
    "map refresh_to_entity rows = [x]"
    using session_rotate_Inr [OF rot] w by auto
  then obtain y where y: "rows = [y]" "x = refresh_to_entity y" by auto
  have "y \<in> set (map (claimed t1) (filter (claimable sid uid g t1) (refresh_sessions (working s))))"
    and c: "refresh_sessions (committed t) =
      update_where (claimable sid uid g t1) (claimed t1) (refresh_sessions (working s))"
  proof -
    have "committed t = snd (claim_rows sid uid g t1 (working s))"
      "rows = projr (fst (claim_rows sid uid g t1 (working s)))" using rows(1) by simp_all
    then show "refresh_sessions (committed t) =
        update_where (claimable sid uid g t1) (claimed t1) (refresh_sessions (working s))"
      "y \<in> set (map (claimed t1) (filter (claimable sid uid g t1) (refresh_sessions (working s))))"
      using y(1) by (simp_all add: claim_rows_def Let_def) (metis list.set_intros(1) set_map set_filter)
  qed
  then obtain r where r: "r \<in> set (refresh_sessions (working s))" "claimable sid uid g t1 r" "y = claimed t1 r"
    by auto
  have "claimed t1 r \<in> set (refresh_sessions (committed t))"
    unfolding c set_update_where using r(1,2) by (auto intro!: image_eqI [of _ _ r])
  then show ?thesis
    using ur us(2,3) v r y(2)
    by (intro exI [of _ ur] exI [of _ r]) (simp add: refresh_to_entity_def claimed_def claimable_def)
qed

subsection \<open>Asking for a mail\<close>

lemma flush_user_update_succeeds:
  assumes ok: "tables_ok tb" and r: "find_user i tb = Some r" and "u_email (set_fields fs r) = u_email r"
    and "SetEmail None \<notin> set fs" and "SetFullName None \<notin> set fs"
  shows "\<exists>r' tb'. flush_user_update i fs now tb = (Inr r', tb')"
proof -
  have "u_email q \<noteq> u_email r" if "q \<in> set (users tb)" "u_id q \<noteq> i" for q
  proof
    assume "u_email q = u_email r"
    moreover have "r \<in> set (users tb)" "u_id r = i" using find_user_id [OF r] by auto
    moreover have "inj_on u_email (set (users tb))" using ok by (simp add: tables_ok_def distinct_map)
    ultimately show False using that by (auto dest: inj_onD)
  qed
  then have free: "\<not> (\<exists>q \<in> set (users tb). u_id q \<noteq> i \<and> u_email q = u_email r)" by blast
  show ?thesis
    using r assms(3-5) free by (auto simp: flush_user_update_def Let_def)
qed

lemma stage_update_live:
  assumes "budget s = None" and "flush_user_update i fs now (working s) = (Inr r', tb')"
  shows "user_stage_update ot i fs now s =
    (Inr (Some (user_to_entity r')), s\<lparr>working := tb', force_primary := True, pending := False\<rparr>)"
proof -
  obtain r where "find_user i (working s) = Some r"
    using flush_user_update_Inr [OF assms(2)] by blast
  with assms show ?thesis
    by (simp add: user_stage_update_def pinned_live flush_or_raise_def db_flush_live)
qed

lemma start_password_reset_live:
  assumes "budget s = None" and ok: "tables_ok (working s)" and r: "find_user uid (working s) = Some r"
    and "ei \<notin> ob_id ` set (outbox_events (working s))"
  shows "\<exists>t. account_start_password_reset ot uid jti mail t2 ei c s = (Inr (), t)"
proof -
  obtain r' tb where f: "flush_user_update uid [SetPendingPasswordResetJti jti] t2 (working s) = (Inr r', tb)"
    using flush_user_update_succeeds [OF ok r, of "[SetPendingPasswordResetJti jti]" t2]
    by (auto simp: set_fields_def set_field_def)
  have tb: "only_users (working s) tb" using find_user_flush_update [OF f] by simp
  let ?t = "s\<lparr>working := tb, force_primary := True, pending := False\<rparr>"
  let ?u = "s\<lparr>working := tb\<lparr>outbox_events := outbox_events tb @ [new_event ''send_email_task'' mail ei c]\<rparr>,
      force_primary := True, pending := False\<rparr>"
  have up: "user_stage_update ot uid [SetPendingPasswordResetJti jti] t2 s =
      (Inr (Some (user_to_entity r')), ?t)"
    by (rule stage_update_live [OF assms(1) f])
  have "outbox_stage_add ''send_email_task'' mail ei c ?t =
      (Inr (new_event ''send_email_task'' mail ei c), ?u)"
    using assms(1,4) tb
    by (simp add: outbox_stage_add_live only_users_def)
  then have "chain (user_stage_update ot uid [SetPendingPasswordResetJti jti] t2) (\<lambda>u.
        case u of None \<Rightarrow> raise (user_not_found uid)
        | Some _ \<Rightarrow> chain (outbox_stage_add ''send_email_task'' mail ei c) (\<lambda>_. ret ())) s = (Inr (), ?u)"
    by (simp add: up)
  then show ?thesis
    using assms(1) by (simp add: account_start_password_reset_def transaction_def commit_def)
qed

text \<open>
  Asking for a reset link answers alike whether or not the address is known: it returns
  nothing in every case, and for an unknown address or a deactivated account it stores nothing.
  (The lookup may be served by the replica; the account it finds exists on the primary.)
\<close>

theorem forgot_password_answers_alike:
  assumes "budget s = None" and "replica s = Some rep" and "\<not> force_primary s"
    and "working s = committed s" and "tables_ok (committed s)"
    and "ei \<notin> ob_id ` set (outbox_events (committed s))"
    and "\<forall>r. find_user_by_email email rep = Some r \<longrightarrow> find_user (u_id r) (committed s) \<noteq> None"
  shows "fst (auth_forgot_password env email now u t2 ei c s) = Inr ()
    \<and> (\<not> (\<exists>r. find_user_by_email email rep = Some r \<and> u_is_active r) \<longrightarrow>
         snd (auth_forgot_password env email now u t2 ei c s) = s)"
proof -
  have read: "user_get_by_email email False s =
      (Inr (map_option user_to_entity (find_user_by_email email rep)), s)"
    using assms(2,3)
    by (cases s) (simp add: user_get_by_email_def db_scalar_def with_failover_def run_statement_def
        get_bind_def)
  show ?thesis
  proof (cases "find_user_by_email email rep")
    case None
    with read show ?thesis by (simp add: auth_forgot_password_def)
  next
    case (Some r)
    then obtain q where "find_user (u_id r) (working s) = Some q" using assms(4,7) by auto
    then have sent: "\<exists>t. account_start_password_reset ot (u_id r) jti mail t2 ei c s = (Inr (), t)"
      for ot jti mail
      using assms(4-6) start_password_reset_live [OF assms(1)] by simp
    show ?thesis
    proof (cases "u_is_active r")
      case True
      then have "\<exists>t. auth_forgot_password env email now u t2 ei c s = (Inr (), t)"
        using sent by (simp add: auth_forgot_password_def read Some
            create_reset_token_def Let_def)
      with True Some show ?thesis by auto
    next
      case False
      then show ?thesis by (simp add: auth_forgot_password_def read Some)
    qed
  qed
qed

end
