(* ===== verification/DeadLetter.thy ===== *)
theory DeadLetter
  imports OutboxRepo SessionRepo "HOL-Library.Product_Lexorder"
begin

section \<open>core/dead\_letter\<close>

text \<open>
  The dead-letter queue: \<open>DeadLetterJob\<close> (\<open>entity.py\<close>), \<open>DeadLetterJobRepository\<close>
  (\<open>repository.py\<close>), \<open>DeadLetterJobService\<close> (\<open>service.py\<close>) and the SAQ hook that fills it (\<open>hook.py\<close>).
  A job that SAQ gives up on becomes a row; a retry claims the row and stages a new outbox event
  in the same transaction.
\<close>

record dead_letter_job =
  dj_id :: uuid
  dj_job_key :: string
  dj_function :: string
  dj_queue_name :: string
  dj_kwargs :: "(string \<times> json) list"
  dj_status :: string
  dj_error :: "string option"
  dj_attempts :: int
  dj_failed_at :: time
  dj_retried_at :: "time option"

definition dead_to_entity :: "dead_row \<Rightarrow> dead_letter_job" where
  "dead_to_entity model =
     \<lparr>dj_id = dl_id model, dj_job_key = dl_job_key model, dj_function = dl_function model,
      dj_queue_name = dl_queue_name model, dj_kwargs = dl_kwargs model, dj_status = dl_status model,
      dj_error = dl_error model, dj_attempts = dl_attempts model, dj_failed_at = dl_failed_at model,
      dj_retried_at = dl_retried_at model\<rparr>"

definition new_dead ::
  "string \<Rightarrow> string \<Rightarrow> string \<Rightarrow> (string \<times> json) list \<Rightarrow> string \<Rightarrow> string option \<Rightarrow> int
     \<Rightarrow> uuid \<Rightarrow> time \<Rightarrow> dead_row" where
  "new_dead job_key func queue_name kwargs status error attempts new_id failed_at =
     \<lparr>dl_id = new_id, dl_job_key = job_key, dl_function = func, dl_queue_name = queue_name,
      dl_kwargs = kwargs, dl_status = status, dl_error = error, dl_attempts = attempts,
      dl_failed_at = failed_at, dl_retried_at = None\<rparr>"

subsection \<open>Repository\<close>

text \<open>
  \<open>db.refresh(model)\<close> re-reads the row just written; it is routed like any other statement of the
  session, which is pinned.
\<close>

definition refresh_dead :: "uuid \<Rightarrow> dead_row db" where
  "refresh_dead i =
     run_statement Select (\<lambda>tb. (case find_dead i tb of None \<Rightarrow> Inl (RuntimeError ''InvalidRequestError'')
                                 | Some r \<Rightarrow> Inr r, tb))"

definition dlq_record ::
  "string \<Rightarrow> string \<Rightarrow> string \<Rightarrow> (string \<times> json) list \<Rightarrow> string \<Rightarrow> string option \<Rightarrow> int
     \<Rightarrow> uuid \<Rightarrow> time \<Rightarrow> dead_letter_job db" where
  "dlq_record job_key func queue_name kwargs status error attempts new_id failed_at =
     chain (set_force_primary True) (\<lambda>_.
       (let model = new_dead job_key func queue_name kwargs status error attempts new_id failed_at in
        transaction
          (chain db_add (\<lambda>_.
           chain (db_flush (insert_dead model)) (\<lambda>_.
           chain (refresh_dead new_id) (\<lambda>row. ret (dead_to_entity row)))))))"

definition ordered_dead :: "bool \<Rightarrow> tables \<Rightarrow> dead_row list" where
  "ordered_dead unresolved_only tb =
     rev (sort_key (\<lambda>r. (dl_failed_at r, uint (dl_id r)))
       (filter (\<lambda>r. unresolved_only \<longrightarrow> dl_retried_at r = None) (dead_letter_jobs tb)))"

definition dlq_list :: "('p \<Rightarrow> dead_row list \<Rightarrow> dead_row list) \<Rightarrow> 'p \<Rightarrow> bool \<Rightarrow> dead_letter_job list db" where
  "dlq_list apaginate params unresolved_only =
     chain (db_scalars Select (\<lambda>tb. (Inr (ordered_dead unresolved_only tb), tb))) (\<lambda>rows.
     ret (map dead_to_entity (apaginate params rows)))"

definition dlq_get :: "uuid \<Rightarrow> bool \<Rightarrow> dead_letter_job option db" where
  "dlq_get job_id consistent =
     chain (if consistent then set_force_primary True else ret ()) (\<lambda>_.
     chain (db_get (find_dead job_id)) (\<lambda>model.
     ret (map_option dead_to_entity model)))"

definition retry_rows :: "uuid \<Rightarrow> time \<Rightarrow> tables \<Rightarrow> (exc + dead_row list) \<times> tables" where
  "retry_rows job_id now tb =
     (let p = (\<lambda>r. dl_id r = job_id \<and> dl_retried_at r = None);
          g = (\<lambda>r. r\<lparr>dl_retried_at := Some now\<rparr>)
      in (Inr (map g (filter p (dead_letter_jobs tb))),
          tb\<lparr>dead_letter_jobs := update_where p g (dead_letter_jobs tb)\<rparr>))"

definition dlq_retry :: "uuid \<Rightarrow> time \<Rightarrow> uuid \<Rightarrow> time \<Rightarrow> dead_letter_job option db" where
  "dlq_retry job_id now event_id created =
     chain (set_force_primary True) (\<lambda>_.
     transaction
       (chain (db_scalars Update (retry_rows job_id now)) (\<lambda>rows.
        chain (one_or_none rows) (\<lambda>model.
          case model of None \<Rightarrow> ret None
          | Some m \<Rightarrow>
              chain (outbox_stage_add (dl_function m) [(''kwargs'', JObj (dl_kwargs m))] event_id created)
                    (\<lambda>_. ret (Some (dead_to_entity m)))))))"

definition delete_dead :: "uuid \<Rightarrow> tables \<Rightarrow> (exc + unit) \<times> tables" where
  "delete_dead job_id tb =
     (Inr (), tb\<lparr>dead_letter_jobs := delete_where (\<lambda>r. dl_id r = job_id) (dead_letter_jobs tb)\<rparr>)"

text \<open>
  The row is deleted by the flush that \<open>commit()\<close> performs at the end of the transaction.
\<close>

definition dlq_delete :: "uuid \<Rightarrow> bool db" where
  "dlq_delete job_id =
     chain (set_force_primary True) (\<lambda>_.
     chain (db_get (find_dead job_id)) (\<lambda>model.
       case model of None \<Rightarrow> ret False
       | Some _ \<Rightarrow> chain (transaction (chain db_add (\<lambda>_. db_flush (delete_dead job_id)))) (\<lambda>_. ret True)))"

definition purge_dead :: "time option \<Rightarrow> bool \<Rightarrow> tables \<Rightarrow> (exc + uuid list) \<times> tables" where
  "purge_dead before only_retried tb =
     (let p = (\<lambda>r. (case before of None \<Rightarrow> True | Some b \<Rightarrow> dl_failed_at r < b)
                \<and> (only_retried \<longrightarrow> dl_retried_at r \<noteq> None))
      in (Inr (map dl_id (filter p (dead_letter_jobs tb))),
          tb\<lparr>dead_letter_jobs := delete_where p (dead_letter_jobs tb)\<rparr>))"

definition dlq_purge :: "time option \<Rightarrow> bool \<Rightarrow> nat db" where
  "dlq_purge before only_retried =
     chain (set_force_primary True) (\<lambda>_.
     transaction (chain (db_execute Delete (purge_dead before only_retried)) (\<lambda>result. ret (length result))))"

subsection \<open>Service\<close>

definition dead_not_found :: "uuid \<Rightarrow> exc" where
  "dead_not_found job_id = Domain (entity_not_found_error ''Dead-letter job'' (str_uuid job_id))"

definition dlq_service_get :: "uuid \<Rightarrow> dead_letter_job db" where
  "dlq_service_get job_id =
     chain (dlq_get job_id False) (\<lambda>row.
     case row of None \<Rightarrow> raise (dead_not_found job_id) | Some r \<Rightarrow> ret r)"

definition dlq_service_delete :: "uuid \<Rightarrow> unit db" where
  "dlq_service_delete job_id =
     chain (dlq_delete job_id) (\<lambda>found. if \<not> found then raise (dead_not_found job_id) else ret ())"

definition dlq_service_retry :: "uuid \<Rightarrow> time \<Rightarrow> uuid \<Rightarrow> time \<Rightarrow> dead_letter_job db" where
  "dlq_service_retry job_id now event_id created =
     chain (dlq_retry job_id now event_id created) (\<lambda>retried.
       case retried of Some j \<Rightarrow> ret j
       | None \<Rightarrow>
           chain (dlq_get job_id True) (\<lambda>row.
             case row of None \<Rightarrow> raise (dead_not_found job_id)
             | Some _ \<Rightarrow> raise (Domain (conflict_error ''job already retried''))))"

definition dlq_service_purge :: "time option \<Rightarrow> bool \<Rightarrow> nat db" where
  "dlq_service_purge before only_retried =
     (if before = None \<and> \<not> only_retried
      then raise (Domain (bad_request_error
             (''Specify '' @ [CHR 0x27] @ ''before'' @ [CHR 0x27] @ '' or keep '' @ [CHR 0x27]
                @ ''only_retried'' @ [CHR 0x27] @ '' true to bound the purge'')))
      else dlq_purge before only_retried)"

subsection \<open>The hook\<close>

text \<open>
  What the hook reads of a SAQ job: \<open>queue\<close> and \<open>kwargs\<close> may be unset; the status is one of the
  two the hook selects on or another, with the text of its value beside it.
\<close>

datatype job_status = StatusFailed | StatusAborted | StatusOther

record saq_job =
  sj_key :: string
  sj_function :: string
  sj_queue :: "string option"
  sj_kwargs :: "(string \<times> json) list option"
  sj_status :: job_status
  sj_status_value :: string
  sj_error :: "string option"
  sj_attempts :: int

definition dead_letter_status :: "job_status \<Rightarrow> bool" where
  "dead_letter_status st \<longleftrightarrow> st = StatusFailed \<or> st = StatusAborted"

definition record_dead_letter_job :: "saq_job \<Rightarrow> uuid \<Rightarrow> time \<Rightarrow> dead_letter_job db" where
  "record_dead_letter_job job new_id failed_at =
     dlq_record (sj_key job) (sj_function job)
       (case sj_queue job of Some n \<Rightarrow> n | None \<Rightarrow> ''default'')
       (case sj_kwargs job of Some k \<Rightarrow> k | None \<Rightarrow> [])
       (sj_status_value job) (sj_error job) (sj_attempts job) new_id failed_at"

definition record_dead_letter :: "saq_job option \<Rightarrow> uuid \<Rightarrow> time \<Rightarrow> unit db" where
  "record_dead_letter ctx_job new_id failed_at =
     (case ctx_job of None \<Rightarrow> ret ()
      | Some job \<Rightarrow>
          if \<not> dead_letter_status (sj_status job) then ret ()
          else attempt
                 (local_session (chain (record_dead_letter_job job new_id failed_at) (\<lambda>_. ret ())))
                 (\<lambda>_. ret ()))"

subsection \<open>Frames\<close>

lemma update_dead_ok:
  assumes "\<And>r. dl_id (g r) = dl_id r" and "tables_ok tb"
  shows "tables_ok (tb\<lparr>dead_letter_jobs := update_where p g (dead_letter_jobs tb)\<rparr>)"
  using assms dead_table.keys_update_where [of g p "dead_letter_jobs tb"]
  by (auto simp: tables_ok_def)

lemma dead_stmts_ok [frame_intros]:
  "stmt_rel ok_step (retry_rows j now)"
  "stmt_rel ok_step (delete_dead j)"
  "stmt_rel ok_step (purge_dead bf only)"
  by (rule stmt_okI, simp add: retry_rows_def Let_def update_dead_ok)
     (rule stmt_okI, simp add: delete_dead_def purge_dead_def tables_ok_def delete_where_def
        distinct_map_filter Let_def)+

lemma refresh_dead_frames [frame_intros]:
  "keeps same_committed (refresh_dead i)"
  "keeps pin_kept (refresh_dead i)"
  unfolding refresh_dead_def by (rule run_statement_committed run_statement_pin)+

lemma refresh_dead_staged [frame_intros]: "keeps staged_pinned_kept (refresh_dead i)"
  by (rule keepsI)
     (auto simp: refresh_dead_def run_statement_def on_primary_def staged_pinned_def get_bind_def
        Let_def split: option.split)

lemma dlq_frames [frame_intros]:
  "keeps pin_kept (dlq_record k f q kw st e a i t)"
  "keeps staged_pinned_kept (dlq_record k f q kw st e a i t)"
  "keeps pin_kept (dlq_retry j now ei c)"
  "keeps staged_pinned_kept (dlq_retry j now ei c)"
  "keeps same_committed (dlq_get j b)"
  "keeps pin_kept (dlq_get j b)"
  "keeps staged_pinned_kept (dlq_get j b)"
  "keeps pin_kept (dlq_delete j)"
  "keeps staged_pinned_kept (dlq_delete j)"
  "keeps pin_kept (dlq_purge bf only)"
  "keeps staged_pinned_kept (dlq_purge bf only)"
  unfolding dlq_record_def dlq_retry_def dlq_get_def dlq_delete_def dlq_purge_def Let_def
  by (intro frame_intros)+

context table_relation
begin

lemma kept_dlq [frame_intros]:
  "stmt_rel R (insert_dead (new_dead k f q kw st e a i t)) \<Longrightarrow>
     keeps (table_kept R) (dlq_record k f q kw st e a i t)"
  "keeps (table_kept R) (dlq_list pg ps u)"
  "keeps (table_kept R) (dlq_get j b)"
  "stmt_rel R (retry_rows j now) \<Longrightarrow> (\<And>b. stmt_rel R (insert_outbox b)) \<Longrightarrow>
     keeps (table_kept R) (dlq_retry j now ei c)"
  "stmt_rel R (delete_dead j) \<Longrightarrow> keeps (table_kept R) (dlq_delete j)"
  "stmt_rel R (purge_dead bf only) \<Longrightarrow> keeps (table_kept R) (dlq_purge bf only)"
  unfolding dlq_record_def dlq_list_def dlq_get_def dlq_retry_def dlq_delete_def dlq_purge_def
    refresh_dead_def Let_def
  by (intro frame_intros kept_run_statement | assumption)+

lemma kept_dlq_service [frame_intros]:
  "keeps (table_kept R) (dlq_service_get j)"
  "stmt_rel R (delete_dead j) \<Longrightarrow> keeps (table_kept R) (dlq_service_delete j)"
  "stmt_rel R (retry_rows j now) \<Longrightarrow> (\<And>b. stmt_rel R (insert_outbox b)) \<Longrightarrow>
     keeps (table_kept R) (dlq_service_retry j now ei c)"
  "stmt_rel R (purge_dead bf only) \<Longrightarrow> keeps (table_kept R) (dlq_service_purge bf only)"
  unfolding dlq_service_get_def dlq_service_delete_def dlq_service_retry_def dlq_service_purge_def
  by (intro frame_intros | assumption)+

lemma kept_record_dead_letter [frame_intros]:
  "(\<And>d. dl_id d = i \<Longrightarrow> stmt_rel R (insert_dead d)) \<Longrightarrow> keeps (table_kept R) (record_dead_letter job i t)"
proof -
  assume ins: "\<And>d. dl_id d = i \<Longrightarrow> stmt_rel R (insert_dead d)"
  have "stmt_rel R (insert_dead (new_dead k f q kw st e a i t))" for k f q kw st e a
    by (rule ins) (simp add: new_dead_def)
  then show ?thesis
    unfolding record_dead_letter_def record_dead_letter_job_def by (intro frame_intros | assumption)+
qed

end

subsection \<open>A job is retried once\<close>

text \<open>
  \<open>retries_stay job\<close>: the row of \<open>job\<close>, where it is still there, was there before, and once marked
  retried stays marked.
\<close>

definition retries_stay :: "uuid \<Rightarrow> tables \<Rightarrow> tables \<Rightarrow> bool" where
  "retries_stay job tb tb' \<longleftrightarrow>
     (\<forall>r' \<in> set (dead_letter_jobs tb'). dl_id r' = job \<longrightarrow>
        (\<exists>r \<in> set (dead_letter_jobs tb). dl_id r = job
           \<and> (dl_retried_at r \<noteq> None \<longrightarrow> dl_retried_at r' = dl_retried_at r)))"

interpretation retries: table_relation "retries_stay job" for job
proof
  fix tb tb' tb''
  show "retries_stay job tb tb" by (auto simp: retries_stay_def)
  assume "retries_stay job tb tb'" "retries_stay job tb' tb''"
  then show "retries_stay job tb tb''" unfolding retries_stay_def by metis
qed

lemma retry_rows_memE:
  assumes "retry_rows job now tb = (r, tb')" and "x \<in> set (dead_letter_jobs tb')"
  obtains q where "q \<in> set (dead_letter_jobs tb)"
    "x = (if dl_id q = job \<and> dl_retried_at q = None then q\<lparr>dl_retried_at := Some now\<rparr> else q)"
proof -
  have "x \<in> set (update_where (\<lambda>r. dl_id r = job \<and> dl_retried_at r = None)
      (\<lambda>r. r\<lparr>dl_retried_at := Some now\<rparr>) (dead_letter_jobs tb))"
    using assms by (auto simp: retry_rows_def Let_def)
  then show ?thesis by (rule update_where_memE) (rule that)
qed

lemma retries_stay_retry: "stmt_rel (retries_stay job) (retry_rows j now)"
proof (rule stmt_relI)
  fix tb r tb'
  assume f: "retry_rows j now tb = (r, tb')"
  show "retries_stay job tb tb'"
    unfolding retries_stay_def
  proof (intro ballI impI)
    fix x
    assume x: "x \<in> set (dead_letter_jobs tb')" "dl_id x = job"
    obtain q where "q \<in> set (dead_letter_jobs tb)"
      "x = (if dl_id q = j \<and> dl_retried_at q = None then q\<lparr>dl_retried_at := Some now\<rparr> else q)"
      using retry_rows_memE [OF f x(1)] by blast
    with x(2) show "\<exists>r \<in> set (dead_letter_jobs tb). dl_id r = job
        \<and> (dl_retried_at r \<noteq> None \<longrightarrow> dl_retried_at x = dl_retried_at r)"
      by (intro bexI [of _ q]) (auto split: if_splits)
  qed
qed

lemma retries_stay_stmts [frame_intros]:
  "stmt_rel (retries_stay job) (delete_dead j)"
  "stmt_rel (retries_stay job) (purge_dead bf only)"
  "dl_id d \<noteq> job \<Longrightarrow> stmt_rel (retries_stay job) (insert_dead d)"
  "stmt_rel (retries_stay job) (insert_user u)"
  "stmt_rel (retries_stay job) (insert_session s)"
  "stmt_rel (retries_stay job) (insert_revoked r)"
  "stmt_rel (retries_stay job) (insert_outbox b)"
  by (auto simp: stmt_rel_def retries_stay_def delete_dead_def purge_dead_def Let_def
      set_delete_where insert_defs)

declare retries_stay_retry [frame_intros]

definition job_retried :: "uuid \<Rightarrow> tables \<Rightarrow> bool" where
  "job_retried job tb \<longleftrightarrow>
     (\<forall>r \<in> set (dead_letter_jobs tb). dl_id r = job \<longrightarrow> dl_retried_at r \<noteq> None)"

lemma job_retried_stays: "job_retried job tb \<Longrightarrow> retries_stay job tb tb' \<Longrightarrow> job_retried job tb'"
  unfolding job_retried_def retries_stay_def by metis

lemma retry_rows_retried: "retry_rows job now tb = (Inr rows, tb') \<Longrightarrow> job_retried job tb'"
proof -
  assume f: "retry_rows job now tb = (Inr rows, tb')"
  have "dl_retried_at r \<noteq> None" if r: "r \<in> set (dead_letter_jobs tb')" "dl_id r = job" for r
  proof -
    obtain q where q: "r = (if dl_id q = job \<and> dl_retried_at q = None then q\<lparr>dl_retried_at := Some now\<rparr> else q)"
      using retry_rows_memE [OF f r(1)] by blast
    show ?thesis
      using r(2) unfolding q by (cases "dl_retried_at q") (simp_all split: if_splits)
  qed
  then show ?thesis by (simp add: job_retried_def)
qed

lemma retry_rows_single:
  assumes "retry_rows job now tb = (Inr [m], tb1)"
  shows "\<exists>m0 \<in> set (dead_letter_jobs tb). dl_id m0 = job \<and> dl_retried_at m0 = None
    \<and> m = m0\<lparr>dl_retried_at := Some now\<rparr> \<and> outbox_events tb1 = outbox_events tb"
proof -
  have "m \<in> set (map (\<lambda>r. r\<lparr>dl_retried_at := Some now\<rparr>)
      (filter (\<lambda>r. dl_id r = job \<and> dl_retried_at r = None) (dead_letter_jobs tb)))"
    and o: "outbox_events tb1 = outbox_events tb"
    using assms by (auto simp: retry_rows_def Let_def)
  then obtain m0 where "m0 \<in> set (dead_letter_jobs tb)" "dl_id m0 = job" "dl_retried_at m0 = None"
    "m = m0\<lparr>dl_retried_at := Some now\<rparr>" by (simp only: set_map set_filter) blast
  with o show ?thesis by blast
qed

lemma job_retried_refuses: "job_retried job tb \<Longrightarrow> retry_rows job now tb = (Inr [], tb)"
proof -
  assume "job_retried job tb"
  then have no: "\<And>r. r \<in> set (dead_letter_jobs tb) \<Longrightarrow> \<not> (dl_id r = job \<and> dl_retried_at r = None)"
    by (auto simp: job_retried_def)
  then have "update_where (\<lambda>r. dl_id r = job \<and> dl_retried_at r = None)
      (\<lambda>r. r\<lparr>dl_retried_at := Some now\<rparr>) (dead_letter_jobs tb) = dead_letter_jobs tb"
    by (rule update_where_none)
  with no show ?thesis by (auto simp: retry_rows_def Let_def filter_empty_conv)
qed

lemma dlq_retry_Inr:
  assumes "dlq_retry job now ei c s = (Inr x, t)"
  shows "\<exists>rows tb1. retry_rows job now (working s) = (Inr rows, tb1) \<and> working t = committed t
    \<and> force_primary t \<and> replica t = replica s
    \<and> (case x of None \<Rightarrow> rows = [] \<and> committed t = tb1
       | Some j \<Rightarrow> \<exists>m. rows = [m] \<and> j = dead_to_entity m
           \<and> insert_outbox (new_event (dl_function m) [(''kwargs'', JObj (dl_kwargs m))] ei c) tb1
               = (Inr (), committed t))"
proof -
  obtain u where body: "chain (db_scalars Update (retry_rows job now)) (\<lambda>rows.
        chain (one_or_none rows) (\<lambda>model.
          case model of None \<Rightarrow> ret None
          | Some m \<Rightarrow>
              chain (outbox_stage_add (dl_function m) [(''kwargs'', JObj (dl_kwargs m))] ei c)
                    (\<lambda>_. ret (Some (dead_to_entity m)))))
      (s\<lparr>force_primary := True\<rparr>) = (Inr x, u)"
    and c: "committed t = working u" "working t = working u"
    and fin: "commit u = (Inr (), t)"
    using assms
    by (auto simp: dlq_retry_def transaction_def attempt_eq_Inr_iff chain_eq_Inr_iff rollback_def commit_def
        split: if_splits)
  have "force_primary t = force_primary u" "replica t = replica u"
    using fin by (auto simp: commit_def split: if_splits)
  with body c show ?thesis
    by (auto simp: chain_eq_Inr_iff pinned_step_def split: option.splits
        dest!: pinned_scalars_Inr one_or_none_Inr outbox_stage_add_Inr)
qed

text \<open>
  One attempt to retry \<open>job\<close>, as a step of the durable tables; its outcome is whether the caller
  was handed the job, and so whether an event was staged for it.
\<close>

definition retry_attempt :: "uuid \<Rightarrow> tables \<Rightarrow> bool \<Rightarrow> tables \<Rightarrow> bool" where
  "retry_attempt job tb b tb' \<longleftrightarrow>
     (\<exists>s r t now ei c. committed s = tb \<and> working s = tb \<and> dlq_retry job now ei c s = (r, t)
        \<and> tb' = committed t \<and> b = (\<exists>x. r = Inr (Some x)))"

definition retry_step :: "uuid \<Rightarrow> tables \<Rightarrow> tables \<Rightarrow> bool" where
  "retry_step job tb tb' \<longleftrightarrow> retries_stay job tb tb' \<and> ok_step tb tb'"

lemma retry_attempt_step: "retry_attempt job tb b tb' \<Longrightarrow> retry_step job tb tb'"
proof -
  assume "retry_attempt job tb b tb'"
  then obtain s r t now ei c where s: "committed s = tb" "working s = tb"
    and t: "dlq_retry job now ei c s = (r, t)" "tb' = committed t"
    by (auto simp: retry_attempt_def)
  have "keeps (table_kept (retries_stay job)) (dlq_retry job now ei c)"
    "keeps (table_kept ok_step) (dlq_retry job now ei c)"
    by (intro frame_intros)+
  from retries.kept_durable [OF this(1) t(1)] ok.kept_durable [OF this(2) t(1)] show ?thesis
    by (simp add: retry_step_def s t(2) retries.R_refl ok.R_refl)
qed

lemma retry_attempt_claims:
  assumes "retry_attempt job tb True tb'"
  shows "job_retried job tb' \<and> \<not> job_retried job tb"
proof -
  obtain s x t now ei c where s: "working s = tb" "tb' = committed t"
    and t: "dlq_retry job now ei c s = (Inr (Some x), t)"
    using assms by (auto simp: retry_attempt_def)
  obtain m tb1 where m: "retry_rows job now tb = (Inr [m], tb1)"
    "insert_outbox (new_event (dl_function m) [(''kwargs'', JObj (dl_kwargs m))] ei c) tb1 = (Inr (), tb')"
    using dlq_retry_Inr [OF t] s by auto
  have "job_retried job tb'"
    using retry_rows_retried [OF m(1)] m(2) by (auto simp: insert_Inr job_retried_def)
  moreover have "\<not> job_retried job tb"
    using job_retried_refuses [of job tb now] m(1) by auto
  ultimately show ?thesis by blast
qed

interpretation dlq_claim: claim_once "retry_attempt job" "retry_step job" tables_ok "job_retried job"
  for job
proof
  show "job_retried job y" if "tables_ok x" "retry_attempt job x True y" for x y
    using that retry_attempt_claims by blast
  show "\<not> b \<and> job_retried job y"
    if "tables_ok x" "job_retried job x" "retry_attempt job x b y" for x b y
  proof
    show "\<not> b" using that retry_attempt_claims by (cases b) auto
    show "job_retried job y"
      using that retry_attempt_step job_retried_stays by (auto simp: retry_step_def)
  qed
  show "job_retried job y" if "tables_ok x" "job_retried job x" "retry_step job x y" for x y
    using that job_retried_stays by (auto simp: retry_step_def)
  show "tables_ok y" if "tables_ok x" "retry_attempt job x b y" for x b y
    using that retry_attempt_step by (auto simp: retry_step_def ok_step_def)
  show "tables_ok y" if "tables_ok x" "retry_step job x y" for x y
    using that by (auto simp: retry_step_def ok_step_def)
qed

subsection \<open>Properties\<close>

text \<open>
  A retry is one unit. When the service hands back the job, its row is marked and exactly
  one new event, with the job's function and arguments, waits in the outbox; when it raises, it
  has made nothing of its own durable (for an unknown or already retried job only what the
  caller had staged before is committed).
\<close>

theorem dlq_retry_one_unit:
  "case dlq_service_retry job now ei c s of
     (Inr x, t) \<Rightarrow>
       (\<exists>m \<in> set (dead_letter_jobs (working s)). dl_id m = job \<and> dl_retried_at m = None
          \<and> x = dead_to_entity (m\<lparr>dl_retried_at := Some now\<rparr>)
          \<and> outbox_events (committed t) = outbox_events (working s)
              @ [new_event (dl_function m) [(''kwargs'', JObj (dl_kwargs m))] ei c])
     \<and> job_retried job (committed t)
   | (Inl err, t) \<Rightarrow> committed t = committed s \<or> (job_retried job (working s) \<and> committed t = working s)"
proof -
  obtain r t where op: "dlq_service_retry job now ei c s = (r, t)" by force
  obtain q s1 where r1: "dlq_retry job now ei c s = (q, s1)" by force
  show ?thesis
  proof (cases q)
    case (Inl e)
    have "keeps same_committed (chain (db_scalars Update (retry_rows job now)) (\<lambda>rows.
        chain (one_or_none rows) (\<lambda>model.
          case model of None \<Rightarrow> ret None
          | Some m \<Rightarrow>
              chain (outbox_stage_add (dl_function m) [(''kwargs'', JObj (dl_kwargs m))] ei c)
                    (\<lambda>_. ret (Some (dead_to_entity m))))))"
      by (intro frame_intros)+
    with r1 Inl have "committed s1 = committed s"
      by (auto simp: dlq_retry_def dest: transaction_Inl)
    with r1 Inl op show ?thesis by (auto simp: dlq_service_retry_def)
  next
    case (Inr y)
    note R = dlq_retry_Inr [OF r1 [unfolded Inr]]
    show ?thesis
    proof (cases y)
      case None
      with R have "retry_rows job now (working s) = (Inr [], committed s1)" by auto
      then have "committed s1 = working s \<and> job_retried job (working s)"
        by (auto simp: retry_rows_def Let_def job_retried_def filter_empty_conv update_where_none)
      moreover have "keeps same_committed (chain (dlq_get job True) (\<lambda>row.
             case row of None \<Rightarrow> raise (dead_not_found job)
             | Some _ \<Rightarrow> raise (Domain (conflict_error ''job already retried''))))"
        by (intro frame_intros)+
      moreover have "chain (dlq_get job True) (\<lambda>row.
             case row of None \<Rightarrow> raise (dead_not_found job)
             | Some _ \<Rightarrow> raise (Domain (conflict_error ''job already retried''))) s1 = (r, t)"
        using op r1 Inr None by (simp add: dlq_service_retry_def)
      ultimately have "committed t = working s \<and> job_retried job (working s)"
        by (auto dest: keepsD)
      moreover have "\<exists>e. r = Inl e"
        using op r1 Inr None
        by (cases r) (auto simp: dlq_service_retry_def chain_eq_Inr_iff split: option.splits)
      ultimately show ?thesis using op by auto
    next
      case (Some j)
      with R obtain m tb1 where m: "retry_rows job now (working s) = (Inr [m], tb1)" "j = dead_to_entity m"
        "insert_outbox (new_event (dl_function m) [(''kwargs'', JObj (dl_kwargs m))] ei c) tb1
           = (Inr (), committed s1)" by auto
      obtain m0 where m0: "m0 \<in> set (dead_letter_jobs (working s))" "dl_id m0 = job"
        "dl_retried_at m0 = None" "m = m0\<lparr>dl_retried_at := Some now\<rparr>"
        and tb1: "outbox_events tb1 = outbox_events (working s)"
        using retry_rows_single [OF m(1)] by blast
      have "job_retried job (committed s1)"
        using retry_rows_retried [OF m(1)] m(3) by (auto simp: insert_Inr job_retried_def)
      moreover have "r = Inr j" "t = s1" using op r1 Inr Some by (auto simp: dlq_service_retry_def)
      ultimately show ?thesis using op m(2,3) m0 tb1 by (auto simp: insert_Inr intro!: bexI [of _ m0])
    qed
  qed
qed

text \<open>
  A purge is bounded. It refuses to run without a bound; otherwise it deletes exactly the
  rows its bounds select and counts them, so that with \<open>only_retried\<close> no job that was never
  retried is lost. A failure deletes nothing.
\<close>

theorem dlq_purge_bounded:
  "case dlq_service_purge before only s of
     (Inr n, t) \<Rightarrow>
       (let p = (\<lambda>r. (case before of None \<Rightarrow> True | Some b \<Rightarrow> dl_failed_at r < b)
                  \<and> (only \<longrightarrow> dl_retried_at r \<noteq> None)) in
        (before \<noteq> None \<or> only)
      \<and> n = length (filter p (dead_letter_jobs (working s)))
      \<and> dead_letter_jobs (committed t) = filter (\<lambda>r. \<not> p r) (dead_letter_jobs (working s)))
   | (Inl err, t) \<Rightarrow> committed t = committed s"
proof -
  let ?body = "chain (db_execute Delete (purge_dead before only)) (\<lambda>result. ret (length result))"
  obtain r t where op: "dlq_service_purge before only s = (r, t)" by force
  show ?thesis
  proof (cases "before = None \<and> \<not> only")
    case True
    then show ?thesis by (simp add: dlq_service_purge_def)
  next
    case False
    with op have tr: "transaction ?body (s\<lparr>force_primary := True\<rparr>) = (r, t)"
      by (auto simp: dlq_service_purge_def dlq_purge_def)
    show ?thesis
    proof (cases r)
      case (Inl e)
      have "keeps same_committed ?body" by (intro frame_intros)+
      with transaction_Inl tr Inl have "committed t = committed s" by fastforce
      with op Inl show ?thesis by simp
    next
      case (Inr n)
      with tr obtain u where u: "?body (s\<lparr>force_primary := True\<rparr>) = (Inr n, u)" "committed t = working u"
        by (auto elim: transaction_Inr)
      then obtain ids where ids: "purge_dead before only (working s) = (Inr ids, working u)" "n = length ids"
        by (auto simp: chain_eq_Inr_iff dest!: pinned_execute_Inr)
      have "working u = snd (purge_dead before only (working s))"
        and "n = length (case fst (purge_dead before only (working s)) of Inl e \<Rightarrow> [] | Inr l \<Rightarrow> l)"
        using ids by simp_all
      with u(2) op Inr False show ?thesis
        by (simp add: purge_dead_def Let_def delete_where_def)
    qed
  qed
qed

definition job_row :: "saq_job \<Rightarrow> uuid \<Rightarrow> time \<Rightarrow> dead_row" where
  "job_row job i failed_at =
     new_dead (sj_key job) (sj_function job)
       (case sj_queue job of Some n \<Rightarrow> n | None \<Rightarrow> ''default'')
       (case sj_kwargs job of Some k \<Rightarrow> k | None \<Rightarrow> [])
       (sj_status_value job) (sj_error job) (sj_attempts job) i failed_at"

text \<open>
  The hook never raises, and it writes a row only for a job that failed or was aborted for
  good: either that one row or, when the database is failing, nothing. On a connection that
  answers the row is there.
\<close>

theorem dead_letter_hook_records:
  "\<exists>t. record_dead_letter ctx_job i failed_at s = (Inr (), t)
     \<and> (let stored = (committed s)\<lparr>dead_letter_jobs := dead_letter_jobs (committed s)
                        @ [job_row (the ctx_job) i failed_at]\<rparr> in
        (case ctx_job of None \<Rightarrow> committed t = committed s
         | Some job \<Rightarrow>
             if dead_letter_status (sj_status job)
             then committed t \<in> {committed s, stored}
                \<and> (budget s = None \<and> i \<notin> dl_id ` set (dead_letter_jobs (committed s))
                     \<longrightarrow> committed t = stored)
             else committed t = committed s))"
proof (cases "\<exists>job. ctx_job = Some job \<and> dead_letter_status (sj_status job)")
  case False
  then show ?thesis
    by (auto simp: record_dead_letter_def split: option.split)
next
  case True
  then obtain job where job: "ctx_job = Some job" "dead_letter_status (sj_status job)" by blast
  let ?s = "s\<lparr>working := committed s, pending := False, force_primary := True\<rparr>"
  let ?row = "job_row job i failed_at"
  let ?body = "chain db_add (\<lambda>_. chain (db_flush (insert_dead ?row)) (\<lambda>_.
     chain (refresh_dead i) (\<lambda>row. ret (dead_to_entity row))))"
  let ?stored = "(committed s)\<lparr>dead_letter_jobs := dead_letter_jobs (committed s) @ [?row]\<rparr>"
  obtain r t where tr: "transaction ?body ?s = (r, t)" by force
  have op: "record_dead_letter ctx_job i failed_at s =
      (Inr (), t\<lparr>working := committed t, pending := False\<rparr>)"
  proof -
    have "record_dead_letter_job job i failed_at (s\<lparr>working := committed s, pending := False\<rparr>) = (r, t)"
      using tr by (simp add: record_dead_letter_job_def dlq_record_def job_row_def)
    with job show ?thesis
      by (cases r) (simp_all add: record_dead_letter_def local_session_def attempt_def ensure_def)
  qed
  have either: "committed t \<in> {committed s, ?stored}"
  proof (cases r)
    case (Inl e)
    have "keeps same_committed ?body" by (intro frame_intros)+
    with transaction_Inl tr Inl show ?thesis by fastforce
  next
    case (Inr x)
    with tr obtain u where u: "?body ?s = (Inr x, u)" "committed t = working u"
      by (auto elim: transaction_Inr)
    then show ?thesis
      by (auto simp: chain_eq_Inr_iff db_add_def insert_Inr refresh_dead_def run_statement_pinned
          pinned_step_def on_primary_def split: if_splits prod.splits dest!: db_flush_Inr)
  qed
  have "committed t = ?stored" if "budget s = None" "i \<notin> dl_id ` set (dead_letter_jobs (committed s))"
  proof -
    have rid: "dl_id ?row = i" by (simp add: job_row_def new_dead_def)
    have "find (\<lambda>r. dl_id r = i) (dead_letter_jobs (committed s)) = None"
      using that(2) by (auto simp: find_None_iff)
    then have "find_dead i ?stored = Some ?row"
      by (simp add: find_dead_def dead_table.find_append_new rid)
    then have "?body ?s = (Inr (dead_to_entity ?row),
        s\<lparr>working := ?stored, pending := False, force_primary := True\<rparr>)"
      using that
      by (simp add: db_add_def chain_def db_flush_live insert_dead_def rid
          refresh_dead_def run_statement_pinned on_primary_live)
    then show ?thesis
      using tr that(1) by (auto simp: transaction_def commit_def)
  qed
  with op either job show ?thesis by simp
qed

end
