(* ===== verification/Relay.thy ===== *)
theory Relay
  imports World OutboxRepo Settings
begin

section \<open>core/outbox/relay.py and core/queue.py\<close>

text \<open>
  The relay takes the oldest pending events, hands each to the task queue and records the outcome
  on its row. SAQ's queue is a parameter: \<open>enqueue\<close> maps its state and a job to the new state and
  to an error or nothing; \<open>repr_exc\<close> is Python's \<open>repr\<close> of an exception. \<open>locked\<close> are the rows
  another relay holds (\<open>skip_locked\<close>), and \<open>clock k\<close> is \<open>datetime.now()\<close> at the \<open>k\<close>-th selected row.
  PostgreSQL may return rows of equal \<open>created_at\<close> in any order; here they keep the table's.
\<close>

record job_spec =
  js_function :: string
  js_key :: string
  js_retries :: int
  js_retry_delay :: time
  js_retry_backoff :: bool
  js_kwargs :: "(string \<times> json) list"

type_synonym 'q queue_op = "'q \<Rightarrow> job_spec \<Rightarrow> (exc + unit) \<times> 'q"

text \<open>
  \<open>enqueue_task(task_name, *, key, **kwargs)\<close>: a payload key that repeats a parameter of this call or
  of the inner one is a \<open>TypeError\<close> before anything is sent.
\<close>

definition enqueue_task ::
  "settings \<Rightarrow> 'q queue_op \<Rightarrow> string \<Rightarrow> string \<Rightarrow> (string \<times> json) list \<Rightarrow> 'q \<Rightarrow> (exc + unit) \<times> 'q" where
  "enqueue_task st enqueue task_name key kwargs q =
     (if \<exists>p \<in> set kwargs. fst p \<in> {''task_name'', ''key'', ''retries'', ''retry_delay'', ''retry_backoff''}
      then (Inl (TypeError ''got multiple values for keyword argument''), q)
      else enqueue q \<lparr>js_function = task_name, js_key = key, js_retries = task_max_retries st,
                      js_retry_delay = task_retry_delay st, js_retry_backoff = task_retry_backoff st,
                      js_kwargs = kwargs\<rparr>)"

definition outbox_key :: "outbox_row \<Rightarrow> string" where
  "outbox_key row = ''outbox:'' @ str_uuid (ob_id row)"

subsection \<open>One row\<close>

definition mark_dispatched :: "time \<Rightarrow> outbox_row \<Rightarrow> outbox_row" where
  "mark_dispatched now row = row\<lparr>ob_dispatched_at := Some now\<rparr>"

definition mark_failed :: "settings \<Rightarrow> time \<Rightarrow> string \<Rightarrow> outbox_row \<Rightarrow> outbox_row" where
  "mark_failed st now err row =
     (let row1 = row\<lparr>ob_attempts := ob_attempts row + 1, ob_last_error := Some (take 1000 err)\<rparr> in
      if ob_attempts row1 \<ge> outbox_max_attempts st then row1\<lparr>ob_failed_at := Some now\<rparr> else row1)"

definition dispatch_row ::
  "settings \<Rightarrow> (exc \<Rightarrow> string) \<Rightarrow> 'q queue_op \<Rightarrow> time \<Rightarrow> outbox_row \<Rightarrow> 'q \<Rightarrow> (outbox_row \<times> bool) \<times> 'q" where
  "dispatch_row st repr_exc enqueue now row q =
     (case enqueue_task st enqueue (ob_task_name row) (outbox_key row) (ob_payload row) q of
        (Inr _, q') \<Rightarrow> ((mark_dispatched now row, True), q')
      | (Inl e, q') \<Rightarrow> ((mark_failed st now (repr_exc e) row, False), q'))"

text \<open>The loop over the selected rows.\<close>

fun dispatch_rows ::
  "settings \<Rightarrow> (exc \<Rightarrow> string) \<Rightarrow> 'q queue_op \<Rightarrow> (nat \<Rightarrow> time) \<Rightarrow> nat \<Rightarrow> outbox_row list \<Rightarrow> 'q
     \<Rightarrow> (outbox_row \<times> bool) list \<times> 'q" where
  "dispatch_rows st repr_exc enqueue clock k [] q = ([], q)"
| "dispatch_rows st repr_exc enqueue clock k (row # rows) q =
     (case dispatch_row st repr_exc enqueue (clock k) row q of (o1, q1) \<Rightarrow>
        (case dispatch_rows st repr_exc enqueue clock (Suc k) rows q1 of (os, q2) \<Rightarrow> (o1 # os, q2)))"

subsection \<open>The batch\<close>

definition select_batch :: "uuid set \<Rightarrow> nat \<Rightarrow> tables \<Rightarrow> outbox_row list" where
  "select_batch locked batch_size tb =
     take batch_size (sort_key ob_created_at
       (filter (\<lambda>r. event_pending r \<and> ob_id r \<notin> locked) (outbox_events tb)))"

text \<open>The flush of the changed rows that \<open>commit()\<close> performs.\<close>

definition write_row :: "outbox_row list \<Rightarrow> outbox_row \<Rightarrow> outbox_row" where
  "write_row rows r = (case find (\<lambda>x. ob_id x = ob_id r) rows of Some x \<Rightarrow> x | None \<Rightarrow> r)"

definition write_rows :: "outbox_row list \<Rightarrow> tables \<Rightarrow> (exc + unit) \<times> tables" where
  "write_rows rows tb = (Inr (), tb\<lparr>outbox_events := map (write_row rows) (outbox_events tb)\<rparr>)"

definition dispatch_pending ::
  "settings \<Rightarrow> (exc \<Rightarrow> string) \<Rightarrow> 'q queue_op \<Rightarrow> uuid set \<Rightarrow> (nat \<Rightarrow> time) \<Rightarrow> nat
     \<Rightarrow> session \<times> 'q \<Rightarrow> (exc + nat \<times> nat) \<times> session \<times> 'q" where
  "dispatch_pending st repr_exc enqueue locked clock batch_size =
     (\<lambda>(s, q).
        case chain (set_force_primary True)
               (\<lambda>_. db_execute Select (\<lambda>tb. (Inr (select_batch locked batch_size tb), tb))) s of
          (Inl e, s1) \<Rightarrow> (Inl e, s1, q)
        | (Inr rows, s1) \<Rightarrow>
            (case dispatch_rows st repr_exc enqueue clock 0 rows q of (outs, q') \<Rightarrow>
               (case chain (if rows = [] then ret () else db_flush (write_rows (map fst outs)))
                           (\<lambda>_. commit) s1 of
                  (Inl e, s2) \<Rightarrow> (Inl e, s2, q')
                | (Inr _, s2) \<Rightarrow>
                    (Inr (length (filter snd outs), length (filter (\<lambda>p. \<not> snd p) outs)), s2, q'))))"

subsection \<open>Retention\<close>

definition delete_dispatched :: "time \<Rightarrow> tables \<Rightarrow> (exc + uuid list) \<times> tables" where
  "delete_dispatched cutoff tb =
     (let p = (\<lambda>r. case ob_dispatched_at r of None \<Rightarrow> False | Some t \<Rightarrow> t < cutoff)
      in (Inr (map ob_id (filter p (outbox_events tb))),
          tb\<lparr>outbox_events := delete_where p (outbox_events tb)\<rparr>))"

definition cleanup_dispatched :: "settings \<Rightarrow> time \<Rightarrow> nat db" where
  "cleanup_dispatched st now =
     chain (set_force_primary True) (\<lambda>_.
     chain (db_execute Delete (delete_dispatched (now - days (outbox_retention_days st)))) (\<lambda>deleted.
     chain commit (\<lambda>_. ret (length deleted))))"

subsection \<open>The loop\<close>

definition relay_heartbeat_key :: string where "relay_heartbeat_key = ''outbox:relay:heartbeat''"

definition relay_heartbeat_ttl :: "settings \<Rightarrow> int" where
  "relay_heartbeat_ttl st = max 30 (6 * outbox_poll_interval st div 1000000)"

record 'q relay =
  r_db :: session
  r_queue :: 'q
  r_redis :: redis
  r_failures :: nat

text \<open>
  One turn of \<open>relay_loop\<close> (the sleep between turns and the log lines apart): a session of its own,
  the dispatch, the heartbeat; any exception is counted, a turn without one resets the count.
\<close>

definition relay_turn ::
  "settings \<Rightarrow> (exc \<Rightarrow> string) \<Rightarrow> 'q queue_op \<Rightarrow> uuid set \<Rightarrow> (nat \<Rightarrow> time) \<Rightarrow> time \<Rightarrow> 'q relay \<Rightarrow> 'q relay" where
  "relay_turn st repr_exc enqueue locked clock rnow w =
     (let s0 = (r_db w)\<lparr>working := committed (r_db w), pending := False\<rparr> in
      case dispatch_pending st repr_exc enqueue locked clock (outbox_batch_size st) (s0, r_queue w) of
        (res, s1, q1) \<Rightarrow>
          (let w1 = w\<lparr>r_db := s1\<lparr>working := committed s1, pending := False\<rparr>, r_queue := q1\<rparr> in
           case res of
             Inl e \<Rightarrow> w1\<lparr>r_failures := r_failures w + 1\<rparr>
           | Inr counts \<Rightarrow>
               (case redis_set rnow relay_heartbeat_key ''1'' (Some (seconds (relay_heartbeat_ttl st)))
                       (r_redis w) of
                  (Inl e, rd) \<Rightarrow> w1\<lparr>r_redis := rd, r_failures := r_failures w + 1\<rparr>
                | (Inr _, rd) \<Rightarrow> w1\<lparr>r_redis := rd, r_failures := 0\<rparr>)))"

subsection \<open>The rows of a batch\<close>

lemma mark_ids [simp]:
  "ob_id (mark_dispatched now r) = ob_id r" "ob_id (mark_failed st now e r) = ob_id r"
  by (simp_all add: mark_dispatched_def mark_failed_def Let_def)

text \<open>What a selected row becomes.\<close>

definition row_outcome :: "settings \<Rightarrow> outbox_row \<Rightarrow> outbox_row \<times> bool \<Rightarrow> bool" where
  "row_outcome st r out \<longleftrightarrow>
     (\<exists>now e. out = (mark_dispatched now r, True) \<or> out = (mark_failed st now e r, False))"

lemma dispatch_row_outcome:
  "dispatch_row st rp enq now r q = (out, q') \<Longrightarrow> row_outcome st r out \<and> ob_id (fst out) = ob_id r"
  by (auto simp: dispatch_row_def row_outcome_def split: prod.splits sum.splits)

lemma dispatch_rows_outcome:
  "dispatch_rows st rp enq clock k rows q = (outs, q') \<Longrightarrow>
     list_all2 (row_outcome st) rows outs \<and> map (ob_id \<circ> fst) outs = map ob_id rows"
proof (induction rows arbitrary: k q outs q')
  case (Cons r rows)
  obtain o1 q1 where 1: "dispatch_row st rp enq (clock k) r q = (o1, q1)"
    by (rule prod.exhaust)
  obtain os q2 where 2: "dispatch_rows st rp enq clock (Suc k) rows q1 = (os, q2)"
    by (rule prod.exhaust)
  from 1 2 Cons.prems have "outs = o1 # os" by simp
  with dispatch_row_outcome [OF 1] Cons.IH [OF 2] show ?case by simp
qed simp

lemma select_batch_props:
  "set (select_batch locked n tb) \<subseteq> {r \<in> set (outbox_events tb). event_pending r \<and> ob_id r \<notin> locked}"
  "length (select_batch locked n tb) =
     min n (length (filter (\<lambda>r. event_pending r \<and> ob_id r \<notin> locked) (outbox_events tb)))"
  "sorted (map ob_created_at (select_batch locked n tb))"
  unfolding select_batch_def
  by (auto dest!: in_set_takeD simp: take_map [symmetric] sorted_wrt_take simp del: take_map)

lemma select_batch_distinct:
  "tables_ok tb \<Longrightarrow> distinct (map ob_id (select_batch locked n tb))"
proof -
  assume "tables_ok tb"
  then have "distinct (map ob_id (filter (\<lambda>r. event_pending r \<and> ob_id r \<notin> locked) (outbox_events tb)))"
    by (simp add: tables_ok_def distinct_map_filter)
  then have "distinct (map ob_id (sort_key ob_created_at
      (filter (\<lambda>r. event_pending r \<and> ob_id r \<notin> locked) (outbox_events tb))))"
    by (simp add: distinct_map)
  then show ?thesis by (simp add: select_batch_def take_map [symmetric])
qed

text \<open>No event that was passed over is older than one that was taken.\<close>

lemma select_batch_oldest:
  assumes "r \<in> set (select_batch locked n tb)" and "r' \<in> set (outbox_events tb)"
    and "event_pending r'" "ob_id r' \<notin> locked" "r' \<notin> set (select_batch locked n tb)"
  shows "ob_created_at r \<le> ob_created_at r'"
proof -
  let ?xs = "sort_key ob_created_at (filter (\<lambda>r. event_pending r \<and> ob_id r \<notin> locked) (outbox_events tb))"
  have "r' \<in> set ?xs" using assms by simp
  moreover have "set ?xs = set (take n ?xs) \<union> set (drop n ?xs)"
    by (simp only: set_append [symmetric] append_take_drop_id)
  moreover have "r' \<notin> set (take n ?xs)" using assms(5) by (simp add: select_batch_def)
  ultimately have "r' \<in> set (drop n ?xs)" by blast
  moreover have "r \<in> set (take n ?xs)" using assms(1) by (simp add: select_batch_def)
  moreover have "sorted (map ob_created_at (take n ?xs) @ map ob_created_at (drop n ?xs))"
    by (simp only: map_append [symmetric] append_take_drop_id sorted_sort_key)
  ultimately show ?thesis unfolding sorted_append set_map by blast
qed

lemma find_outbox_id: "find_outbox i tb = Some r \<Longrightarrow> ob_id r = i \<and> r \<in> set (outbox_events tb)"
  by (auto simp: find_outbox_def find_Some_iff)

lemma find_outbox_iff:
  "tables_ok tb \<Longrightarrow> find_outbox i tb = Some r \<longleftrightarrow> r \<in> set (outbox_events tb) \<and> ob_id r = i"
  by (simp add: find_outbox_def outbox_table.find_Some_iff_mem tables_ok_def)

lemma write_row_id [simp]: "ob_id (write_row rows r) = ob_id r"
  by (auto simp: write_row_def find_Some_iff split: option.split)

lemma write_rows_ok [frame_intros]: "stmt_rel ok_step (write_rows rows)"
proof (rule stmt_okI)
  fix tb
  assume "tables_ok tb"
  moreover have "map ob_id (map (write_row rows) (outbox_events tb)) = map ob_id (outbox_events tb)"
    by simp
  ultimately show "tables_ok (snd (write_rows rows tb))"
    by (simp add: write_rows_def tables_ok_def del: map_map)
qed

lemma write_row_outcome:
  assumes "list_all2 (row_outcome st) rows outs" and "map (ob_id \<circ> fst) outs = map ob_id rows"
    and "distinct (map ob_id rows)"
  shows "r \<in> set rows \<Longrightarrow> \<exists>b. row_outcome st r (write_row (map fst outs) r, b)
      \<and> (write_row (map fst outs) r, b) \<in> set outs"
    and "ob_id r \<notin> ob_id ` set rows \<Longrightarrow> write_row (map fst outs) r = r"
proof -
  assume "r \<in> set rows"
  then obtain i where i: "i < length rows" "rows ! i = r" by (auto simp: in_set_conv_nth)
  have len: "length outs = length rows" using assms(1) by (simp add: list_all2_lengthD)
  let ?o = "outs ! i"
  have out: "row_outcome st r ?o" using assms(1) i by (auto dest: list_all2_nthD)
  have id: "ob_id (fst ?o) = ob_id r"
    using assms(2) i len by (metis (no_types, lifting) comp_apply nth_map)
  have "distinct (map ob_id (map fst outs))" using assms(2,3) by simp
  moreover have "fst ?o \<in> set (map fst outs)" using i len by simp
  ultimately have "find (\<lambda>x. ob_id x = ob_id r) (map fst outs) = Some (fst ?o)"
    using id by (subst outbox_table.find_Some_iff_mem) auto
  then have "write_row (map fst outs) r = fst ?o" by (simp add: write_row_def)
  moreover have "?o \<in> set outs" using i len by simp
  ultimately show "\<exists>b. row_outcome st r (write_row (map fst outs) r, b)
      \<and> (write_row (map fst outs) r, b) \<in> set outs"
    using out by (intro exI [of _ "snd ?o"]) simp
next
  assume r: "ob_id r \<notin> ob_id ` set rows"
  have "ob_id ` set (map fst outs) = ob_id ` set rows"
    using assms(2) by (metis (no_types, lifting) list.map_comp list.set_map)
  with r have "\<forall>x \<in> set (map fst outs). ob_id x \<noteq> ob_id r" by (metis imageI)
  then have "find (\<lambda>x. ob_id x = ob_id r) (map fst outs) = None" by (simp only: find_None_iff) blast
  then show "write_row (map fst outs) r = r" by (simp add: write_row_def)
qed

text \<open>A round that returns has written the outcome of each selected row and nothing else.\<close>

lemma dispatch_pending_Inr:
  assumes "dispatch_pending st rp enq locked clock n (s, q) = (Inr (d, f), s2, q2)"
  shows "\<exists>outs. dispatch_rows st rp enq clock 0 (select_batch locked n (working s)) q = (outs, q2)
    \<and> d = length (filter snd outs) \<and> f = length (filter (\<lambda>p. \<not> snd p) outs)
    \<and> committed s2 = (working s)\<lparr>outbox_events := map (write_row (map fst outs)) (outbox_events (working s))\<rparr>"
proof -
  obtain rows s1 where sel: "db_execute Select (\<lambda>tb. (Inr (select_batch locked n tb), tb))
      (s\<lparr>force_primary := True\<rparr>) = (Inr rows, s1)"
    and rest: "(case dispatch_rows st rp enq clock 0 rows q of (outs, q') \<Rightarrow>
               (case chain (if rows = [] then ret () else db_flush (write_rows (map fst outs)))
                           (\<lambda>_. commit) s1 of
                  (Inl e, s2) \<Rightarrow> (Inl e, s2, q')
                | (Inr _, s2) \<Rightarrow>
                    (Inr (length (filter snd outs), length (filter (\<lambda>p. \<not> snd p) outs)), s2, q')))
      = (Inr (d, f), s2, q2)"
    using assms by (auto simp: dispatch_pending_def split: prod.splits sum.splits)
  from sel have rows: "rows = select_batch locked n (working s)" and w: "working s1 = working s"
    by (auto dest!: pinned_execute_Inr)
  obtain outs where outs: "dispatch_rows st rp enq clock 0 rows q = (outs, q2)"
    and d: "d = length (filter snd outs)" "f = length (filter (\<lambda>p. \<not> snd p) outs)"
    and fin: "chain (if rows = [] then ret () else db_flush (write_rows (map fst outs))) (\<lambda>_. commit) s1
       = (Inr (), s2)"
    using rest by (auto split: prod.splits sum.splits)
  have "committed s2 = (working s)\<lparr>outbox_events := map (write_row (map fst outs)) (outbox_events (working s))\<rparr>"
  proof (cases "rows = []")
    case True
    with outs have "outs = []" by simp
    then have "map (write_row (map fst outs)) (outbox_events (working s)) = outbox_events (working s)"
      by (simp add: write_row_def map_idI)
    with True fin w show ?thesis by (auto simp: commit_def split: if_splits)
  next
    case False
    with fin w show ?thesis
      by (auto simp: chain_eq_Inr_iff commit_def write_rows_def split: if_splits dest!: db_flush_Inr)
  qed
  with outs d rows show ?thesis by blast
qed

lemma dispatch_pending_done:
  assumes "dispatch_pending st rp enq locked clock n (s, q) = (Inr c, s2, q2)"
  obtains outs where "dispatch_rows st rp enq clock 0 (select_batch locked n (working s)) q = (outs, q2)"
    "committed s2 = (working s)\<lparr>outbox_events := map (write_row (map fst outs)) (outbox_events (working s))\<rparr>"
proof -
  obtain d f where "c = (d, f)" by (rule prod.exhaust)
  with dispatch_pending_Inr [OF assms [unfolded this]] that show ?thesis by blast
qed

subsection \<open>The life of an event\<close>

text \<open>
  The specification: an event waits with a number of failed attempts, is sent, or is parked for
  good once it has failed \<open>outbox_max_attempts\<close> times. \<open>event_state\<close> reads it off a row.
\<close>

datatype event_state = Waiting int | Sent | Parked

definition event_state :: "outbox_row \<Rightarrow> event_state" where
  "event_state r =
     (if ob_dispatched_at r \<noteq> None then Sent
      else if ob_failed_at r \<noteq> None then Parked else Waiting (ob_attempts r))"

definition event_step :: "int \<Rightarrow> bool \<Rightarrow> event_state \<Rightarrow> event_state" where
  "event_step max_attempts accepted es =
     (case es of
        Waiting n \<Rightarrow> if accepted then Sent
                     else if n + 1 \<ge> max_attempts then Parked else Waiting (n + 1)
      | _ \<Rightarrow> es)"

definition same_event :: "outbox_row \<Rightarrow> outbox_row \<Rightarrow> bool" where
  "same_event r r' \<longleftrightarrow> ob_id r' = ob_id r \<and> ob_task_name r' = ob_task_name r
     \<and> ob_payload r' = ob_payload r \<and> ob_created_at r' = ob_created_at r"

lemma row_outcome_refines:
  "row_outcome st r (r', b) \<Longrightarrow> event_pending r \<Longrightarrow>
     event_state r' = event_step (outbox_max_attempts st) b (event_state r) \<and> same_event r r'"
  by (cases "outbox_max_attempts st \<le> ob_attempts r + 1")
     (auto simp: row_outcome_def event_state_def event_step_def event_pending_def mark_dispatched_def
       mark_failed_def same_event_def Let_def)

lemma batch_outcome:
  assumes ok: "tables_ok tb" and outs: "dispatch_rows st rp enq clock 0 (select_batch locked n tb) q = (outs, q2)"
    and r: "r \<in> set (outbox_events tb)"
  defines "tb' \<equiv> tb\<lparr>outbox_events := map (write_row (map fst outs)) (outbox_events tb)\<rparr>"
  shows "find_outbox (ob_id r) tb' = Some (write_row (map fst outs) r)"
    and "r \<in> set (select_batch locked n tb) \<Longrightarrow>
      \<exists>b. row_outcome st r (write_row (map fst outs) r, b) \<and> (write_row (map fst outs) r, b) \<in> set outs"
    and "r \<notin> set (select_batch locked n tb) \<Longrightarrow> write_row (map fst outs) r = r"
proof -
  have "tables_ok tb'"
    using write_rows_ok ok stmt_relD [of ok_step "write_rows (map fst outs)" tb]
    by (auto simp: write_rows_def ok_step_def tb'_def)
  then show "find_outbox (ob_id r) tb' = Some (write_row (map fst outs) r)"
    using r by (subst find_outbox_iff) (auto simp: tb'_def)
  have all: "list_all2 (row_outcome st) (select_batch locked n tb) outs"
    "map (ob_id \<circ> fst) outs = map ob_id (select_batch locked n tb)"
    using dispatch_rows_outcome [OF outs] by auto
  note one = write_row_outcome [OF all select_batch_distinct [OF ok]]
  show "\<exists>b. row_outcome st r (write_row (map fst outs) r, b) \<and> (write_row (map fst outs) r, b) \<in> set outs"
    if "r \<in> set (select_batch locked n tb)" using one(1) that by blast
  show "write_row (map fst outs) r = r" if "r \<notin> set (select_batch locked n tb)"
  proof (rule one(2))
    show "ob_id r \<notin> ob_id ` set (select_batch locked n tb)"
    proof
      assume "ob_id r \<in> ob_id ` set (select_batch locked n tb)"
      then obtain x where x: "x \<in> set (select_batch locked n tb)" "ob_id x = ob_id r" by auto
      then have "x \<in> set (outbox_events tb)" using select_batch_props(1) by blast
      with x(2) r ok have "x = r" by (auto simp: tables_ok_def distinct_map dest: inj_onD)
      with x that show False by simp
    qed
  qed
qed

text \<open>
  C12: The relay implements the life of an event. A round that returns moves each selected event
  one step of the specification, by whether the queue accepted it, leaves every other event as
  it was, adds and loses none, and counts what it did. No round takes more than its batch, and
  none passes over an event older than one it takes.
\<close>

theorem relay_round_refines:
  assumes "tables_ok (working s)"
    and "dispatch_pending st rp enq locked clock n (s, q) = (Inr (d, f), s2, q2)"
  shows "(let batch = select_batch locked n (working s) in
      length batch \<le> n \<and> d + f = length batch
    \<and> map ob_id (outbox_events (committed s2)) = map ob_id (outbox_events (working s))
    \<and> (\<forall>r \<in> set (outbox_events (working s)). \<exists>r' b.
         find_outbox (ob_id r) (committed s2) = Some r'
       \<and> (if r \<in> set batch
          then event_state r' = event_step (outbox_max_attempts st) b (event_state r) \<and> same_event r r'
          else r' = r))
    \<and> (\<forall>r \<in> set batch. \<forall>r' \<in> set (outbox_events (working s)).
         event_pending r' \<and> ob_id r' \<notin> locked \<and> r' \<notin> set batch \<longrightarrow> ob_created_at r \<le> ob_created_at r'))"
proof -
  let ?batch = "select_batch locked n (working s)"
  obtain outs where outs: "dispatch_rows st rp enq clock 0 ?batch q = (outs, q2)"
    and d: "d = length (filter snd outs)" "f = length (filter (\<lambda>p. \<not> snd p) outs)"
    and c: "committed s2 = (working s)\<lparr>outbox_events := map (write_row (map fst outs)) (outbox_events (working s))\<rparr>"
    using dispatch_pending_Inr [OF assms(2)] by blast
  have "length outs = length ?batch"
    using dispatch_rows_outcome [OF outs] by (auto dest: list_all2_lengthD)
  then have "d + f = length ?batch" by (simp add: d sum_length_filter_compl)
  moreover have "length ?batch \<le> n" by (simp add: select_batch_props)
  moreover have "map ob_id (outbox_events (committed s2)) = map ob_id (outbox_events (working s))"
    by (simp add: c)
  moreover have "\<exists>r' b. find_outbox (ob_id r) (committed s2) = Some r'
       \<and> (if r \<in> set ?batch
          then event_state r' = event_step (outbox_max_attempts st) b (event_state r) \<and> same_event r r'
          else r' = r)" if r: "r \<in> set (outbox_events (working s))" for r
  proof -
    note B = batch_outcome [OF assms(1) outs r]
    show ?thesis
    proof (cases "r \<in> set ?batch")
      case True
      then have "event_pending r" using select_batch_props(1) by blast
      with B(1,2) True row_outcome_refines show ?thesis unfolding c by (metis (no_types, lifting))
    next
      case False
      with B(1,3) show ?thesis unfolding c by auto
    qed
  qed
  moreover have "\<forall>r \<in> set ?batch. \<forall>r' \<in> set (outbox_events (working s)).
      event_pending r' \<and> ob_id r' \<notin> locked \<and> r' \<notin> set ?batch \<longrightarrow> ob_created_at r \<le> ob_created_at r'"
    using select_batch_oldest by blast
  ultimately show ?thesis by (simp add: Let_def)
qed

text \<open>
  A round that fails, at the selection, the flush or the commit, leaves every event as it
  was: what it may already have handed to the queue will be handed over again, under the same key.
\<close>

theorem relay_failure_keeps_events:
  "case dispatch_pending st rp enq locked clock n (s, q) of
     (Inl e, s2, q2) \<Rightarrow> committed s2 = committed s
   | (Inr _, s2, q2) \<Rightarrow> map outbox_key (outbox_events (committed s2)) = map outbox_key (outbox_events (working s))"
proof -
  obtain r s2 q2 where op: "dispatch_pending st rp enq locked clock n (s, q) = (r, s2, q2)"
    by (metis prod.exhaust)
  show ?thesis
  proof (cases r)
    case (Inl e)
    obtain x s1 where sel: "db_execute Select (\<lambda>tb. (Inr (select_batch locked n tb), tb))
      (s\<lparr>force_primary := True\<rparr>) = (x, s1)" by (rule prod.exhaust)
    have k: "keeps same_committed (db_execute Select (\<lambda>tb. (Inr (select_batch locked n tb), tb)))"
      by (intro frame_intros)
    have c1: "committed s1 = committed s" using keepsD [OF k sel] by simp
    have "committed s2 = committed s1"
    proof (cases x)
      case (Inr rows)
      obtain outs q' where "dispatch_rows st rp enq clock 0 rows q = (outs, q')" by (rule prod.exhaust)
      with op Inl sel Inr have "chain (if rows = [] then ret () else db_flush (write_rows (map fst outs)))
          (\<lambda>_. commit) s1 = (Inl e, s2)"
        by (auto simp: dispatch_pending_def split: prod.splits sum.splits)
      then show ?thesis
        by (auto simp: chain_eq_Inl_iff commit_def split: if_splits
            dest: keepsD [OF db_flush_frames(1)])
    qed (use op Inl sel in \<open>auto simp: dispatch_pending_def\<close>)
    with c1 op Inl show ?thesis by simp
  next
    case (Inr p)
    then obtain d f where "r = Inr (d, f)" by (cases p) auto
    with dispatch_pending_Inr op show ?thesis
      by (fastforce simp: outbox_key_def)
  qed
qed

subsection \<open>Nothing is marked sent without being accepted\<close>

definition job_for :: "settings \<Rightarrow> outbox_row \<Rightarrow> job_spec" where
  "job_for st row = \<lparr>js_function = ob_task_name row, js_key = outbox_key row,
     js_retries = task_max_retries st, js_retry_delay = task_retry_delay st,
     js_retry_backoff = task_retry_backoff st, js_kwargs = ob_payload row\<rparr>"

text \<open>
  The contract of a task queue: a job it accepts without an error is in it (\<open>holds\<close>), and stays
  in it while others are enqueued.
\<close>

definition queue_holds :: "'q queue_op \<Rightarrow> (job_spec \<Rightarrow> 'q \<Rightarrow> bool) \<Rightarrow> bool" where
  "queue_holds enqueue holds \<longleftrightarrow>
     (\<forall>q js u q'. enqueue q js = (Inr u, q') \<longrightarrow> holds js q')
   \<and> (\<forall>q js js' x q'. holds js q \<and> enqueue q js' = (x, q') \<longrightarrow> holds js q')"

lemma enqueue_task_holds:
  assumes "queue_holds enq holds" and "enqueue_task st enq n k kw q = (x, q')"
  shows "holds js q \<Longrightarrow> holds js q'"
    and "x = Inr u \<Longrightarrow> holds \<lparr>js_function = n, js_key = k, js_retries = task_max_retries st,
           js_retry_delay = task_retry_delay st, js_retry_backoff = task_retry_backoff st,
           js_kwargs = kw\<rparr> q'"
  using assms unfolding queue_holds_def enqueue_task_def by (auto split: if_splits)

lemma dispatch_row_holds:
  assumes "queue_holds enq holds" and "dispatch_row st rp enq now r q = ((r', b), q')"
  shows "holds js q \<Longrightarrow> holds js q'" and "b \<Longrightarrow> holds (job_for st r) q'"
proof -
  obtain x q1 where e: "enqueue_task st enq (ob_task_name r) (outbox_key r) (ob_payload r) q = (x, q1)"
    by (rule prod.exhaust)
  with assms(2) have q': "q' = q1" "b \<longleftrightarrow> (\<exists>u. x = Inr u)"
    by (auto simp: dispatch_row_def split: sum.splits)
  show "holds js q \<Longrightarrow> holds js q'" using enqueue_task_holds(1) [OF assms(1) e] q' by blast
  show "b \<Longrightarrow> holds (job_for st r) q'"
    using enqueue_task_holds(2) [OF assms(1) e] q' by (auto simp: job_for_def)
qed

lemma dispatch_rows_holds:
  assumes "queue_holds enq holds"
  shows "dispatch_rows st rp enq clock k rows q = (outs, q') \<Longrightarrow>
     (\<forall>js. holds js q \<longrightarrow> holds js q') \<and> list_all2 (\<lambda>r out. snd out \<longrightarrow> holds (job_for st r) q') rows outs"
proof (induction rows arbitrary: k q outs q')
  case (Cons r rows)
  obtain r1 b1 q1 where 1: "dispatch_row st rp enq (clock k) r q = ((r1, b1), q1)"
    by (metis prod.exhaust)
  obtain os q2 where 2: "dispatch_rows st rp enq clock (Suc k) rows q1 = (os, q2)"
    by (rule prod.exhaust)
  from 1 2 Cons.prems have "outs = (r1, b1) # os" "q' = q2" by auto
  with dispatch_row_holds [OF assms 1] Cons.IH [OF 2] show ?case by auto
qed simp

text \<open>
  C14: An event is marked as dispatched only after the queue has accepted its job, with the
  configured retry policy and the event's own key; it is in the queue when the round ends.
\<close>

theorem dispatched_was_accepted:
  assumes "queue_holds enq holds" and "tables_ok (working s)"
    and "dispatch_pending st rp enq locked clock n (s, q) = (Inr c, s2, q2)"
    and "r \<in> set (outbox_events (working s))" and "event_pending r"
    and "find_outbox (ob_id r) (committed s2) = Some r'" and "ob_dispatched_at r' \<noteq> None"
  shows "holds (job_for st r) q2"
proof -
  let ?batch = "select_batch locked n (working s)"
  obtain outs where
    outs: "dispatch_rows st rp enq clock 0 ?batch q = (outs, q2)"
    and c: "committed s2 = (working s)\<lparr>outbox_events := map (write_row (map fst outs)) (outbox_events (working s))\<rparr>"
    using dispatch_pending_done [OF assms(3)] by blast
  note B = batch_outcome [OF assms(2) outs assms(4), folded c]
  have r': "r' = write_row (map fst outs) r" using B(1) assms(6) by simp
  have sel: "r \<in> set ?batch"
  proof (rule ccontr)
    assume "r \<notin> set ?batch"
    then have "r' = r" using B(3) r' by simp
    with assms(5,7) show False by (simp add: event_pending_def)
  qed
  obtain b where b: "row_outcome st r (r', b)" "(r', b) \<in> set outs" using B(2) [OF sel] r' by auto
  have "b"
    using b(1) assms(5,7)
    by (auto simp: row_outcome_def mark_failed_def event_pending_def Let_def split: if_splits)
  obtain i where i: "i < length outs" "outs ! i = (r', b)" using b(2) by (auto simp: in_set_conv_nth)
  note D = dispatch_rows_outcome [OF outs] dispatch_rows_holds [OF assms(1) outs]
  have len: "length outs = length ?batch" using D(1) by (auto dest: list_all2_lengthD)
  have "ob_id (?batch ! i) = ob_id r'"
    using D(1) i len by (metis (no_types, lifting) comp_apply fst_conv nth_map)
  also have "ob_id r' = ob_id r" by (simp add: r')
  finally have "?batch ! i = r"
    using sel select_batch_distinct [OF assms(2), of locked n] i(1) len
    by (auto simp: distinct_map dest: inj_onD)
  with D(2) i len \<open>b\<close> show ?thesis by (auto dest: list_all2_nthD2)
qed

subsection \<open>Every event is dispatched in the end\<close>

lemma length_filter_distinct:
  "distinct xs \<Longrightarrow> length (filter p xs) = card {x \<in> set xs. p x}"
  by (metis distinct_card distinct_filter set_filter)

lemma pending_after_round:
  assumes ok: "tables_ok tb" and outs: "dispatch_rows st rp enq clock 0 (select_batch locked n tb) q = (outs, q2)"
    and all: "\<forall>out \<in> set outs. snd out"
  shows "length (filter event_pending (map (write_row (map fst outs)) (outbox_events tb))) =
    length (filter event_pending (outbox_events tb)) - length (select_batch locked n tb)"
proof -
  let ?b = "select_batch locked n tb" and ?w = "write_row (map fst outs)" and ?e = "outbox_events tb"
  have dist: "distinct ?e" using ok by (auto simp: tables_ok_def distinct_map)
  have "event_pending (?w r) \<longleftrightarrow> event_pending r \<and> r \<notin> set ?b" if r: "r \<in> set ?e" for r
  proof (cases "r \<in> set ?b")
    case True
    then obtain c where "row_outcome st r (?w r, c)" "(?w r, c) \<in> set outs"
      using batch_outcome(2) [OF ok outs r] by blast
    with all have "\<exists>now. ?w r = mark_dispatched now r" by (auto simp: row_outcome_def)
    with True show ?thesis by (auto simp: event_pending_def mark_dispatched_def)
  next
    case False
    then show ?thesis using batch_outcome(3) [OF ok outs r] by simp
  qed
  then have "filter (event_pending \<circ> ?w) ?e = filter (\<lambda>r. event_pending r \<and> r \<notin> set ?b) ?e"
    by (intro filter_cong) auto
  then have "length (filter event_pending (map ?w ?e)) = card {r \<in> set ?e. event_pending r \<and> r \<notin> set ?b}"
    by (simp add: filter_map length_filter_distinct [OF dist])
  also have "{r \<in> set ?e. event_pending r \<and> r \<notin> set ?b} = {r \<in> set ?e. event_pending r} - set ?b" by auto
  also have "card \<dots> = card {r \<in> set ?e. event_pending r} - card (set ?b)"
    using select_batch_props(1) by (intro card_Diff_subset) auto
  also have "card (set ?b) = length ?b"
    using select_batch_distinct [OF ok] by (intro distinct_card) (auto simp: distinct_map)
  finally show ?thesis by (simp add: length_filter_distinct [OF dist])
qed

definition pending_count :: "tables \<Rightarrow> nat" where
  "pending_count tb = length (filter event_pending (outbox_events tb))"

definition payload_ok :: "outbox_row \<Rightarrow> bool" where
  "payload_ok r \<longleftrightarrow>
     \<not> (\<exists>p \<in> set (ob_payload r). fst p \<in> {''task_name'', ''key'', ''retries'', ''retry_delay'', ''retry_backoff''})"

lemma dispatch_rows_all_accepted:
  assumes "\<And>q js. \<exists>q'. enq q js = (Inr (), q')"
  shows "\<forall>r \<in> set rows. payload_ok r \<Longrightarrow> dispatch_rows st rp enq clock k rows q = (outs, q') \<Longrightarrow>
    \<forall>out \<in> set outs. snd out"
proof (induction rows arbitrary: k q outs q')
  case (Cons r rows)
  obtain js q1 where e: "enqueue_task st enq (ob_task_name r) (outbox_key r) (ob_payload r) q = (Inr (), q1)"
    using Cons.prems(1) assms unfolding payload_ok_def enqueue_task_def by (metis list.set_intros(1))
  obtain os q2 where 2: "dispatch_rows st rp enq clock (Suc k) rows q1 = (os, q2)"
    by (rule prod.exhaust)
  have "outs = (mark_dispatched (clock k) r, True) # os"
    using Cons.prems(2) e 2 by (simp add: dispatch_row_def)
  with Cons.IH [OF _ 2] Cons.prems(1) show ?case by simp
qed simp

definition relay_healthy :: "tables \<Rightarrow> bool" where
  "relay_healthy tb \<longleftrightarrow> tables_ok tb \<and> (\<forall>r \<in> set (outbox_events tb). payload_ok r)"

lemma dispatch_pending_live:
  assumes enq: "\<And>q js. \<exists>q'. enq q js = (Inr (), q')"
    and "budget s = None" and h: "relay_healthy (working s)"
  shows "\<exists>c s2 q2. dispatch_pending st rp enq {} clock n (s, q) = (Inr c, s2, q2) \<and> budget s2 = None
    \<and> relay_healthy (committed s2)
    \<and> pending_count (committed s2) = pending_count (working s) - n"
proof -
  let ?b = "select_batch {} n (working s)"
  obtain outs q2 where outs: "dispatch_rows st rp enq clock 0 ?b q = (outs, q2)" by (rule prod.exhaust)
  have ok: "tables_ok (working s)" using h by (simp add: relay_healthy_def)
  have "\<forall>r \<in> set ?b. payload_ok r"
    using h select_batch_props(1) by (fastforce simp: relay_healthy_def)
  then have all: "\<forall>out \<in> set outs. snd out" using dispatch_rows_all_accepted [OF enq _ outs] by blast
  let ?tb = "(working s)\<lparr>outbox_events := map (write_row (map fst outs)) (outbox_events (working s))\<rparr>"
  have none: "?tb = working s" if "?b = []"
  proof -
    have "outs = []" using outs that by simp
    then have "map (write_row (map fst outs)) (outbox_events (working s)) = outbox_events (working s)"
      by (simp add: write_row_def map_idI)
    then show ?thesis by simp
  qed
  obtain s2 where op: "dispatch_pending st rp enq {} clock n (s, q) =
      (Inr (length (filter snd outs), length (filter (\<lambda>p. \<not> snd p) outs)), s2, q2)"
    and c: "committed s2 = ?tb" and b: "budget s2 = None"
  proof (cases "?b = []")
    case True
    have "dispatch_pending st rp enq {} clock n (s, q) =
      (Inr (length (filter snd outs), length (filter (\<lambda>p. \<not> snd p) outs)),
       s\<lparr>force_primary := True, committed := working s, pending := False, budget := None\<rparr>, q2)"
      using True outs assms(2)
      by (simp add: dispatch_pending_def db_execute_pinned on_primary_live commit_def)
    from that [OF this] none [OF True] show thesis by simp
  next
    case False
    have "dispatch_pending st rp enq {} clock n (s, q) =
      (Inr (length (filter snd outs), length (filter (\<lambda>p. \<not> snd p) outs)),
       s\<lparr>force_primary := True, working := ?tb, committed := ?tb, pending := False, budget := None\<rparr>, q2)"
      using False outs assms(2)
      by (simp add: dispatch_pending_def db_execute_pinned on_primary_live commit_def
          db_flush_live write_rows_def)
    from that [OF this] show thesis by simp
  qed
  have len: "length ?b = min n (pending_count (working s))"
    by (simp add: select_batch_props pending_count_def)
  have "pending_count (committed s2) = pending_count (working s) - length ?b"
    using pending_after_round [OF ok outs all] by (simp add: c pending_count_def)
  also have "\<dots> = pending_count (working s) - n" by (simp add: len)
  finally have pc: "pending_count (committed s2) = pending_count (working s) - n" .
  have "tables_ok (committed s2)"
    using write_rows_ok ok stmt_relD [of ok_step "write_rows (map fst outs)" "working s"]
    by (auto simp: write_rows_def ok_step_def c)
  moreover have "payload_ok (write_row (map fst outs) r)" if r: "r \<in> set (outbox_events (working s))" for r
  proof -
    have "payload_ok r" using h r by (simp add: relay_healthy_def)
    moreover have "ob_payload (write_row (map fst outs) r) = ob_payload r"
    proof (cases "r \<in> set ?b")
      case True
      with batch_outcome(2) [OF ok outs r] show ?thesis
        by (auto simp: row_outcome_def mark_dispatched_def mark_failed_def Let_def)
    next
      case False
      with batch_outcome(3) [OF ok outs r] show ?thesis by simp
    qed
    ultimately show ?thesis by (simp add: payload_ok_def)
  qed
  ultimately have "relay_healthy (committed s2)" by (auto simp: relay_healthy_def c)
  with op b pc show ?thesis by blast
qed

lemma relay_turn_live:
  assumes enq: "\<And>q js. \<exists>q'. enq q js = (Inr (), q')"
    and "budget (r_db w) = None" and "relay_healthy (committed (r_db w))"
    and w': "w' = relay_turn st rp enq {} clock rnow w"
  shows "budget (r_db w') = None \<and> relay_healthy (committed (r_db w'))
    \<and> pending_count (committed (r_db w')) = pending_count (committed (r_db w)) - outbox_batch_size st"
proof -
  let ?s = "(r_db w)\<lparr>working := committed (r_db w), pending := False\<rparr>"
  have "\<exists>c s2 q2. dispatch_pending st rp enq {} clock (outbox_batch_size st) (?s, r_queue w) = (Inr c, s2, q2)
    \<and> budget s2 = None \<and> relay_healthy (committed s2)
    \<and> pending_count (committed s2) = pending_count (working ?s) - outbox_batch_size st"
    by (rule dispatch_pending_live) (use assms(1-3) in auto)
  then show ?thesis
    by (auto simp: w' relay_turn_def Let_def split: prod.split sum.split)
qed

text \<open>
  C13: Every event is dispatched in the end. While the database answers and the queue accepts
  what it is given, enough turns of the loop leave no event pending, whatever happens to the
  heartbeat: turns times batch size have to reach the number of pending events.
\<close>

theorem relay_drains_outbox:
  assumes "\<And>q js. \<exists>q'. enq q js = (Inr (), q')"
    and "budget (r_db w) = None" and "relay_healthy (committed (r_db w))"
    and "pending_count (committed (r_db w)) \<le> length ticks * outbox_batch_size st"
  shows "\<forall>r \<in> set (outbox_events (committed (r_db
      (fold (\<lambda>(clock, rnow). relay_turn st rp enq {} clock rnow) ticks w)))). \<not> event_pending r"
proof -
  have "pending_count (committed (r_db (fold (\<lambda>(clock, rnow). relay_turn st rp enq {} clock rnow) ticks w))) = 0"
    using assms(2-4)
  proof (induction ticks arbitrary: w)
    case (Cons tick ticks)
    obtain clock rnow where tick: "tick = (clock, rnow)" by (cases tick)
    note T = relay_turn_live [OF assms(1) Cons.prems(1,2) refl, where st = st and rp = rp and clock = clock and rnow = rnow]
    show ?case
      using Cons.IH [of "relay_turn st rp enq {} clock rnow w"] T Cons.prems(3) by (simp add: tick)
  qed simp
  then show ?thesis by (simp add: pending_count_def filter_empty_conv)
qed

subsection \<open>Bounded attempts and retention\<close>

text \<open>No event waits with its attempts used up: it would have been parked.\<close>

definition attempts_bounded :: "int \<Rightarrow> tables \<Rightarrow> bool" where
  "attempts_bounded m tb \<longleftrightarrow>
     (\<forall>r \<in> set (outbox_events tb). ob_attempts r \<le> m \<and> (event_pending r \<longrightarrow> ob_attempts r < m))"


text \<open>
  Retention only ever deletes events that were dispatched before the cutoff; pending and
  parked events stay, and a failure deletes nothing.
\<close>

theorem cleanup_keeps_undispatched:
  "case cleanup_dispatched st now s of
     (Inr k, t) \<Rightarrow>
       outbox_events (committed t) =
         filter (\<lambda>r. case ob_dispatched_at r of None \<Rightarrow> True
                   | Some d \<Rightarrow> now - days (outbox_retention_days st) \<le> d) (outbox_events (working s))
     \<and> k = length (outbox_events (working s)) - length (outbox_events (committed t))
   | (Inl e, t) \<Rightarrow> committed t = committed s"
proof -
  let ?cut = "now - days (outbox_retention_days st)"
  let ?p = "\<lambda>r. case ob_dispatched_at r of None \<Rightarrow> False | Some t \<Rightarrow> t < ?cut"
  obtain r t where op: "cleanup_dispatched st now s = (r, t)" by force
  obtain x s1 where del: "db_execute Delete (delete_dispatched ?cut) (s\<lparr>force_primary := True\<rparr>) = (x, s1)"
    by (rule prod.exhaust)
  have k: "keeps same_committed (db_execute Delete (delete_dispatched ?cut))" by (intro frame_intros)
  have c1: "committed s1 = committed s" using keepsD [OF k del] by simp
  show ?thesis
  proof (cases r)
    case (Inl e)
    with op del c1 show ?thesis
      by (auto simp: cleanup_dispatched_def chain_eq_Inl_iff commit_def split: if_splits)
  next
    case (Inr m)
    then obtain ids where ids: "x = Inr ids" "commit s1 = (Inr (), t)" "m = length ids"
      using op del by (auto simp: cleanup_dispatched_def chain_eq_Inr_iff)
    with del have "delete_dispatched ?cut (working s) = (Inr ids, working s1)"
      by (auto dest!: pinned_execute_Inr)
    then have "working s1 = snd (delete_dispatched ?cut (working s))"
      "ids = projr (fst (delete_dispatched ?cut (working s)))" by simp_all
    moreover have "committed t = working s1" using ids(2) by (auto simp: commit_def split: if_splits)
    ultimately have "outbox_events (committed t) = filter (\<lambda>r. \<not> ?p r) (outbox_events (working s))"
      "m = length (filter ?p (outbox_events (working s)))"
      using ids(3) by (simp_all add: delete_dispatched_def Let_def delete_where_def)
    moreover have "filter (\<lambda>r. \<not> ?p r) (outbox_events (working s)) =
        filter (\<lambda>r. case ob_dispatched_at r of None \<Rightarrow> True | Some d \<Rightarrow> ?cut \<le> d) (outbox_events (working s))"
      by (rule filter_cong) (auto split: option.split)
    moreover have "length (filter ?p (outbox_events (working s))) =
        length (outbox_events (working s)) - length (filter (\<lambda>r. \<not> ?p r) (outbox_events (working s)))"
      using sum_length_filter_compl [of ?p "outbox_events (working s)"] by linarith
    ultimately show ?thesis using op Inr by simp
  qed
qed

end
