(* ===== verification/Program.thy ===== *)
theory Program
  imports AuthProps DeadLetter Relay
begin

section \<open>The program as a whole, at the database\<close>

text \<open>
  Every operation of the repositories, the hook and the relay that writes to the database, run in
  a session of its own that begins on what is durable, on a connection that may fail at any
  statement and with any replica. Requests, workers and cron jobs interleave at these operations;
  a run of the program is a sequence of them. \<open>occurrence\<close> records what a step draws from outside:
  the identifier of a refresh session or dead-letter row it creates, and a bound on its clock.
\<close>

record occurrence =
  oc_session :: "uuid option"
  oc_job :: "uuid option"
  oc_clock :: time

definition dispatch_db ::
  "settings \<Rightarrow> (exc \<Rightarrow> string) \<Rightarrow> job_spec list queue_op \<Rightarrow> uuid set \<Rightarrow> (nat \<Rightarrow> time) \<Rightarrow> nat
     \<Rightarrow> job_spec list \<Rightarrow> unit db" where
  "dispatch_db st repr_exc enqueue locked clock n q =
     (\<lambda>s. case dispatch_pending st repr_exc enqueue locked clock n (s, q) of
            (r, t, _) \<Rightarrow> (map_sum id (\<lambda>_. ()) r, t))"

inductive program_op :: "occurrence \<Rightarrow> unit db \<Rightarrow> bool" for oc :: occurrence where
  op_user_add: "program_op oc (chain (user_add ot n e h k c u) (\<lambda>_. ret ()))"
| op_register: "program_op oc (chain (user_register ot i n e h j p k c u ei ec) (\<lambda>_. ret ()))"
| op_user_update: "program_op oc (chain (user_update ot i chs now) (\<lambda>_. ret ()))"
| op_user_delete: "program_op oc (chain (user_delete ot i now) (\<lambda>_. ret ()))"
| op_force_delete: "program_op oc (chain (user_force_delete i) (\<lambda>_. ret ()))"
| op_verify: "program_op oc (chain (account_verify_email ot uid j e now i) (\<lambda>_. ret ()))"
| op_reset: "program_op oc (chain (account_reset_password ot uid h j e now i now2) (\<lambda>_. ret ()))"
| op_start_verify: "program_op oc (account_start_email_verification ot uid j p now ei ec)"
| op_start_reset: "program_op oc (account_start_password_reset ot uid j p now ei ec)"
| op_logout: "program_op oc (account_logout uid toks sid ids now)"
| op_close: "program_op oc (chain (account_close ot uid toks now ids now2) (\<lambda>_. ret ()))"
| op_token_add: "program_op oc (chain (token_add j e i) (\<lambda>_. ret ()))"
| op_token_purge: "now \<le> oc_clock oc \<Longrightarrow> program_op oc (chain (token_purge_expired now) (\<lambda>_. ret ()))"
| op_session_create: "oc_session oc = Some i \<Longrightarrow> program_op oc (chain (session_create uid e i c) (\<lambda>_. ret ()))"
| op_rotate: "program_op oc (chain (session_rotate sid' uid g now) (\<lambda>_. ret ()))"
| op_session_revoke: "program_op oc (session_revoke sid' now)"
| op_session_purge: "program_op oc (chain (session_purge_expired now) (\<lambda>_. ret ()))"
| op_dead_record: "oc_job oc = Some i \<Longrightarrow> program_op oc (record_dead_letter job i now)"
| op_dead_retry: "program_op oc (chain (dlq_service_retry jid now ei ec) (\<lambda>_. ret ()))"
| op_dead_delete: "program_op oc (dlq_service_delete jid)"
| op_dead_purge: "program_op oc (chain (dlq_service_purge bf only) (\<lambda>_. ret ()))"
| op_dispatch: "program_op oc (dispatch_db st rp enq locked clock n q)"
| op_cleanup: "program_op oc (chain (cleanup_dispatched st now) (\<lambda>_. ret ()))"

definition program_step :: "occurrence \<Rightarrow> tables \<Rightarrow> tables \<Rightarrow> bool" where
  "program_step oc tb tb' \<longleftrightarrow>
     (\<exists>op s r t. program_op oc op \<and> committed s = tb \<and> working s = tb \<and> op s = (r, t)
        \<and> tb' = committed t)"

text \<open>A run all of whose occurrences satisfy \<open>P\<close>.\<close>

definition program_run :: "(occurrence \<Rightarrow> bool) \<Rightarrow> tables \<Rightarrow> tables \<Rightarrow> bool" where
  "program_run P = (\<lambda>tb tb'. \<exists>oc. P oc \<and> program_step oc tb tb')\<^sup>*\<^sup>*"

subsection \<open>Relations every step keeps\<close>

context table_relation
begin

lemma kept_dispatch_db [frame_intros]:
  assumes "\<And>rows. stmt_rel R (write_rows rows)"
  shows "keeps (table_kept R) (dispatch_db st rp enq locked clock n q)"
proof (rule keepsI)
  fix s
  obtain x s1 where sel: "chain (set_force_primary True)
      (\<lambda>_. db_execute Select (\<lambda>tb. (Inr (select_batch locked n tb), tb))) s = (x, s1)"
    by (rule prod.exhaust)
  have k1: "keeps (table_kept R) (chain (set_force_primary True)
      (\<lambda>_. db_execute Select (\<lambda>tb. (Inr (select_batch locked n tb), tb))))"
    by (intro frame_intros)+
  have 1: "table_kept R s s1" using keepsD [OF k1 sel] .
  show "table_kept R s (snd (dispatch_db st rp enq locked clock n q s))"
  proof (cases x)
    case (Inl e)
    with sel 1 show ?thesis by (simp add: dispatch_db_def dispatch_pending_def)
  next
    case (Inr rows)
    obtain outs q' where outs: "dispatch_rows st rp enq clock 0 rows q = (outs, q')" by (rule prod.exhaust)
    let ?fin = "chain (if rows = [] then ret () else db_flush (write_rows (map fst outs))) (\<lambda>_. commit)"
    have "keeps (table_kept R) ?fin" by (intro frame_intros assms)+
    then have "table_kept R s1 (snd (?fin s1))" by (simp add: keeps_def)
    with 1 have "table_kept R s (snd (?fin s1))" by (simp add: table_kept_def)
    with sel Inr outs show ?thesis
      by (auto simp: dispatch_db_def dispatch_pending_def split: prod.split sum.split)
  qed
qed

lemma kept_cleanup [frame_intros]:
  "(\<And>c. stmt_rel R (delete_dispatched c)) \<Longrightarrow> keeps (table_kept R) (cleanup_dispatched st now)"
  unfolding cleanup_dispatched_def by (intro frame_intros | assumption)+

lemma kept_program_op:
  assumes "\<And>r. stmt_rel R (insert_user r)" "\<And>b. stmt_rel R (insert_outbox b)"
    and "\<And>j ch t. stmt_rel R (flush_user_update j ch t)" "\<And>j. stmt_rel R (flush_user_delete j)"
    and "\<And>j e i. stmt_rel R (insert_revoked (new_revoked j e i))"
    and "\<And>j e i. stmt_rel R (insert_revoked_if_absent (new_revoked j e i))"
    and "\<And>t. t \<le> oc_clock oc \<Longrightarrow> stmt_rel R (delete_expired_tokens t)"
    and "\<And>uid e i c. oc_session oc = Some i \<Longrightarrow> stmt_rel R (insert_session (new_refresh uid e i c))"
    and "\<And>sid uid g t. stmt_rel R (claim_rows sid uid g t)" "\<And>c t. stmt_rel R (revoke_rows c t)"
    and "\<And>t. stmt_rel R (delete_expired_sessions t)"
    and "\<And>d. oc_job oc = Some (dl_id d) \<Longrightarrow> stmt_rel R (insert_dead d)"
    and "\<And>j t. stmt_rel R (retry_rows j t)" "\<And>j. stmt_rel R (delete_dead j)"
    and "\<And>b only. stmt_rel R (purge_dead b only)"
    and "\<And>rows. stmt_rel R (write_rows rows)" "\<And>c. stmt_rel R (delete_dispatched c)"
    and "program_op oc op"
  shows "keeps (table_kept R) op"
  using assms(18)
proof cases
  case (op_dead_record i job now)
  have "keeps (table_kept R) (record_dead_letter job i now)"
    by (rule kept_record_dead_letter) (use assms(12) op_dead_record in simp)
  with op_dead_record show ?thesis by simp
qed (simp, (intro frame_intros assms | assumption)+; fail)+

end

subsection \<open>The invariants as such relations\<close>

lemma program_stmts_ok [frame_intros]: "stmt_rel ok_step (delete_dispatched c)"
  by (rule stmt_okI)
     (simp add: delete_dispatched_def Let_def tables_ok_def delete_where_def distinct_map_filter)

lemma flush_user_update_only: "only_users tb (snd (flush_user_update i fs t tb))"
  by (simp add: flush_user_update_def only_users_def Let_def split: option.split)

lemma program_stmts_advance [frame_intros]:
  "stmt_rel (session_advances sid) (flush_user_update i fs t)"
  "stmt_rel (session_advances sid) (flush_user_delete i)"
  "stmt_rel (session_advances sid) (insert_revoked_if_absent r)"
  "stmt_rel (session_advances sid) (delete_expired_tokens t)"
  "stmt_rel (session_advances sid) (retry_rows i t)"
  "stmt_rel (session_advances sid) (delete_dead i)"
  "stmt_rel (session_advances sid) (purge_dead bf only)"
  "stmt_rel (session_advances sid) (write_rows rows)"
  "stmt_rel (session_advances sid) (delete_dispatched c)"
proof -
  show "stmt_rel (session_advances sid) (flush_user_update i fs t)"
    unfolding stmt_rel_def session_advances_def
    using flush_user_update_only by (metis only_users_def row_advances_refl)
qed (auto simp: stmt_rel_def session_advances_def flush_user_delete_def insert_revoked_if_absent_def
      insert_revoked_def delete_expired_tokens_def retry_rows_def delete_dead_def purge_dead_def
      write_rows_def delete_dispatched_def Let_def set_delete_where)

lemma program_stmts_retries [frame_intros]:
  "stmt_rel (retries_stay job) (flush_user_update i fs t)"
  "stmt_rel (retries_stay job) (flush_user_delete i)"
  "stmt_rel (retries_stay job) (insert_revoked_if_absent r)"
  "stmt_rel (retries_stay job) (delete_expired_tokens t)"
  "stmt_rel (retries_stay job) (claim_rows sid uid g t)"
  "stmt_rel (retries_stay job) (revoke_rows cond t)"
  "stmt_rel (retries_stay job) (delete_expired_sessions t)"
  "stmt_rel (retries_stay job) (write_rows rows)"
  "stmt_rel (retries_stay job) (delete_dispatched c)"
proof -
  show "stmt_rel (retries_stay job) (flush_user_update i fs t)"
    unfolding stmt_rel_def retries_stay_def
    using flush_user_update_only by (metis only_users_def)
qed (auto simp: stmt_rel_def retries_stay_def flush_user_delete_def insert_revoked_if_absent_def
      insert_revoked_def delete_expired_tokens_def claim_rows_def revoke_rows_def
      delete_expired_sessions_def write_rows_def delete_dispatched_def Let_def)

lemma program_stmts_revocations [frame_intros]:
  "stmt_rel (revocations_kept now) (flush_user_update i fs t)"
  "stmt_rel (revocations_kept now) (flush_user_delete i)"
  "stmt_rel (revocations_kept now) (claim_rows sid uid g t)"
  "stmt_rel (revocations_kept now) (revoke_rows cond t)"
  "stmt_rel (revocations_kept now) (delete_expired_sessions t)"
  "stmt_rel (revocations_kept now) (retry_rows i t)"
  "stmt_rel (revocations_kept now) (delete_dead i)"
  "stmt_rel (revocations_kept now) (purge_dead bf only)"
  "stmt_rel (revocations_kept now) (write_rows rows)"
  "stmt_rel (revocations_kept now) (delete_dispatched c)"
proof -
  show "stmt_rel (revocations_kept now) (flush_user_update i fs t)"
    unfolding stmt_rel_def revocations_kept_def
    using flush_user_update_only by (metis only_users_def)
qed (auto simp: stmt_rel_def revocations_kept_def flush_user_delete_def claim_rows_def revoke_rows_def
      delete_expired_sessions_def retry_rows_def delete_dead_def purge_dead_def write_rows_def
      delete_dispatched_def Let_def)

subsection \<open>Steps and runs\<close>

context table_relation
begin

lemma step_kept:
  assumes "\<And>op. program_op oc op \<Longrightarrow> keeps (table_kept R) op" and "program_step oc tb tb'"
  shows "R tb tb'"
proof -
  obtain op s r t where op: "program_op oc op" "committed s = tb" "working s = tb" "op s = (r, t)"
    "tb' = committed t" using assms(2) by (auto simp: program_step_def)
  with kept_durable [OF assms(1) [OF op(1)] op(4)] R_refl show ?thesis by simp
qed

lemma run_kept:
  assumes "\<And>oc tb tb'. P oc \<Longrightarrow> program_step oc tb tb' \<Longrightarrow> R tb tb'" and "program_run P tb tb'"
  shows "R tb tb'"
  using assms(2) unfolding program_run_def
  by (induction rule: rtranclp_induct) (auto intro: R_refl R_trans assms(1))

end

lemma step_ok: "program_step oc tb tb' \<Longrightarrow> ok_step tb tb'"
  by (rule ok.step_kept) (auto intro!: ok.kept_program_op frame_intros)

lemma step_advances:
  "oc_session oc \<noteq> Some sid \<Longrightarrow> program_step oc tb tb' \<Longrightarrow> session_advances sid tb tb'"
  by (rule advances.step_kept) (auto intro!: advances.kept_program_op frame_intros)

lemma step_retries:
  "oc_job oc \<noteq> Some job \<Longrightarrow> program_step oc tb tb' \<Longrightarrow> retries_stay job tb tb'"
  by (rule retries.step_kept) (auto intro!: retries.kept_program_op frame_intros)

lemma step_revocations:
  "oc_clock oc \<le> now \<Longrightarrow> program_step oc tb tb' \<Longrightarrow> revocations_kept now tb tb'"
  by (rule revocations.step_kept)
     (auto intro!: revocations.kept_program_op frame_intros revocations_kept_purge)

subsection \<open>Properties\<close>


text \<open>
  C1: A refresh cookie is good for one rotation. However the program's steps interleave with
  attempts to rotate session \<open>sid\<close> from generation \<open>g\<close> (concurrent requests with the same cookie,
  thieves included, on failing connections), at most one attempt is handed a new generation, as
  long as no other login draws the same identifier.
\<close>

theorem refresh_generation_claimed_once:
  assumes "claim_trace (rotation_attempt sid g)
             (\<lambda>tb tb'. \<exists>oc. oc_session oc \<noteq> Some sid \<and> program_step oc tb tb') tb outcomes tb'"
    and "tables_ok tb"
  shows "count_list outcomes True \<le> 1"
proof (rule rotation.at_most_once [OF claim_trace_mono [OF assms(1)] assms(2)])
  fix u v
  assume "\<exists>oc. oc_session oc \<noteq> Some sid \<and> program_step oc u v"
  then show "session_step sid u v" by (auto simp: session_step_def step_advances step_ok)
qed


text \<open>A session revoked once stays so, and what is revoked does not rotate.\<close>

lemma revoked_never_rotates:
  assumes past: "\<And>g. session_past sid g tb"
    and run: "program_run (\<lambda>oc. oc_session oc \<noteq> Some sid) tb (working s)"
    and op: "session_rotate sid uid g now s = (r, t)"
  shows "r \<noteq> Inr (Some x)"
proof
  assume "r = Inr (Some x)"
  with op obtain rows where rows: "claim_rows sid uid g now (working s) = (Inr rows, committed t)"
    "map refresh_to_entity rows = [x]" using session_rotate_Inr [of sid uid g now s "Some x" t] by auto
  have "session_advances sid tb (working s)"
    by (rule advances.run_kept [OF _ run]) (rule step_advances)
  then have "session_past sid g (working s)" using past session_past_advances by blast
  with rows show False by (simp add: session_past_refuses)
qed

text \<open>
  C3: A password reset ends the sessions for good. After it commits, no refresh cookie of any
  session the user had is ever rotated again, whatever runs in between.
\<close>

theorem password_reset_ends_sessions:
  assumes "account_reset_password ot uid h jti e now i now2 s = (Inr x, t)"
    and "\<forall>r \<in> set (refresh_sessions (committed t)). rs_id r = sid \<longrightarrow> rs_user_id r = uid"
    and "program_run (\<lambda>oc. oc_session oc \<noteq> Some sid) (committed t) (working s')"
  shows "fst (session_rotate sid uid' g now' s') \<noteq> Inr (Some y)"
proof -
  have past: "session_past sid k (committed t)" for k
    using reset_password_commits [OF assms(1)] assms(2) by (auto simp: session_past_def)
  show ?thesis
    using revoked_never_rotates [OF past assms(3)] by (metis prod.collapse)
qed

text \<open>
  A logout ends its session for good, in the same sense, for the session of the caller.
\<close>

theorem logout_ends_session:
  assumes "account_logout uid toks (Some sid) ids now s = (Inr (), t)"
    and "\<forall>r \<in> set (refresh_sessions (committed t)). rs_id r = sid \<longrightarrow> rs_user_id r = uid"
    and "program_run (\<lambda>oc. oc_session oc \<noteq> Some sid) (committed t) (working s')"
  shows "fst (session_rotate sid uid' g now' s') \<noteq> Inr (Some y)"
proof -
  have past: "session_past sid k (committed t)" for k
    using logout_effect [where uid = uid and toks = toks and sid = "Some sid" and ids = ids and now = now
        and s = s] assms(1,2) by (auto simp: session_past_def)
  show ?thesis
    using revoked_never_rotates [OF past assms(3)] by (metis prod.collapse)
qed

text \<open>
  C2: A reset link works once. After a reset that succeeded, whatever the program does next and
  even after the spent token's row has been purged, a second reset with the same token is
  refused: the row is there as long as the token would still decode.
\<close>

theorem reset_link_single_use:
  assumes "jwt_expires env"
    and "auth_reset_password env token pw salt t0 t1 t2 i t3 s = (Inr (), t)"
    and "program_run (\<lambda>oc. oc_clock oc \<le> t0') (committed t) (working s')"
  shows "fst (auth_reset_password env token pw' salt' t0' t1' t2' i' t3' s') \<noteq> Inr ()"
  by (rule reset_link_spent [OF assms(1,2)], rule revocations.run_kept [OF _ assms(3)])
     (rule step_revocations)

text \<open>A verification link works once, in the same sense.\<close>

theorem verification_link_single_use:
  assumes "jwt_expires env"
    and "auth_verify_email env token t0 t1 t2 i s = (Inr (), t)"
    and "program_run (\<lambda>oc. oc_clock oc \<le> t0') (committed t) (working s')"
  shows "fst (auth_verify_email env token t0' t1' t2' i' s') \<noteq> Inr ()"
  by (rule verification_link_spent [OF assms(1,2)], rule revocations.run_kept [OF _ assms(3)])
     (rule step_revocations)

end
