(* ===== verification/Samples.thy ===== *)
theory Samples
  imports Program
begin

section \<open>Concrete states\<close>

text \<open>
  One small database, an environment for the parameters of the authentication service and a task
  queue. The witnesses apply the properties to them; every operation is evaluated on them.
\<close>

definition ann :: user_row where
  "ann = (new_user_row 1 ''Ann'' ''ann@x.org'' ''secret'' None 10 10)
     \<lparr>u_is_verified := True, u_pending_password_reset_jti := Some ''r''\<rparr>"

definition bob :: user_row where
  "bob = (new_user_row 2 ''Bob'' ''bob@x.org'' ''hidden'' (Some ''v'') 20 20)"

definition ann_session :: refresh_row where
  "ann_session = (new_refresh 1 1000 7 30)\<lparr>rs_generation := 4, rs_rotated_at := Some 40\<rparr>"

definition failed_job :: dead_row where
  "failed_job = new_dead ''k'' ''send_email_task'' ''default'' [(''to'', JStr ''ann'')] ''failed'' None 3 8 50"

definition two_events :: "outbox_row list" where
  "two_events = [new_event ''send_email_task'' [(''kwargs'', JObj [])] 11 60,
                 new_event ''send_email_task'' [(''kwargs'', JObj [])] 12 50]"

definition sample_tables :: tables where
  "sample_tables = \<lparr>users = [ann, bob], refresh_sessions = [ann_session], revoked_tokens = [],
     outbox_events = two_events, dead_letter_jobs = [failed_job]\<rparr>"

definition fresh :: session where
  "fresh = new_session sample_tables"

definition sample_env :: auth_env where
  "sample_env =
     \<lparr>orig_text = (\<lambda>v. case v of UniqueViolation t c \<Rightarrow> c | ForeignKeyViolation t c \<Rightarrow> c
                      | NotNullViolation t c \<Rightarrow> c),
      hashpw = (\<lambda>pw salt. Inr pw), checkpw = (\<lambda>pw h. Inr (pw = h)), dummy_password_hash = ''dummy'',
      jwt_encode = tc_jti,
      jwt_decode = (\<lambda>t token. if t < seconds 100
         then Inr \<lparr>dc_sub = Some (str_uuid (if token = ''v'' then 2 else 1)),
                   dc_type = Some (if token = ''v'' then verify_type else reset_type),
                   dc_jti = Some token, dc_exp = Some 100\<rparr>
         else Inl (PyJWTError ''expired'')),
      env_backend_url = ''https://x.org'', session_ttl = 500, reuse_grace = 10\<rparr>"

definition list_queue :: "job_spec list queue_op" where
  "list_queue q js = (Inr (), q @ [js])"

definition sample_settings :: settings where
  "sample_settings = (default_settings ''db'')\<lparr>outbox_batch_size := 1\<rparr>"

definition reset_claims :: decoded_claims where
  "reset_claims = \<lparr>dc_sub = Some (str_uuid 1), dc_type = Some reset_type, dc_jti = Some ''r'', dc_exp = Some 100\<rparr>"

definition verify_claims :: decoded_claims where
  "verify_claims = \<lparr>dc_sub = Some (str_uuid 2), dc_type = Some verify_type, dc_jti = Some ''v'', dc_exp = Some 100\<rparr>"

lemma sample_env_simps [simp]:
  "hashpw sample_env pw salt = Inr pw" "checkpw sample_env pw h = Inr (pw = h)"
  "dummy_password_hash sample_env = ''dummy''" "session_ttl sample_env = 500" "reuse_grace sample_env = 10"
  "t < 100000000 \<Longrightarrow> jwt_decode sample_env t ''r'' = Inr reset_claims"
  "t < 100000000 \<Longrightarrow> jwt_decode sample_env t ''v'' = Inr verify_claims"
  by (simp_all add: sample_env_def reset_claims_def verify_claims_def)

lemma claims_simps [simp]:
  "dc_sub reset_claims = Some (str_uuid 1)" "dc_type reset_claims = Some reset_type"
  "dc_jti reset_claims = Some ''r''" "dc_exp reset_claims = Some 100"
  "dc_sub verify_claims = Some (str_uuid 2)" "dc_type verify_claims = Some verify_type"
  "dc_jti verify_claims = Some ''v''" "dc_exp verify_claims = Some 100"
  by (simp_all add: reset_claims_def verify_claims_def)

lemma fresh_simps [simp]:
  "committed fresh = sample_tables" "working fresh = sample_tables" "budget fresh = None"
  "replica fresh = Some sample_tables" "\<not> force_primary fresh" "\<not> pending fresh"
  by (simp_all add: fresh_def new_session_def)

lemma ann_simps [simp]:
  "u_id ann = 1" "u_email ann = ''ann@x.org''" "u_password_hash ann = ''secret''" "u_is_active ann"
  "u_is_verified ann" "u_pending_password_reset_jti ann = Some ''r''"
  by (simp_all add: ann_def new_user_row_def)

lemma bob_simps [simp]:
  "u_id bob = 2" "u_email bob = ''bob@x.org''" "u_password_hash bob = ''hidden''" "u_is_active bob"
  "\<not> u_is_verified bob" "u_pending_verification_jti bob = Some ''v''"
  by (simp_all add: bob_def new_user_row_def)

lemma sample_finds [simp]:
  "find_user 1 sample_tables = Some ann" "find_user 2 sample_tables = Some bob"
  "find_user_by_email ''ann@x.org'' sample_tables = Some ann"
  "find_user_by_email ''bob@x.org'' sample_tables = Some bob"
  "find_session 7 sample_tables = Some ann_session" "revoked_tokens sample_tables = []"
  by (simp_all add: find_defs sample_tables_def ann_session_def new_refresh_def)

lemma sample_jwt_expires: "jwt_expires sample_env"
  by (simp add: jwt_expires_def sample_env_def)

lemma sample_driver: "driver_names_column (orig_text sample_env)"
proof -
  have "contains s s" for s by (simp add: contains_startswith startswith_def)
  then show ?thesis by (simp add: driver_names_column_def sample_env_def)
qed

lemma sample_tables_ok: "tables_ok sample_tables"
  by code_simp

lemma succeeds: "\<not> isl (fst p) \<Longrightarrow> \<exists>x t. p = (Inr x, t)"
  by (cases p; cases "fst p") auto

end
