(* ===== verification/Witnesses.thy ===== *)
theory Witnesses
  imports Samples
begin

section \<open>Witnesses\<close>

text \<open>
  Each property that has hypotheses, applied to a concrete state on which they hold: the operations
  are evaluated on the sample database, and the property's conclusion is drawn for that run.
\<close>

subsection \<open>Tokens sent by mail, and the session\<close>

lemma auth_sample_decode:
  "decode_token sample_env ''r'' reset_type a b c 1 2 fresh = (Inr reset_claims, fresh)"
  "decode_token sample_env ''v'' verify_type a b c 1 2 fresh = (Inr verify_claims, fresh)"
  by (simp_all add: decode_token_def token_exists_def active_revocation_def read_on_primary_only chain_def)

lemma auth_sample_user:
  "user_for_token reset_claims fresh = (Inr (user_to_entity ann), fresh\<lparr>force_primary := True\<rparr>)"
  "user_for_token verify_claims fresh = (Inr (user_to_entity bob), fresh\<lparr>force_primary := True\<rparr>)"
  by (simp_all add: user_for_token_def user_get_def pinned_live)

lemma sample_reset: "\<exists>t. auth_reset_password sample_env ''r'' ''new'' ''salt'' 1 2 3 9 4 fresh = (Inr (), t)"
proof -
  have "\<not> isl (fst (account_reset_password (orig_text sample_env) 1 ''new'' ''r'' (seconds 100) 3 9 4
      (fresh\<lparr>force_primary := True\<rparr>)))" by code_simp
  then obtain x t where "account_reset_password (orig_text sample_env) 1 ''new'' ''r'' (seconds 100) 3 9 4
      (fresh\<lparr>force_primary := True\<rparr>) = (Inr x, t)" using succeeds by blast
  then show ?thesis
    by (simp add: auth_reset_password_def auth_sample_decode auth_sample_user hash_password_def expiry_of_def)
qed

lemma sample_verify: "\<exists>t. auth_verify_email sample_env ''v'' 1 2 3 9 fresh = (Inr (), t)"
proof -
  have "\<not> isl (fst (account_verify_email (orig_text sample_env) 2 ''v'' (seconds 100) 3 9
      (fresh\<lparr>force_primary := True\<rparr>)))" by code_simp
  then obtain x t where "account_verify_email (orig_text sample_env) 2 ''v'' (seconds 100) 3 9
      (fresh\<lparr>force_primary := True\<rparr>) = (Inr x, t)" using succeeds by blast
  then show ?thesis
    by (simp add: auth_verify_email_def auth_sample_decode auth_sample_user expiry_of_def)
qed

lemma program_run_refl: "program_run P tb tb"
  by (simp add: program_run_def)

lemma reset_link_single_use_witness:
  "\<exists>t. auth_reset_password sample_env ''r'' ''new'' ''salt'' 1 2 3 9 4 fresh = (Inr (), t)
     \<and> fst (auth_reset_password sample_env ''r'' ''other'' ''salt'' 5 6 7 10 8 (new_session (committed t))) \<noteq> Inr ()"
proof -
  obtain t where t: "auth_reset_password sample_env ''r'' ''new'' ''salt'' 1 2 3 9 4 fresh = (Inr (), t)"
    using sample_reset by blast
  have "program_run (\<lambda>oc. oc_clock oc \<le> 5) (committed t) (working (new_session (committed t)))"
    by (simp add: program_run_refl new_session_def)
  from reset_link_single_use [OF sample_jwt_expires t this] t show ?thesis by blast
qed

lemma verification_link_single_use_witness:
  "\<exists>t. auth_verify_email sample_env ''v'' 1 2 3 9 fresh = (Inr (), t)
     \<and> fst (auth_verify_email sample_env ''v'' 5 6 7 10 (new_session (committed t))) \<noteq> Inr ()"
proof -
  obtain t where t: "auth_verify_email sample_env ''v'' 1 2 3 9 fresh = (Inr (), t)"
    using sample_verify by blast
  have "program_run (\<lambda>oc. oc_clock oc \<le> 5) (committed t) (working (new_session (committed t)))"
    by (simp add: program_run_refl new_session_def)
  from verification_link_single_use [OF sample_jwt_expires t this] t show ?thesis by blast
qed

lemma transaction_all_or_nothing_witness:
  "\<exists>t. transaction (db_flush (insert_user bob)) (new_session empty_tables) = (Inr (), t) \<and> users (committed t) = [bob]"
proof -
  have "\<not> isl (fst (transaction (db_flush (insert_user bob)) (new_session empty_tables)))" by code_simp
  then obtain t where t: "transaction (db_flush (insert_user bob)) (new_session empty_tables) = (Inr (), t)"
    using succeeds by fastforce
  have "keeps same_committed (db_flush (insert_user bob))" by (intro frame_intros)
  from transaction_all_or_nothing [OF this t] t show ?thesis
    by (auto dest!: db_flush_Inr simp: insert_Inr new_session_def empty_tables_def)
qed


lemma replica_failover_answers_witness:
  "fst (db_scalar (find_user 1) (fresh\<lparr>replica := None\<rparr>)) = Inr (Some ann)"
  using replica_failover_answers [of "fresh\<lparr>replica := None\<rparr>" "find_user 1"] by simp

lemma failover_keeps_staged_work_witness:
  "working (snd (db_scalar (find_user 1)
     (fresh\<lparr>working := empty_tables, force_primary := True, replica := None\<rparr>))) = empty_tables"
  using failover_keeps_staged_work
      [of "fresh\<lparr>working := empty_tables, force_primary := True, replica := None\<rparr>" "find_user 1"]
  by (simp add: staged_pinned_def)

subsection \<open>Users and accounts\<close>

lemma register_duplicate_email_conflicts_witness:
  "fst (user_register (orig_text sample_env) 3 ''Eve'' ''ann@x.org'' ''h'' ''j'' [] 5 6 7 8 9 fresh)
     = Inl (Domain (conflict_error ''Email already in use''))"
  using register_duplicate_email_conflicts [OF sample_driver, of fresh "''ann@x.org''" 3]
  by (simp add: sample_tables_def)

lemma register_all_or_nothing_witness:
  "\<exists>x t. user_register (orig_text sample_env) 3 ''Eve'' ''eve@x.org'' ''h'' ''j'' [] 5 6 7 8 9 fresh = (Inr x, t)
     \<and> length (users (committed t)) = 3 \<and> length (outbox_events (committed t)) = 3"
proof -
  have "\<not> isl (fst (user_register (orig_text sample_env) 3 ''Eve'' ''eve@x.org'' ''h'' ''j'' [] 5 6 7 8 9 fresh))"
    by code_simp
  then obtain x t where "user_register (orig_text sample_env) 3 ''Eve'' ''eve@x.org'' ''h'' ''j'' [] 5 6 7 8 9 fresh
      = (Inr x, t)" using succeeds by blast
  with register_all_or_nothing [where ot = "orig_text sample_env" and i = 3 and name = "''Eve''"
      and email = "''eve@x.org''" and hash = "''h''" and jti = "''j''" and mail = "[]" and k = 5 and c = 6
      and u = 7 and ei = 8 and ec = 9 and s = fresh]
  show ?thesis by (simp add: Let_def sample_tables_def two_events_def)
qed

lemma user_update_changes_one_row_witness:
  "\<exists>x t. user_update (orig_text sample_env) 1 [SetFullName (Some ''Anna'')] 70 fresh = (Inr (Some x), t)
     \<and> find_user 2 (committed t) = Some bob \<and> user_updated_at x = 70"
proof -
  have "(case fst (user_update (orig_text sample_env) 1 [SetFullName (Some ''Anna'')] 70 fresh) of
      Inr (Some x) \<Rightarrow> user_updated_at x = 70 | _ \<Rightarrow> False)" by code_simp
  then obtain x t where "user_update (orig_text sample_env) 1 [SetFullName (Some ''Anna'')] 70 fresh = (Inr (Some x), t)"
      "user_updated_at x = 70"
    by (auto split: sum.splits option.splits prod.splits) (metis prod.collapse)
  with user_update_changes_one_row [where ot = "orig_text sample_env" and i = 1
      and fs = "[SetFullName (Some ''Anna'')]" and now = 70 and s = fresh]
  show ?thesis by auto
qed

lemma reset_password_one_unit_witness:
  "\<exists>x t. account_reset_password (orig_text sample_env) 1 ''new'' ''r'' 100 3 9 4 fresh = (Inr x, t)
     \<and> revoked_tokens (committed t) = [new_revoked ''r'' 100 9]"
proof -
  have "\<not> isl (fst (account_reset_password (orig_text sample_env) 1 ''new'' ''r'' 100 3 9 4 fresh))" by code_simp
  then obtain x t where "account_reset_password (orig_text sample_env) 1 ''new'' ''r'' 100 3 9 4 fresh = (Inr x, t)"
    using succeeds by blast
  with reset_password_one_unit [where ot = "orig_text sample_env" and uid = 1 and h = "''new''" and jti = "''r''"
      and e = 100 and now = 3 and i = 9 and ?now2.0 = 4 and s = fresh]
  show ?thesis by auto
qed

lemma verify_email_one_unit_witness:
  "\<exists>x t. account_verify_email (orig_text sample_env) 2 ''v'' 100 3 9 fresh = (Inr x, t)
     \<and> revoked_tokens (committed t) = [new_revoked ''v'' 100 9]"
proof -
  have "\<not> isl (fst (account_verify_email (orig_text sample_env) 2 ''v'' 100 3 9 fresh))" by code_simp
  then obtain x t where "account_verify_email (orig_text sample_env) 2 ''v'' 100 3 9 fresh = (Inr x, t)"
    using succeeds by blast
  with verify_email_one_unit [where ot = "orig_text sample_env" and uid = 2 and jti = "''v''" and e = 100
      and now = 3 and i = 9 and s = fresh]
  show ?thesis by auto
qed

abbreviation two_tokens :: "token_ref list" where
  "two_tokens \<equiv> [\<lparr>tr_jti = ''a'', tr_expires_at = 80\<rparr>, \<lparr>tr_jti = ''b'', tr_expires_at = 90\<rparr>]"

lemma close_account_one_unit_witness:
  "\<exists>x t. account_close (orig_text sample_env) 1 two_tokens 3 (\<lambda>k. of_nat k + 20) 4 fresh = (Inr (Some x), t)
     \<and> {''a'', ''b''} \<subseteq> rt_jti ` set (revoked_tokens (committed t))"
proof -
  have "(case fst (account_close (orig_text sample_env) 1 two_tokens 3 (\<lambda>k. of_nat k + 20) 4 fresh) of
      Inr (Some x) \<Rightarrow> True | _ \<Rightarrow> False)" by code_simp
  then obtain x t where "account_close (orig_text sample_env) 1 two_tokens 3 (\<lambda>k. of_nat k + 20) 4 fresh = (Inr (Some x), t)"
    by (auto split: sum.splits option.splits prod.splits) (metis prod.collapse)
  with close_account_one_unit [where ot = "orig_text sample_env" and uid = 1 and toks = two_tokens and now = 3
      and ids = "\<lambda>k. of_nat k + 20" and ?now2.0 = 4 and s = fresh]
  show ?thesis by auto
qed

lemma logout_one_unit_witness:
  "\<exists>t. account_logout 1 two_tokens (Some 7) (\<lambda>k. of_nat k + 20) 4 fresh = (Inr (), t)
     \<and> {''a'', ''b''} \<subseteq> rt_jti ` set (revoked_tokens (committed t)) \<and> users (committed t) = [ann, bob]"
proof -
  have "\<not> isl (fst (account_logout 1 two_tokens (Some 7) (\<lambda>k. of_nat k + 20) 4 fresh))" by code_simp
  then obtain t where "account_logout 1 two_tokens (Some 7) (\<lambda>k. of_nat k + 20) 4 fresh = (Inr (), t)"
    using succeeds by fastforce
  with logout_one_unit [where uid = 1 and toks = two_tokens and sid = "Some 7"
      and ids = "\<lambda>k. of_nat k + 20" and now = 4 and s = fresh]
  show ?thesis by (simp add: sample_tables_def)
qed

subsection \<open>Dead letters and the outbox\<close>

lemma dlq_retry_one_unit_witness:
  "\<exists>x t. dlq_service_retry 8 70 21 71 fresh = (Inr x, t) \<and> length (outbox_events (committed t)) = 3
     \<and> job_retried 8 (committed t)"
proof -
  have "\<not> isl (fst (dlq_service_retry 8 70 21 71 fresh))" by code_simp
  then obtain x t where "dlq_service_retry 8 70 21 71 fresh = (Inr x, t)" using succeeds by blast
  with dlq_retry_one_unit [where job = 8 and now = 70 and ei = 21 and c = 71 and s = fresh]
  show ?thesis by (auto simp: sample_tables_def two_events_def)
qed

lemma dlq_purge_bounded_witness:
  "\<exists>t. dlq_service_purge (Some 60) False fresh = (Inr 1, t) \<and> dead_letter_jobs (committed t) = []"
proof -
  have "\<not> isl (fst (dlq_service_purge (Some 60) False fresh))" by code_simp
  then obtain n t where "dlq_service_purge (Some 60) False fresh = (Inr n, t)" using succeeds by blast
  with dlq_purge_bounded [where before = "Some 60" and only = False and s = fresh]
  show ?thesis by (simp add: sample_tables_def failed_job_def new_dead_def)
qed

definition sample_job :: saq_job where
  "sample_job = \<lparr>sj_key = ''k2'', sj_function = ''f'', sj_queue = None, sj_kwargs = None,
     sj_status = StatusAborted, sj_status_value = ''aborted'', sj_error = None, sj_attempts = 3\<rparr>"

lemma dead_letter_hook_records_witness:
  "\<exists>t. record_dead_letter (Some sample_job) 9 80 fresh = (Inr (), t)
     \<and> dead_letter_jobs (committed t) = [failed_job, job_row sample_job 9 80]"
  using dead_letter_hook_records [where ctx_job = "Some sample_job" and i = 9 and failed_at = 80 and s = fresh]
  by (auto simp: Let_def sample_tables_def sample_job_def dead_letter_status_def failed_job_def new_dead_def)

abbreviation sample_round where
  "sample_round \<equiv> dispatch_pending sample_settings (\<lambda>_. ''error'') list_queue {} (\<lambda>_. 90) 1 (fresh, [])"

lemma sample_round_returns: "\<exists>c s2 q2. sample_round = (Inr c, s2, q2)"
proof -
  have "\<not> isl (fst sample_round)" by code_simp
  then obtain c y where "sample_round = (Inr c, y)" using succeeds by blast
  then show ?thesis by (cases y) auto
qed

lemma relay_round_refines_witness:
  "\<exists>d f s2 q2. sample_round = (Inr (d, f), s2, q2) \<and> d + f = 1
     \<and> map ob_id (outbox_events (committed s2)) = [11, 12]"
proof -
  obtain d f s2 q2 where r: "sample_round = (Inr (d, f), s2, q2)"
    using sample_round_returns by (metis prod.exhaust)
  have "length (select_batch {} 1 sample_tables) = 1" by code_simp
  with relay_round_refines [OF _ r] r show ?thesis
    by (simp add: sample_tables_ok Let_def) (simp add: sample_tables_def two_events_def new_event_def)
qed

lemma relay_failure_keeps_events_witness:
  "\<exists>c s2 q2. sample_round = (Inr c, s2, q2) \<and> length (outbox_events (committed s2)) = 2"
proof -
  obtain c s2 q2 where r: "sample_round = (Inr c, s2, q2)" using sample_round_returns by blast
  with relay_failure_keeps_events [where st = sample_settings and rp = "\<lambda>_. ''error''" and enq = list_queue
      and locked = "{}" and clock = "\<lambda>_. 90" and n = 1 and s = fresh and q = "[]"]
  have "map outbox_key (outbox_events (committed s2)) = map outbox_key two_events" by (simp add: sample_tables_def)
  then have "length (outbox_events (committed s2)) = 2" by (metis length_map two_events_def length_Cons list.size(3) One_nat_def numeral_2_eq_2)
  with r show ?thesis by blast
qed

lemma list_queue_holds: "queue_holds list_queue (\<lambda>js q. js \<in> set q)"
  by (auto simp: queue_holds_def list_queue_def)

lemma dispatched_was_accepted_witness:
  "\<exists>c s2 q2. sample_round = (Inr c, s2, q2) \<and> job_for sample_settings (two_events ! 1) \<in> set q2"
proof -
  obtain c s2 q2 where r: "sample_round = (Inr c, s2, q2)" using sample_round_returns by blast
  have "(case find_outbox 12 (committed (fst (snd sample_round))) of Some r' \<Rightarrow> ob_dispatched_at r' \<noteq> None | None \<Rightarrow> False)"
    by code_simp
  then obtain r' where "find_outbox 12 (committed s2) = Some r'" "ob_dispatched_at r' \<noteq> None"
    unfolding r fst_conv snd_conv by (auto split: option.splits)
  moreover have "two_events ! 1 \<in> set (outbox_events (working fresh))" "event_pending (two_events ! 1)"
    "ob_id (two_events ! 1) = 12"
    by (simp_all add: sample_tables_def two_events_def new_event_def event_pending_def)
  ultimately show ?thesis
    using dispatched_was_accepted [OF list_queue_holds _ r, of "two_events ! 1" r'] sample_tables_ok r by simp
qed

definition sample_relay :: "job_spec list relay" where
  "sample_relay = \<lparr>r_db = fresh, r_queue = [], r_redis = empty_redis, r_failures = 0\<rparr>"

lemma relay_drains_outbox_witness:
  "filter event_pending (outbox_events (committed (r_db (fold (\<lambda>(clock, rnow).
     relay_turn sample_settings (\<lambda>_. ''error'') list_queue {} clock rnow)
       [(\<lambda>_. 90, 91), (\<lambda>_. 95, 96)] sample_relay)))) = []"
proof -
  have "relay_healthy sample_tables" "pending_count sample_tables = 2"
    by (simp_all add: relay_healthy_def sample_tables_ok pending_count_def)
       (simp_all add: sample_tables_def two_events_def payload_ok_def new_event_def event_pending_def)
  with relay_drains_outbox [where enq = list_queue and w = sample_relay and st = sample_settings
      and ticks = "[(\<lambda>_. 90, 91), (\<lambda>_. 95, 96)]" and rp = "\<lambda>_. ''error''"]
  show ?thesis
    by (simp add: sample_relay_def list_queue_def sample_settings_def filter_empty_conv)
qed


lemma cleanup_keeps_undispatched_witness:
  "\<exists>k t. cleanup_dispatched sample_settings 100 fresh = (Inr k, t) \<and> outbox_events (committed t) = two_events"
proof -
  have "\<not> isl (fst (cleanup_dispatched sample_settings 100 fresh))" by code_simp
  then obtain k t where "cleanup_dispatched sample_settings 100 fresh = (Inr k, t)" using succeeds by blast
  with cleanup_keeps_undispatched [where st = sample_settings and now = 100 and s = fresh]
  show ?thesis by (simp add: sample_tables_def two_events_def new_event_def)
qed

subsection \<open>Signing in\<close>

lemma login_uniform_rejection_witness:
  "fst (auth_login sample_env ''no@x.org'' ''pw'' 5 6 7 fresh) = Inl (Domain invalid_credentials_error)
   \<and> fst (auth_login sample_env ''bob@x.org'' ''hidden'' 5 6 7 fresh) = Inl (Domain invalid_credentials_error)"
proof
  have "find_user_by_email ''no@x.org'' sample_tables = None"
    by (simp add: find_user_by_email_def sample_tables_def)
  then show "fst (auth_login sample_env ''no@x.org'' ''pw'' 5 6 7 fresh) = Inl (Domain invalid_credentials_error)"
    using login_uniform_rejection [where s = fresh and env = sample_env and email = "''no@x.org''" and pw = "''pw''"
        and ok = False] by simp
  show "fst (auth_login sample_env ''bob@x.org'' ''hidden'' 5 6 7 fresh) = Inl (Domain invalid_credentials_error)"
    using login_uniform_rejection [where s = fresh and env = sample_env and email = "''bob@x.org''"
        and pw = "''hidden''" and ok = True] by simp
qed

lemma login_opens_session_witness:
  "\<exists>u x t. auth_login sample_env ''ann@x.org'' ''secret'' 5 6 7 fresh = (Inr (u, x), t)
     \<and> length (refresh_sessions (committed t)) = 2"
proof -
  have "\<not> isl (fst (session_create 1 505 6 7 (fresh\<lparr>force_primary := True\<rparr>)))" by code_simp
  then obtain x t where "session_create 1 505 6 7 (fresh\<lparr>force_primary := True\<rparr>) = (Inr x, t)"
    using succeeds by blast
  then have op: "auth_login sample_env ''ann@x.org'' ''secret'' 5 6 7 fresh = (Inr (user_to_entity ann, x), t)"
    by (simp add: auth_login_def authenticate_def check_password_def Let_def user_get_by_email_def pinned_live)
  with login_opens_session [where env = sample_env and email = "''ann@x.org''" and pw = "''secret''"
      and now = 5 and i = 6 and c = 7 and s = fresh]
  show ?thesis by (auto simp: sample_tables_def)
qed

lemma refresh_replayed_cookie_witness:
  "fst (auth_refresh sample_env 1 7 2 50 51 52 53 fresh) = Inl (Domain invalid_refresh_token_error)
   \<and> (\<forall>r. find_session 7 (committed (snd (auth_refresh sample_env 1 7 2 50 51 52 53 fresh))) = Some r
        = (r = ann_session\<lparr>rs_revoked_at := Some 53\<rparr>))"
proof -
  have "rs_user_id ann_session = 1" "rs_revoked_at ann_session = None" "51 < rs_expires_at ann_session"
    "rs_generation ann_session = 4"
    by (simp_all add: ann_session_def new_refresh_def)
  moreover have "find_session 7 (snd (revoke_rows (\<lambda>q. rs_id q = 7) 53 sample_tables)) =
      Some (ann_session\<lparr>rs_revoked_at := Some 53\<rparr>)"
    by code_simp
  ultimately show ?thesis
    using refresh_replayed_cookie [where s = fresh and uid = 1 and ur = ann and sid = 7 and r = ann_session
        and g = 2 and env = sample_env and ?t1.0 = 50 and ?t2.0 = 51 and ?t3.0 = 52 and ?t4.0 = 53]
    by (auto simp: sample_tables_ok Let_def)
qed

lemma refresh_rotates_witness:
  "\<exists>u x t. auth_refresh sample_env 1 7 4 50 51 52 53 fresh = (Inr (u, x), t) \<and> rf_generation x = 5"
proof -
  have "(case fst (session_rotate 7 1 4 50 (fresh\<lparr>force_primary := True\<rparr>)) of Inr (Some x) \<Rightarrow> True | _ \<Rightarrow> False)"
    by code_simp
  then obtain x t where "session_rotate 7 1 4 50 (fresh\<lparr>force_primary := True\<rparr>) = (Inr (Some x), t)"
    by (auto split: sum.splits option.splits prod.splits) (metis prod.collapse)
  then have op: "auth_refresh sample_env 1 7 4 50 51 52 53 fresh = (Inr (user_to_entity ann, x), t)"
    by (simp add: auth_refresh_def user_get_def pinned_live)
  from refresh_rotates [OF this] op show ?thesis by auto
qed

lemma forgot_password_answers_alike_witness:
  "fst (auth_forgot_password sample_env ''no@x.org'' 5 6 7 21 9 fresh)
     = fst (auth_forgot_password sample_env ''ann@x.org'' 5 6 7 21 9 fresh)"
proof -
  have f: "21 \<notin> ob_id ` set (outbox_events sample_tables)"
    by (simp add: sample_tables_def two_events_def new_event_def)
  have n: "find_user_by_email ''no@x.org'' sample_tables = None"
    by (simp add: find_user_by_email_def sample_tables_def)
  show ?thesis
    using forgot_password_answers_alike [where s = fresh and rep = sample_tables and ei = 21 and env = sample_env
        and email = "''no@x.org''" and now = 5 and u = 6 and ?t2.0 = 7 and c = 9]
      forgot_password_answers_alike [where s = fresh and rep = sample_tables and ei = 21 and env = sample_env
        and email = "''ann@x.org''" and now = 5 and u = 6 and ?t2.0 = 7 and c = 9] f n
    by (simp add: sample_tables_ok)
qed

subsection \<open>Whole runs\<close>

text \<open>One step of the program: an event is staged for a new user.\<close>

lemma sample_step: "\<exists>tb. program_step \<lparr>oc_session = None, oc_job = None, oc_clock = 0\<rparr> empty_tables tb \<and> users tb \<noteq> []"
proof -
  let ?op = "chain (user_add (orig_text sample_env) ''Eve'' ''e@x.org'' ''h'' 3 5 6) (\<lambda>_. ret ())"
  have "users (committed (snd (?op (new_session empty_tables)))) \<noteq> []" by code_simp
  moreover have "program_step \<lparr>oc_session = None, oc_job = None, oc_clock = 0\<rparr> empty_tables
      (committed (snd (?op (new_session empty_tables))))"
    unfolding program_step_def
    by (rule exI [of _ ?op], rule exI [of _ "new_session empty_tables"],
        rule exI [of _ "fst (?op (new_session empty_tables))"], rule exI [of _ "snd (?op (new_session empty_tables))"])
       (simp add: op_user_add new_session_def)
  ultimately show ?thesis by blast
qed


text \<open>Two attempts with the same cookie: the first is handed the next generation.\<close>

lemma refresh_generation_claimed_once_witness:
  "\<exists>b tb'. claim_trace (rotation_attempt 7 4) (\<lambda>tb tb'. \<exists>oc. oc_session oc \<noteq> Some 7 \<and> program_step oc tb tb')
       sample_tables [True, b] tb' \<and> \<not> b"
proof -
  let ?one = "session_rotate 7 1 4 50"
  obtain x t where 1: "?one fresh = (Inr (Some x), t)"
  proof -
    have "(case fst (?one fresh) of Inr (Some x) \<Rightarrow> True | _ \<Rightarrow> False)" by code_simp
    with that show thesis by (auto split: sum.splits option.splits prod.splits) (metis prod.collapse)
  qed
  obtain r t2 where 2: "?one (new_session (committed t)) = (r, t2)" by (rule prod.exhaust)
  define b where "b = (\<exists>x. r = Inr (Some x))"
  have "rotation_attempt 7 4 sample_tables True (committed t)"
    unfolding rotation_attempt_def using 1
    by (intro exI [of _ fresh] exI [of _ "Inr (Some x)"] exI [of _ t] exI [of _ 1] exI [of _ 50]) simp
  moreover have "rotation_attempt 7 4 (committed t) b (committed t2)"
    unfolding rotation_attempt_def b_def using 2
    by (intro exI [of _ "new_session (committed t)"] exI [of _ r] exI [of _ t2] exI [of _ 1] exI [of _ 50])
       (simp add: new_session_def)
  ultimately have tr: "claim_trace (rotation_attempt 7 4)
      (\<lambda>tb tb'. \<exists>oc. oc_session oc \<noteq> Some 7 \<and> program_step oc tb tb') sample_tables [True, b] (committed t2)"
    by (rule trace_claim [OF _ trace_claim [OF _ trace_done]])
  from refresh_generation_claimed_once [OF this sample_tables_ok] tr show ?thesis by (cases b) auto
qed


lemma password_reset_ends_sessions_witness:
  "\<exists>x t. account_reset_password (orig_text sample_env) 1 ''new'' ''r'' 100 3 9 4 fresh = (Inr x, t)
     \<and> (\<forall>y. (fst (session_rotate 7 1 4 50 (new_session (committed t))) = Inr (Some y)) = False)"
proof -
  have "\<not> isl (fst (account_reset_password (orig_text sample_env) 1 ''new'' ''r'' 100 3 9 4 fresh))" by code_simp
  then obtain x t where op: "account_reset_password (orig_text sample_env) 1 ''new'' ''r'' 100 3 9 4 fresh = (Inr x, t)"
    using succeeds by blast
  have "map rs_user_id (refresh_sessions (committed (snd
      (account_reset_password (orig_text sample_env) 1 ''new'' ''r'' 100 3 9 4 fresh)))) = [1]" by code_simp
  then have own: "\<forall>r \<in> set (refresh_sessions (committed t)). rs_id r = 7 \<longrightarrow> rs_user_id r = 1"
    unfolding op snd_conv by (cases "refresh_sessions (committed t)") auto
  have "program_run (\<lambda>oc. oc_session oc \<noteq> Some 7) (committed t) (working (new_session (committed t)))"
    by (simp add: program_run_refl new_session_def)
  from password_reset_ends_sessions [OF op own this] op show ?thesis by blast
qed

lemma logout_ends_session_witness:
  "\<exists>t. account_logout 1 [] (Some 7) (\<lambda>k. of_nat k) 4 fresh = (Inr (), t)
     \<and> (\<forall>y. (fst (session_rotate 7 1 4 50 (new_session (committed t))) = Inr (Some y)) = False)"
proof -
  let ?op = "account_logout 1 [] (Some 7) (\<lambda>k. of_nat k) 4 fresh"
  have "\<not> isl (fst ?op)" by code_simp
  then obtain t where op: "?op = (Inr (), t)" using succeeds by fastforce
  have "map rs_user_id (refresh_sessions (committed (snd ?op))) = [1]" by code_simp
  then have own: "\<forall>r \<in> set (refresh_sessions (committed t)). rs_id r = 7 \<longrightarrow> rs_user_id r = 1"
    unfolding op snd_conv by (cases "refresh_sessions (committed t)") auto
  have "program_run (\<lambda>oc. oc_session oc \<noteq> Some 7) (committed t) (working (new_session (committed t)))"
    by (simp add: program_run_refl new_session_def)
  from logout_ends_session [OF op own this] op show ?thesis by blast
qed

end
