(* ===== verification/Schema.thy ===== *)
theory Schema
  imports Prelude PyText
begin

section \<open>Schemas and the statements of the migrations\<close>

text \<open>
  A database as the migrations see it: its tables (columns, keys, rows) and indexes; the DDL
  statements and the data statements that \<open>alembic/versions/*.py\<close> issue, with what PostgreSQL
  refuses. Column values are their text, \<open>None\<close> is NULL. Every statement keeps the database
  well-formed, and a statement that creates is undone by the one that drops.
\<close>

datatype sql_type =
  SqlUUID | SqlString "nat option" | SqlText | SqlBoolean | SqlInteger | SqlTimestampTZ | SqlJSONB

record column =
  col_name :: string
  col_type :: sql_type
  col_nullable :: bool
  col_default :: "string option"

record foreign_key =
  fk_column :: string
  fk_table :: string
  fk_target :: string
  fk_on_delete :: string

record sql_index =
  ix_name :: string
  ix_columns :: "string list"
  ix_unique :: bool
  ix_where :: "string option"

record sql_table =
  st_columns :: "column list"
  st_primary :: "string list"
  st_unique :: "string list list"
  st_foreign :: "foreign_key list"
  st_indexes :: "sql_index list"
  st_rows :: "(string \<times> string option) list list"

type_synonym catalog = "(string \<times> sql_table) list"

datatype ddl =
  CreateTable string sql_table
| DropTable string
| AddColumn string column
| DropColumn string string
| AlterNullable string string bool
| AlterDefault string string string
| CreateIndex string sql_index
| DropIndex string string
| UpdateText string string "string \<Rightarrow> string option"

datatype ddl_error =
  DuplicateTable string | UndefinedTable string | DuplicateColumn string | UndefinedColumn string
| DuplicateIndex string | UndefinedIndex string | NotNullViolated string | UniqueViolated string
| DependentObjects string | InvalidDefinition string

type_synonym 'a migration = "(catalog, ddl_error, 'a) act"

subsection \<open>The statements\<close>

definition put_table :: "string \<Rightarrow> sql_table \<Rightarrow> catalog \<Rightarrow> catalog" where
  "put_table t tb c = map (\<lambda>(n, x). (n, if n = t then tb else x)) c"

definition columns :: "sql_table \<Rightarrow> string list" where
  "columns tb = map col_name (st_columns tb)"

definition index_names :: "catalog \<Rightarrow> string list" where
  "index_names c = concat (map (\<lambda>p. map ix_name (st_indexes (snd p))) c)"

definition referenced :: "string \<Rightarrow> catalog \<Rightarrow> bool" where
  "referenced t c \<longleftrightarrow> list_ex (\<lambda>(n, tb). n \<noteq> t \<and> list_ex (\<lambda>k. fk_table k = t) (st_foreign tb)) c"

definition cell :: "string \<Rightarrow> (string \<times> string option) list \<Rightarrow> string option" where
  "cell n row = (case map_of row n of None \<Rightarrow> None | Some v \<Rightarrow> v)"

definition change_column :: "string \<Rightarrow> (column \<Rightarrow> column) \<Rightarrow> sql_table \<Rightarrow> sql_table" where
  "change_column n f tb = tb\<lparr>st_columns := update_where (\<lambda>k. col_name k = n) f (st_columns tb)\<rparr>"

text \<open>Rows that are equal and not NULL in every column of a unique index violate it.\<close>

definition keys_distinct :: "string list \<Rightarrow> (string \<times> string option) list list \<Rightarrow> bool" where
  "keys_distinct cols rows =
     distinct (filter (\<lambda>vs. None \<notin> set vs) (map (\<lambda>r. map (\<lambda>n. cell n r) cols) rows))"

definition drop_cell :: "string \<Rightarrow> (string \<times> string option) list \<Rightarrow> (string \<times> string option) list" where
  "drop_cell n row = filter (\<lambda>(k, v). k \<noteq> n) row"

text \<open>\<open>DROP COLUMN\<close> takes the indexes and constraints on the column with it.\<close>

definition drop_column :: "string \<Rightarrow> sql_table \<Rightarrow> sql_table" where
  "drop_column n tb =
     tb\<lparr>st_columns := delete_where (\<lambda>k. col_name k = n) (st_columns tb),
        st_primary := (if n \<in> set (st_primary tb) then [] else st_primary tb),
        st_unique := delete_where (\<lambda>u. n \<in> set u) (st_unique tb),
        st_foreign := delete_where (\<lambda>k. fk_column k = n) (st_foreign tb),
        st_indexes := delete_where (\<lambda>x. n \<in> set (ix_columns x)) (st_indexes tb),
        st_rows := map (drop_cell n) (st_rows tb)\<rparr>"

definition update_cell :: "string \<Rightarrow> (string \<Rightarrow> string option) \<Rightarrow> (string \<times> string option) list
    \<Rightarrow> (string \<times> string option) list" where
  "update_cell n f row =
     map (\<lambda>(k, v). (k, if k = n then (case v of None \<Rightarrow> None
                                     | Some x \<Rightarrow> (case f x of None \<Rightarrow> v | Some y \<Rightarrow> Some y)) else v)) row"

definition on_table :: "string \<Rightarrow> (sql_table \<Rightarrow> ddl_error + sql_table) \<Rightarrow> unit migration" where
  "on_table t f =
     (\<lambda>c. case map_of c t of None \<Rightarrow> (Inl (UndefinedTable t), c)
          | Some tb \<Rightarrow> (case f tb of Inl e \<Rightarrow> (Inl e, c) | Inr tb' \<Rightarrow> (Inr (), put_table t tb' c)))"

definition has_column :: "string \<Rightarrow> (sql_table \<Rightarrow> ddl_error + sql_table) \<Rightarrow> sql_table \<Rightarrow> ddl_error + sql_table" where
  "has_column n f tb = (if n \<in> set (columns tb) then f tb else Inl (UndefinedColumn n))"

text \<open>A table's keys are made of its columns; a foreign key names a column of a table there is.\<close>

definition keys_ok :: "sql_table \<Rightarrow> bool" where
  "keys_ok tb \<longleftrightarrow>
     distinct (columns tb) \<and> set (st_primary tb) \<subseteq> set (columns tb)
   \<and> list_all (\<lambda>u. set u \<subseteq> set (columns tb)) (st_unique tb)
   \<and> list_all (\<lambda>k. fk_column k \<in> set (columns tb)) (st_foreign tb)"

definition foreign_ok :: "catalog \<Rightarrow> foreign_key \<Rightarrow> bool" where
  "foreign_ok c k \<longleftrightarrow>
     (case map_of c (fk_table k) of None \<Rightarrow> False | Some x \<Rightarrow> fk_target k \<in> set (columns x))"

fun run_ddl :: "ddl \<Rightarrow> unit migration" where
  "run_ddl (CreateTable t tb) =
     (\<lambda>c. if map_of c t \<noteq> None then (Inl (DuplicateTable t), c)
          else if \<not> keys_ok tb then (Inl (InvalidDefinition t), c)
          else if \<not> list_all (foreign_ok (c @ [(t, tb)])) (st_foreign tb) then (Inl (UndefinedTable t), c)
          else (Inr (), c @ [(t, tb\<lparr>st_indexes := [], st_rows := []\<rparr>)]))"
| "run_ddl (DropTable t) =
     (\<lambda>c. if map_of c t = None then (Inl (UndefinedTable t), c)
          else if referenced t c then (Inl (DependentObjects t), c)
          else (Inr (), delete_where (\<lambda>(n, tb). n = t) c))"
| "run_ddl (AddColumn t col) =
     on_table t (\<lambda>tb.
       if col_name col \<in> set (columns tb) then Inl (DuplicateColumn (col_name col))
       else if \<not> col_nullable col \<and> col_default col = None \<and> st_rows tb \<noteq> []
       then Inl (NotNullViolated (col_name col))
       else Inr (tb\<lparr>st_columns := st_columns tb @ [col],
                    st_rows := map (\<lambda>r. r @ [(col_name col, col_default col)]) (st_rows tb)\<rparr>))"
| "run_ddl (DropColumn t n) =
     (\<lambda>c. if list_ex (\<lambda>(m, tb). list_ex (\<lambda>k. fk_table k = t \<and> fk_target k = n) (st_foreign tb)) c
          then (Inl (DependentObjects n), c)
          else on_table t (has_column n (\<lambda>tb. Inr (drop_column n tb))) c)"
| "run_ddl (AlterNullable t n nullable) =
     on_table t (has_column n (\<lambda>tb.
       if \<not> nullable \<and> list_ex (\<lambda>r. cell n r = None) (st_rows tb) then Inl (NotNullViolated n)
       else Inr (change_column n (\<lambda>k. k\<lparr>col_nullable := nullable\<rparr>) tb)))"
| "run_ddl (AlterDefault t n d) =
     on_table t (has_column n (\<lambda>tb. Inr (change_column n (\<lambda>k. k\<lparr>col_default := Some d\<rparr>) tb)))"
| "run_ddl (CreateIndex t ix) =
     (\<lambda>c. if ix_name ix \<in> set (index_names c) then (Inl (DuplicateIndex (ix_name ix)), c)
          else on_table t (\<lambda>tb.
                 if \<not> set (ix_columns ix) \<subseteq> set (columns tb) then Inl (UndefinedColumn (concat (ix_columns ix)))
                 else if ix_unique ix \<and> \<not> keys_distinct (ix_columns ix) (st_rows tb)
                 then Inl (UniqueViolated (ix_name ix))
                 else Inr (tb\<lparr>st_indexes := st_indexes tb @ [ix]\<rparr>)) c)"
| "run_ddl (DropIndex t name) =
     on_table t (\<lambda>tb.
       if name \<notin> set (map ix_name (st_indexes tb)) then Inl (UndefinedIndex name)
       else Inr (tb\<lparr>st_indexes := delete_where (\<lambda>x. ix_name x = name) (st_indexes tb)\<rparr>))"
| "run_ddl (UpdateText t n f) =
     on_table t (has_column n (\<lambda>tb. Inr (tb\<lparr>st_rows := map (update_cell n f) (st_rows tb)\<rparr>)))"

subsection \<open>Every statement keeps the database well-formed\<close>

definition row_ok :: "column list \<Rightarrow> (string \<times> string option) list \<Rightarrow> bool" where
  "row_ok cols r \<longleftrightarrow> map fst r = map col_name cols
     \<and> (\<forall>k \<in> set cols. col_nullable k \<or> cell (col_name k) r \<noteq> None)"

definition table_ok :: "sql_table \<Rightarrow> bool" where
  "table_ok tb \<longleftrightarrow> keys_ok tb
     \<and> (\<forall>x \<in> set (st_indexes tb). set (ix_columns x) \<subseteq> set (columns tb))
     \<and> (\<forall>r \<in> set (st_rows tb). row_ok (st_columns tb) r)"

definition catalog_ok :: "catalog \<Rightarrow> bool" where
  "catalog_ok c \<longleftrightarrow> distinct (map fst c) \<and> distinct (index_names c)
     \<and> (\<forall>(n, tb) \<in> set c. table_ok tb \<and> (\<forall>k \<in> set (st_foreign tb). foreign_ok c k))"

lemma table_split:
  assumes "map_of c t = Some tb" and "distinct (map fst c)"
  obtains xs ys where "c = xs @ (t, tb) # ys" and "\<And>x. put_table t x c = xs @ (t, x) # ys"
    and "t \<notin> fst ` set xs" and "t \<notin> fst ` set ys"
proof -
  from assms(1) have "(t, tb) \<in> set c" by (rule map_of_SomeD)
  then obtain xs ys where c: "c = xs @ (t, tb) # ys" by (meson split_list)
  with assms(2) have out: "t \<notin> fst ` set xs" "t \<notin> fst ` set ys" by auto
  have "map (\<lambda>(n, y). (n, if n = t then x else y)) zs = zs" if "t \<notin> fst ` set zs" for x and zs :: catalog
    using that by (intro map_idI) (force simp: image_iff split: if_splits)
  with out c have "put_table t x c = xs @ (t, x) # ys" for x by (simp add: put_table_def)
  with that c out show thesis by blast
qed

lemma fst_put [simp]: "map fst (put_table t tb c) = map fst c"
  by (induction c) (auto simp: put_table_def)

lemma map_of_put: "map_of (put_table t x c) n = (if n = t then map_option (\<lambda>_. x) (map_of c t) else map_of c n)"
  by (induction c) (auto simp: put_table_def)

lemma put_put [simp]: "put_table t a (put_table t b c) = put_table t a c"
  by (induction c) (auto simp: put_table_def)

lemma put_same: "map_of c t = Some tb \<Longrightarrow> distinct (map fst c) \<Longrightarrow> put_table t tb c = c"
  by (metis table_split)

lemma set_put: "distinct (map fst c) \<Longrightarrow> map_of c t = Some tb \<Longrightarrow>
    set (put_table t x c) = insert (t, x) (set c - {(t, tb)})"
  by (erule (1) table_split) (auto simp: image_iff)

lemma index_names_append: "index_names (xs @ (t, x) # ys) = index_names xs @ map ix_name (st_indexes x) @ index_names ys"
  by (simp add: index_names_def)

text \<open>Replacing a table by one with the same or more columns, or by one nobody refers to.\<close>

lemma put_ok:
  assumes "catalog_ok c" and "map_of c t = Some tb" and "table_ok x"
    and "st_foreign x = st_foreign tb \<or> set (st_foreign x) \<subseteq> set (st_foreign tb)"
    and "\<And>n k. (n, k) \<in> set c \<Longrightarrow> \<forall>f \<in> set (st_foreign k). fk_table f = t \<and> fk_target f \<in> set (columns tb)
          \<longrightarrow> fk_target f \<in> set (columns x)"
    and "distinct (map ix_name (st_indexes x))"
    and "set (map ix_name (st_indexes x)) \<inter> set (index_names c) \<subseteq> set (map ix_name (st_indexes tb))"
  shows "catalog_ok (put_table t x c)"
proof -
  have d: "distinct (map fst c)" and names: "distinct (index_names c)" using assms(1) by (simp_all add: catalog_ok_def)
  obtain xs ys where c: "c = xs @ (t, tb) # ys" and p: "put_table t x c = xs @ (t, x) # ys"
    using table_split [OF assms(2) d] by metis
  have fk: "foreign_ok (put_table t x c) f" if "foreign_ok c f" "(n, k) \<in> set c" "f \<in> set (st_foreign k)" for f n k
    using that assms(2) assms(5) [OF that(2)] by (auto simp: foreign_ok_def map_of_put split: option.splits)
  have "foreign_ok c f" if "(n, k) \<in> set c" "f \<in> set (st_foreign k)" for n k f
    using assms(1) that by (auto simp: catalog_ok_def)
  with fk have all: "foreign_ok (put_table t x c) f" if "(n, k) \<in> set c" "f \<in> set (st_foreign k)" for n k f
    using that by blast
  have "\<forall>f \<in> set (st_foreign x). foreign_ok (put_table t x c) f"
    using all [of t tb] c assms(4) by auto
  moreover have "\<forall>(n, k) \<in> set xs \<union> set ys. table_ok k \<and> (\<forall>f \<in> set (st_foreign k). foreign_ok (put_table t x c) f)"
  proof (rule ballI, unfold split_beta)
    fix q assume "q \<in> set xs \<union> set ys"
    then have "(fst q, snd q) \<in> set c" by (auto simp: c)
    with assms(1) all show "table_ok (snd q) \<and> (\<forall>f \<in> set (st_foreign (snd q)). foreign_ok (put_table t x c) f)"
      unfolding catalog_ok_def by blast
  qed
  moreover have "distinct (index_names (put_table t x c))"
    using names assms(6,7) unfolding p unfolding c index_names_append by auto
  ultimately show ?thesis
    using d assms(3) unfolding catalog_ok_def fst_put by (auto simp: p)
qed

lemma on_table_ok:
  assumes "catalog_ok c"
    and "\<And>tb x. map_of c t = Some tb \<Longrightarrow> f tb = Inr x \<Longrightarrow> catalog_ok (put_table t x c)"
  shows "catalog_ok (snd (on_table t f c))"
  using assms by (auto simp: on_table_def split: option.split sum.split)

lemma table_parts:
  assumes "catalog_ok c" and "map_of c t = Some tb"
  shows "table_ok tb" and "distinct (map ix_name (st_indexes tb))"
    and "set (map ix_name (st_indexes tb)) \<subseteq> set (index_names c)"
proof -
  have d: "distinct (map fst c)" using assms(1) by (simp add: catalog_ok_def)
  obtain xs ys where c: "c = xs @ (t, tb) # ys" using table_split [OF assms(2) d] by metis
  show "table_ok tb" "distinct (map ix_name (st_indexes tb))"
    "set (map ix_name (st_indexes tb)) \<subseteq> set (index_names c)"
    using assms(1) unfolding catalog_ok_def c index_names_append by auto
qed

lemma cell_append: "cell n (r @ [(m, v)]) = (if n \<in> fst ` set r then cell n r else if n = m then v else None)"
  using map_of_eq_None_iff [of r n] by (cases "map_of r n") (auto simp: cell_def map_add_def split: option.split)

lemma cell_drop: "n \<noteq> m \<Longrightarrow> cell n (drop_cell m r) = cell n r"
  by (induction r) (auto simp: cell_def drop_cell_def)

lemma cell_update:
  "cell n (update_cell m f r) =
     (if n = m then map_option (\<lambda>x. case f x of None \<Rightarrow> x | Some y \<Rightarrow> y) (cell n r) else cell n r)"
proof -
  let ?g = "\<lambda>v. case v of None \<Rightarrow> None | Some x \<Rightarrow> (case f x of None \<Rightarrow> v | Some y \<Rightarrow> Some y)"
  have "map_of (update_cell m f r) n = (if n = m then map_option ?g (map_of r n) else map_of r n)"
    by (cases "n = m"; induction r) (simp_all add: update_cell_def split_beta)
  then show ?thesis by (simp add: cell_def split: option.split)
qed

lemma add_column_ok:
  assumes "table_ok tb" and "col_name col \<notin> set (columns tb)"
    and "col_nullable col \<or> col_default col \<noteq> None \<or> st_rows tb = []"
  shows "table_ok (tb\<lparr>st_columns := st_columns tb @ [col],
           st_rows := map (\<lambda>r. r @ [(col_name col, col_default col)]) (st_rows tb)\<rparr>)"
proof -
  have "row_ok (st_columns tb @ [col]) (r @ [(col_name col, col_default col)])" if "r \<in> set (st_rows tb)" for r
  proof -
    have r: "row_ok (st_columns tb) r" using assms(1) that by (simp add: table_ok_def)
    then have "set (map fst r) = set (columns tb)" by (simp only: row_ok_def columns_def)
    then have keys: "fst ` set r = set (columns tb)" by simp
    show ?thesis
      using r assms(2,3) that
      by (auto simp: row_ok_def cell_append keys columns_def)
  qed
  then show ?thesis using assms(1,2) by (auto simp: table_ok_def keys_ok_def columns_def list_all_iff)
qed

lemma drop_column_parts:
  "columns (drop_column n tb) = filter (\<lambda>k. k \<noteq> n) (columns tb)"
  "set (st_foreign (drop_column n tb)) \<subseteq> set (st_foreign tb)"
  "distinct (map ix_name (st_indexes tb)) \<Longrightarrow> distinct (map ix_name (st_indexes (drop_column n tb)))"
  "set (map ix_name (st_indexes (drop_column n tb))) \<subseteq> set (map ix_name (st_indexes tb))"
proof -
  have "map col_name (delete_where (\<lambda>k. col_name k = n) ks) = filter (\<lambda>k. k \<noteq> n) (map col_name ks)"
    for ks :: "column list" by (induction ks) (auto simp: delete_where_def)
  then show "columns (drop_column n tb) = filter (\<lambda>k. k \<noteq> n) (columns tb)"
    by (simp add: columns_def drop_column_def)
qed (auto simp: drop_column_def set_delete_where, simp add: delete_where_def distinct_map_filter)

lemma drop_column_ok: "table_ok tb \<Longrightarrow> table_ok (drop_column n tb)"
proof -
  assume ok: "table_ok tb"
  have "row_ok (st_columns (drop_column n tb)) (drop_cell n r)" if r: "row_ok (st_columns tb) r" for r
  proof -
    have "map fst (drop_cell n r) = filter (\<lambda>k. k \<noteq> n) (map fst r)"
      by (induction r) (auto simp: drop_cell_def)
    also have "\<dots> = columns (drop_column n tb)"
      using r unfolding drop_column_parts(1) by (simp add: row_ok_def columns_def)
    finally show ?thesis
      using r by (auto simp: row_ok_def cell_drop drop_column_def set_delete_where columns_def)
  qed
  moreover have "keys_ok (drop_column n tb)"
    using ok unfolding keys_ok_def drop_column_parts(1) table_ok_def
    by (auto simp: drop_column_def set_delete_where list_all_iff)
  ultimately show ?thesis
    using ok unfolding table_ok_def drop_column_parts(1) by (auto simp: drop_column_def set_delete_where)
qed

lemma change_column_ok:
  assumes "table_ok tb" and "\<And>k. col_name (f k) = col_name k"
    and "\<And>k r. k \<in> set (st_columns tb) \<Longrightarrow> col_name k = n \<Longrightarrow> r \<in> set (st_rows tb)
          \<Longrightarrow> col_nullable (f k) \<or> cell n r \<noteq> None \<or> \<not> col_nullable k"
  shows "table_ok (change_column n f tb)" and "columns (change_column n f tb) = columns tb"
proof -
  show cols: "columns (change_column n f tb) = columns tb"
    by (auto simp: columns_def change_column_def update_where_def assms(2))
  have "row_ok (update_where (\<lambda>k. col_name k = n) f (st_columns tb)) r" if "r \<in> set (st_rows tb)" for r
  proof -
    have r: "row_ok (st_columns tb) r" using assms(1) that by (simp add: table_ok_def)
    have "map col_name (update_where (\<lambda>k. col_name k = n) f (st_columns tb)) = map fst r"
      using cols r by (simp add: columns_def change_column_def row_ok_def)
    moreover have "col_nullable k \<or> cell (col_name k) r \<noteq> None"
      if "k \<in> set (update_where (\<lambda>k. col_name k = n) f (st_columns tb))" for k
      using that
    proof (rule update_where_memE)
      fix q assume q: "q \<in> set (st_columns tb)" "k = (if col_name q = n then f q else q)"
      have "col_nullable q \<or> cell (col_name q) r \<noteq> None" using r q(1) by (auto simp: row_ok_def)
      then show ?thesis using q assms(3) [of q r] assms(2) \<open>r \<in> set (st_rows tb)\<close> by (cases "col_name q = n") auto
    qed
    ultimately show ?thesis by (simp add: row_ok_def)
  qed
  then show "table_ok (change_column n f tb)"
    using assms(1) cols by (simp add: table_ok_def keys_ok_def change_column_def)
qed

lemma index_names_delete: "distinct (index_names c) \<Longrightarrow> distinct (index_names (delete_where p c))"
proof (induction c)
  case (Cons a c)
  have "set (index_names (delete_where p c)) \<subseteq> set (index_names c)"
    by (auto simp: index_names_def delete_where_def)
  with Cons show ?case by (auto simp: delete_where_def index_names_def)
qed (simp add: delete_where_def)

lemma ddl_ok: "catalog_ok c \<Longrightarrow> catalog_ok (snd (run_ddl d c))"
proof (induction d rule: run_ddl.induct)
  case (1 t tb)
  let ?new = "c @ [(t, tb\<lparr>st_indexes := [], st_rows := []\<rparr>)]"
  show ?case
  proof (cases "map_of c t = None \<and> keys_ok tb \<and> list_all (foreign_ok (c @ [(t, tb)])) (st_foreign tb)")
    case True
    have later: "foreign_ok ?new k" if "foreign_ok (c @ [(t, tb)]) k" for k
      using that by (auto simp: foreign_ok_def columns_def map_add_def split: option.splits if_splits)
    have old: "foreign_ok ?new k" if "foreign_ok c k" for k
      using that True by (auto simp: foreign_ok_def map_add_def split: option.splits if_splits)
    have "t \<notin> fst ` set c" using True by (simp add: map_of_eq_None_iff)
    moreover have "index_names ?new = index_names c" by (simp add: index_names_def)
    moreover have "table_ok (tb\<lparr>st_indexes := [], st_rows := []\<rparr>)"
      using True by (simp add: table_ok_def keys_ok_def columns_def)
    ultimately show ?thesis
      using 1 True later old by (auto simp: catalog_ok_def list_all_iff)
  next
    case False
    with 1 show ?thesis by auto
  qed
next
  case (2 t)
  show ?case
  proof (cases "map_of c t = None \<or> referenced t c")
    case False
    have "foreign_ok (delete_where (\<lambda>(n, tb). n = t) c) k"
      if "(n, tb) \<in> set c" "n \<noteq> t" "k \<in> set (st_foreign tb)" for n tb k
    proof -
      have "fk_table k \<noteq> t" using False that by (auto simp: referenced_def list_ex_iff)
      moreover have "map_of (delete_where (\<lambda>(n, tb). n = t) c) m = map_of c m" if "m \<noteq> t" for m
        using that by (induction c) (auto simp: delete_where_def)
      moreover have "foreign_ok c k" using 2 that by (auto simp: catalog_ok_def)
      ultimately show ?thesis by (simp add: foreign_ok_def)
    qed
    moreover have "distinct (index_names (delete_where (\<lambda>(n, tb). n = t) c))"
      using 2 by (simp add: catalog_ok_def index_names_delete)
    ultimately show ?thesis
      using 2 False unfolding catalog_ok_def
      by (auto simp: set_delete_where) (simp add: delete_where_def distinct_map_filter)
  qed (use 2 in auto)
next
  case (3 t col)
  show ?case
    unfolding run_ddl.simps
  proof (rule on_table_ok [OF 3])
    fix tb x
    assume t: "map_of c t = Some tb"
      and x: "(if col_name col \<in> set (columns tb) then Inl (DuplicateColumn (col_name col))
        else if \<not> col_nullable col \<and> col_default col = None \<and> st_rows tb \<noteq> []
        then Inl (NotNullViolated (col_name col))
        else Inr (tb\<lparr>st_columns := st_columns tb @ [col],
                     st_rows := map (\<lambda>r. r @ [(col_name col, col_default col)]) (st_rows tb)\<rparr>)) = Inr x"
    then show "catalog_ok (put_table t x c)"
      using table_parts [OF 3 t] by (intro put_ok [OF 3 t]) (auto split: if_splits simp: columns_def intro!: add_column_ok)
  qed
next
  case (4 t n)
  have "catalog_ok (snd (on_table t (has_column n (\<lambda>tb. Inr (drop_column n tb))) c))"
    if free: "\<not> list_ex (\<lambda>(m, tb). list_ex (\<lambda>k. fk_table k = t \<and> fk_target k = n) (st_foreign tb)) c"
  proof (rule on_table_ok [OF 4])
    fix tb x
    assume t: "map_of c t = Some tb" and "has_column n (\<lambda>tb. Inr (drop_column n tb)) tb = Inr x"
    then have x: "x = drop_column n tb" by (simp add: has_column_def split: if_splits)
    show "catalog_ok (put_table t x c)"
    proof (rule put_ok [OF 4 t])
      show "table_ok x" using drop_column_ok [OF table_parts(1) [OF 4 t]] x by simp
      show "st_foreign x = st_foreign tb \<or> set (st_foreign x) \<subseteq> set (st_foreign tb)"
        using drop_column_parts(2) x by simp
      show "\<forall>f \<in> set (st_foreign k). fk_table f = t \<and> fk_target f \<in> set (columns tb) \<longrightarrow> fk_target f \<in> set (columns x)"
        if "(m, k) \<in> set c" for m k
        using free that by (auto simp: x drop_column_parts(1) list_ex_iff)
      show "distinct (map ix_name (st_indexes x))"
        using drop_column_parts(3) [OF table_parts(2) [OF 4 t]] x by simp
      show "set (map ix_name (st_indexes x)) \<inter> set (index_names c) \<subseteq> set (map ix_name (st_indexes tb))"
        using drop_column_parts(4) [of n tb] x by auto
    qed
  qed
  with 4 show ?case by auto
next
  case (5 t n b)
  show ?case
    unfolding run_ddl.simps
  proof (rule on_table_ok [OF 5])
    fix tb x
    assume t: "map_of c t = Some tb"
      and "has_column n (\<lambda>tb. if \<not> b \<and> list_ex (\<lambda>r. cell n r = None) (st_rows tb) then Inl (NotNullViolated n)
             else Inr (change_column n (\<lambda>k. k\<lparr>col_nullable := b\<rparr>) tb)) tb = Inr x"
    then have x: "x = change_column n (\<lambda>k. k\<lparr>col_nullable := b\<rparr>) tb"
      and rows: "\<And>r. r \<in> set (st_rows tb) \<Longrightarrow> b \<or> cell n r \<noteq> None"
      by (auto simp: has_column_def list_ex_iff split: if_splits)
    have ok: "table_ok x" "columns x = columns tb"
      using change_column_ok [OF table_parts(1) [OF 5 t], of "\<lambda>k. k\<lparr>col_nullable := b\<rparr>" n] rows x by auto
    show "catalog_ok (put_table t x c)"
      using table_parts [OF 5 t] ok by (intro put_ok [OF 5 t]) (auto simp: x change_column_def)
  qed
next
  case (6 t n d)
  show ?case
    unfolding run_ddl.simps
  proof (rule on_table_ok [OF 6])
    fix tb x
    assume t: "map_of c t = Some tb"
      and "has_column n (\<lambda>tb. Inr (change_column n (\<lambda>k. k\<lparr>col_default := Some d\<rparr>) tb)) tb = Inr x"
    then have x: "x = change_column n (\<lambda>k. k\<lparr>col_default := Some d\<rparr>) tb"
      by (auto simp: has_column_def split: if_splits)
    have ok: "table_ok x" "columns x = columns tb"
      using change_column_ok [OF table_parts(1) [OF 6 t], of "\<lambda>k. k\<lparr>col_default := Some d\<rparr>" n] x by auto
    show "catalog_ok (put_table t x c)"
      using table_parts [OF 6 t] ok by (intro put_ok [OF 6 t]) (auto simp: x change_column_def)
  qed
next
  case (7 t ix)
  have "catalog_ok (put_table t x c)"
    if t: "map_of c t = Some tb" and new: "ix_name ix \<notin> set (index_names c)"
      and x: "x = tb\<lparr>st_indexes := st_indexes tb @ [ix]\<rparr>" and cols: "set (ix_columns ix) \<subseteq> set (columns tb)"
    for tb x
    using table_parts [OF 7 t] new cols
    by (intro put_ok [OF 7 t]) (auto simp: x table_ok_def keys_ok_def columns_def)
  with 7 show ?case by (auto intro!: on_table_ok split: if_splits)
next
  case (8 t name)
  show ?case
    unfolding run_ddl.simps
  proof (rule on_table_ok [OF 8])
    fix tb x
    assume t: "map_of c t = Some tb"
      and "(if name \<notin> set (map ix_name (st_indexes tb)) then Inl (UndefinedIndex name)
            else Inr (tb\<lparr>st_indexes := delete_where (\<lambda>x. ix_name x = name) (st_indexes tb)\<rparr>)) = Inr x"
    then have x: "x = tb\<lparr>st_indexes := delete_where (\<lambda>x. ix_name x = name) (st_indexes tb)\<rparr>"
      by (auto split: if_splits)
    show "catalog_ok (put_table t x c)"
      using table_parts [OF 8 t]
      by (intro put_ok [OF 8 t])
         (auto simp: x table_ok_def keys_ok_def columns_def delete_where_def distinct_map_filter)
  qed
next
  case (9 t n f)
  show ?case
    unfolding run_ddl.simps
  proof (rule on_table_ok [OF 9])
    fix tb x
    assume t: "map_of c t = Some tb"
      and "has_column n (\<lambda>tb. Inr (tb\<lparr>st_rows := map (update_cell n f) (st_rows tb)\<rparr>)) tb = Inr x"
    then have x: "x = tb\<lparr>st_rows := map (update_cell n f) (st_rows tb)\<rparr>"
      by (auto simp: has_column_def split: if_splits)
    have "row_ok cols (update_cell n f r)" if "row_ok cols r" for cols r
    proof -
      have "map fst (update_cell n f r) = map fst r" by (induction r) (auto simp: update_cell_def)
      with that show ?thesis by (auto simp: row_ok_def cell_update)
    qed
    then show "catalog_ok (put_table t x c)"
      using table_parts [OF 9 t] by (intro put_ok [OF 9 t]) (auto simp: x table_ok_def keys_ok_def columns_def)
  qed
qed

lemma each_ddl_ok: "catalog_ok c \<Longrightarrow> catalog_ok (snd (each run_ddl ds c))"
proof (induction ds arbitrary: c)
  case (Cons d ds)
  obtain r x where d: "run_ddl d c = (r, x)" by (rule prod.exhaust)
  with Cons.prems ddl_ok [of c d] have "catalog_ok x" by simp
  with Cons.IH d show ?case by (cases r) simp_all
qed simp

subsection \<open>Downgrades undo upgrades\<close>

fun undoes :: "ddl \<Rightarrow> ddl \<Rightarrow> bool" where
  "undoes (DropTable t') (CreateTable t tb) \<longleftrightarrow> t' = t"
| "undoes (DropColumn t' n) (AddColumn t col) \<longleftrightarrow> t' = t \<and> n = col_name col"
| "undoes (DropIndex t' n) (CreateIndex t ix) \<longleftrightarrow> t' = t \<and> n = ix_name ix"
| "undoes d u \<longleftrightarrow> False"

lemma drop_added:
  assumes "catalog_ok c" and "map_of c t = Some tb" and "col_name col \<notin> set (columns tb)"
  shows "drop_column (col_name col) (tb\<lparr>st_columns := st_columns tb @ [col],
           st_rows := map (\<lambda>r. r @ [(col_name col, d)]) (st_rows tb)\<rparr>) = tb"
proof -
  let ?n = "col_name col"
  have ok: "table_ok tb" using table_parts [OF assms(1,2)] by simp
  have out: "?n \<notin> set (map fst r)" if "r \<in> set (st_rows tb)" for r
  proof -
    have "map fst r = columns tb" using ok that by (auto simp: table_ok_def row_ok_def columns_def)
    with assms(3) show ?thesis by simp
  qed
  have rows: "drop_cell ?n (r @ [(?n, d)]) = r" if "r \<in> set (st_rows tb)" for r
    using out [OF that] by (auto simp: drop_cell_def image_iff intro!: filter_True)
  have keep: "delete_where p xs = xs" if "\<And>x. x \<in> set xs \<Longrightarrow> \<not> p x" for p and xs :: "'x list"
    using that by (simp add: delete_where_def)
  have "delete_where (\<lambda>k. col_name k = ?n) (st_columns tb @ [col]) = st_columns tb"
  proof -
    have "col_name k \<noteq> ?n" if "k \<in> set (st_columns tb)" for k
      using that assms(3) unfolding columns_def set_map by (metis imageI)
    then show ?thesis by (simp add: delete_where_def)
  qed
  moreover have "?n \<notin> set (st_primary tb)" using ok assms(3) by (auto simp: table_ok_def keys_ok_def)
  moreover have "delete_where (\<lambda>u. ?n \<in> set u) (st_unique tb) = st_unique tb"
    by (rule keep) (use ok assms(3) in \<open>auto simp: table_ok_def keys_ok_def list_all_iff\<close>)
  moreover have "delete_where (\<lambda>k. fk_column k = ?n) (st_foreign tb) = st_foreign tb"
    by (rule keep) (use ok assms(3) in \<open>auto simp: table_ok_def keys_ok_def list_all_iff\<close>)
  moreover have "delete_where (\<lambda>x. ?n \<in> set (ix_columns x)) (st_indexes tb) = st_indexes tb"
    by (rule keep) (use ok assms(3) in \<open>auto simp: table_ok_def\<close>)
  moreover have "map (drop_cell ?n) (map (\<lambda>r. r @ [(?n, d)]) (st_rows tb)) = st_rows tb"
    using rows by (simp add: map_idI)
  ultimately show ?thesis by (simp add: drop_column_def)
qed

lemma ddl_undone:
  assumes "catalog_ok c" and "run_ddl u c = (Inr x, c')" and "undoes d u"
  shows "run_ddl d c' = (Inr (), c)"
  using assms(3)
proof (cases "(d, u)" rule: undoes.cases)
  case (1 t' t tb)
  then have c': "c' = c @ [(t, tb\<lparr>st_indexes := [], st_rows := []\<rparr>)]" and new: "map_of c t = None" and t': "t' = t"
    using assms(2,3) by (auto split: if_splits)
  have "t \<notin> fst ` set c" using new by (simp add: map_of_eq_None_iff)
  then have "delete_where (\<lambda>(n, tb). n = t) c = c"
    unfolding delete_where_def by (intro filter_True) (auto simp: image_iff)
  then have "delete_where (\<lambda>(n, tb). n = t) c' = c" by (simp add: c' delete_where_def)
  moreover have "fk_table k \<noteq> t" if "(n, tb) \<in> set c" "k \<in> set (st_foreign tb)" for n tb k
  proof -
    have "foreign_ok c k" using assms(1) that by (auto simp: catalog_ok_def)
    with new show ?thesis by (auto simp: foreign_ok_def)
  qed
  then have "\<not> referenced t c'" by (auto simp: referenced_def list_ex_iff c')
  moreover have "map_of c' t \<noteq> None" by (simp add: c' map_add_def new)
  ultimately show ?thesis using 1 t' by simp
next
  case (2 t' n t col)
  then obtain tb where tb: "map_of c t = Some tb" and new: "col_name col \<notin> set (columns tb)"
    and c': "c' = put_table t (tb\<lparr>st_columns := st_columns tb @ [col],
           st_rows := map (\<lambda>r. r @ [(col_name col, col_default col)]) (st_rows tb)\<rparr>) c"
    using assms(2) by (auto simp: on_table_def split: option.splits sum.splits if_splits)
  let ?x = "tb\<lparr>st_columns := st_columns tb @ [col], st_rows := map (\<lambda>r. r @ [(col_name col, col_default col)]) (st_rows tb)\<rparr>"
  have d: "distinct (map fst c)" using assms(1) by (simp add: catalog_ok_def)
  have "\<not> (fk_table k = t \<and> fk_target k = col_name col)" if "(m, y) \<in> set c" "k \<in> set (st_foreign y)" for m y k
  proof -
    have "foreign_ok c k" using assms(1) that by (auto simp: catalog_ok_def)
    with tb new show ?thesis by (auto simp: foreign_ok_def)
  qed
  then have "\<not> list_ex (\<lambda>(m, y). list_ex (\<lambda>k. fk_table k = t \<and> fk_target k = col_name col) (st_foreign y)) c'"
    using map_of_SomeD [OF tb] by (auto simp: c' list_ex_iff set_put [OF d tb])
  moreover have "map_of c' t = Some ?x" by (simp add: c' map_of_put tb)
  moreover have "col_name col \<in> set (columns ?x)" by (simp add: columns_def)
  ultimately show ?thesis
    using 2 assms(3) drop_added [OF assms(1) tb new, of "col_default col"] put_same [OF tb d]
    by (simp add: on_table_def has_column_def c')
next
  case (3 t' n t ix)
  then obtain tb where tb: "map_of c t = Some tb" and new: "ix_name ix \<notin> set (index_names c)"
    and c': "c' = put_table t (tb\<lparr>st_indexes := st_indexes tb @ [ix]\<rparr>) c"
    using assms(2) by (auto simp: on_table_def split: option.splits sum.splits if_splits)
  have "ix_name ix \<notin> set (map ix_name (st_indexes tb))" using table_parts(3) [OF assms(1) tb] new by blast
  then have "delete_where (\<lambda>x. ix_name x = ix_name ix) (st_indexes tb @ [ix]) = st_indexes tb"
    by (auto simp: delete_where_def image_iff intro!: filter_True)
  moreover have "distinct (map fst c)" using assms(1) by (simp add: catalog_ok_def)
  ultimately show ?thesis
    using 3 assms(3) put_same [OF tb] by (simp add: on_table_def c' map_of_put tb)
qed simp_all

lemma all_undone:
  assumes "list_all2 undoes (rev downs) ups" and "catalog_ok c" and "each run_ddl ups c = (Inr x, c')"
  shows "each run_ddl downs c' = (Inr (), c)"
  using assms
proof (induction ups arbitrary: c downs rule: list.induct)
  case (Cons u ups)
  have pairs: "list_all2 undoes (rev downs) (u # ups)" by (rule Cons.prems)
  obtain d es where r: "rev downs = d # es" and one: "undoes d u" and es: "list_all2 undoes es ups"
    using pairs by (auto simp: list_all2_Cons2)
  define ds where "ds = rev es"
  have downs: "downs = ds @ [d]" and rest: "list_all2 undoes (rev ds) ups"
    using r es by (simp_all add: rev_swap ds_def)
  have run: "each run_ddl (u # ups) c = (Inr x, c')" by (rule Cons.prems)
  obtain y m where u: "run_ddl u c = (Inr y, m)" and more: "each run_ddl ups m = (Inr x, c')"
    using run by (auto simp: chain_eq_Inr_iff)
  have c: "catalog_ok c" by (rule Cons.prems)
  have "catalog_ok m" using ddl_ok [OF c, of u] u by simp
  from Cons.IH [OF rest this more] have "each run_ddl ds c' = (Inr (), m)" .
  moreover have "run_ddl d m = (Inr (), c)" using ddl_undone [OF c u one] .
  ultimately show ?case by (simp add: downs each_append)
qed simp


end
