(* ===== verification/Migrations.thy ===== *)
theory Migrations
  imports Schema
begin

section \<open>The database migrations\<close>

text \<open>
  The revisions under \<open>alembic/versions\<close> as data: identifier, predecessor, the statements of
  \<open>upgrade\<close> and of \<open>downgrade\<close>. Alembic runs what is pending in the order of the links. The tables
  that the model classes declare are the reference the migrated schema is compared with.
\<close>

subsection \<open>The revisions\<close>

record revision =
  rv_id :: string
  rv_down :: "string option"
  rv_upgrade :: "ddl list"
  rv_downgrade :: "ddl list"

definition required :: "string \<Rightarrow> sql_type \<Rightarrow> column" where
  "required n ty = \<lparr>col_name = n, col_type = ty, col_nullable = False, col_default = None\<rparr>"

definition optional :: "string \<Rightarrow> sql_type \<Rightarrow> column" where
  "optional n ty = \<lparr>col_name = n, col_type = ty, col_nullable = True, col_default = None\<rparr>"

definition new_table :: "column list \<Rightarrow> string list list \<Rightarrow> foreign_key list \<Rightarrow> sql_table" where
  "new_table cols uniques fks =
     \<lparr>st_columns = cols, st_primary = [''id''], st_unique = uniques, st_foreign = fks, st_indexes = [],
      st_rows = []\<rparr>"

definition plain_index :: "string \<Rightarrow> string \<Rightarrow> sql_index" where
  "plain_index name n = \<lparr>ix_name = name, ix_columns = [n], ix_unique = False, ix_where = None\<rparr>"

definition rev_42275bfc1260 :: revision where
  "rev_42275bfc1260 =
     \<lparr>rv_id = ''42275bfc1260'', rv_down = None,
      rv_upgrade =
        [CreateTable ''users''
           (new_table
              [required ''id'' SqlUUID, required ''email'' (SqlString (Some 255)),
               optional ''password_hash'' (SqlString (Some 255)), required ''full_name'' (SqlString (Some 255)),
               required ''created_at'' SqlTimestampTZ, required ''updated_at'' SqlTimestampTZ,
               required ''is_active'' SqlBoolean] [[''email'']] [])],
      rv_downgrade = [DropTable ''users'']\<rparr>"

definition rev_1f41e9d3550c :: revision where
  "rev_1f41e9d3550c =
     \<lparr>rv_id = ''1f41e9d3550c'', rv_down = Some ''42275bfc1260'',
      rv_upgrade = [AlterNullable ''users'' ''password_hash'' False],
      rv_downgrade = [AlterNullable ''users'' ''password_hash'' True]\<rparr>"

definition rev_2d9d6c357408 :: revision where
  "rev_2d9d6c357408 =
     \<lparr>rv_id = ''2d9d6c357408'', rv_down = Some ''1f41e9d3550c'',
      rv_upgrade =
        [CreateTable ''revoked_tokens''
           (new_table [required ''id'' SqlUUID, required ''jti'' (SqlString None),
                       required ''expires_at'' SqlTimestampTZ] [] []),
         CreateIndex ''revoked_tokens'' ((plain_index ''ix_revoked_tokens_jti'' ''jti'')\<lparr>ix_unique := True\<rparr>)],
      rv_downgrade = [DropIndex ''revoked_tokens'' ''ix_revoked_tokens_jti'', DropTable ''revoked_tokens'']\<rparr>"

definition rev_e64abc0807d1 :: revision where
  "rev_e64abc0807d1 =
     \<lparr>rv_id = ''e64abc0807d1'', rv_down = Some ''2d9d6c357408'',
      rv_upgrade = [AddColumn ''users'' ((required ''is_verified'' SqlBoolean)\<lparr>col_default := Some ''false''\<rparr>)],
      rv_downgrade = [DropColumn ''users'' ''is_verified'']\<rparr>"

definition rev_8292c482c5c2 :: revision where
  "rev_8292c482c5c2 =
     \<lparr>rv_id = ''8292c482c5c2'', rv_down = Some ''e64abc0807d1'',
      rv_upgrade = [AddColumn ''users'' (optional ''pending_verification_jti'' (SqlString (Some 255)))],
      rv_downgrade = [DropColumn ''users'' ''pending_verification_jti'']\<rparr>"

definition rev_ff2fd6286f38 :: revision where
  "rev_ff2fd6286f38 =
     \<lparr>rv_id = ''ff2fd6286f38'', rv_down = Some ''8292c482c5c2'',
      rv_upgrade = [AddColumn ''users'' (optional ''pending_password_reset_jti'' (SqlString (Some 255)))],
      rv_downgrade = [DropColumn ''users'' ''pending_password_reset_jti'']\<rparr>"

definition rev_f0589143e900 :: revision where
  "rev_f0589143e900 =
     \<lparr>rv_id = ''f0589143e900'', rv_down = Some ''ff2fd6286f38'',
      rv_upgrade =
        [AddColumn ''users'' ((required ''scopes'' (SqlString None))\<lparr>col_default := Some ''users:read users:write''\<rparr>)],
      rv_downgrade = [DropColumn ''users'' ''scopes'']\<rparr>"

definition rev_b7f3a9c1d2e4 :: revision where
  "rev_b7f3a9c1d2e4 =
     \<lparr>rv_id = ''b7f3a9c1d2e4'', rv_down = Some ''f0589143e900'',
      rv_upgrade =
        [CreateTable ''outbox_events''
           (new_table
              [required ''id'' SqlUUID, required ''task_name'' (SqlString (Some 255)),
               required ''payload'' SqlJSONB, required ''created_at'' SqlTimestampTZ,
               optional ''dispatched_at'' SqlTimestampTZ, optional ''failed_at'' SqlTimestampTZ,
               required ''attempts'' SqlInteger, optional ''last_error'' (SqlString (Some 1000))] [] []),
         CreateIndex ''outbox_events''
           ((plain_index ''ix_outbox_undispatched'' ''created_at'')
              \<lparr>ix_where := Some ''dispatched_at IS NULL AND failed_at IS NULL''\<rparr>)],
      rv_downgrade = [DropIndex ''outbox_events'' ''ix_outbox_undispatched'', DropTable ''outbox_events'']\<rparr>"

definition rev_22ae424f5be5 :: revision where
  "rev_22ae424f5be5 =
     \<lparr>rv_id = ''22ae424f5be5'', rv_down = Some ''b7f3a9c1d2e4'',
      rv_upgrade =
        [CreateTable ''dead_letter_jobs''
           (new_table
              [required ''id'' SqlUUID, required ''job_key'' (SqlString (Some 255)),
               required ''function'' (SqlString (Some 255)), required ''queue_name'' (SqlString (Some 255)),
               required ''kwargs'' SqlJSONB, required ''status'' (SqlString (Some 32)), optional ''error'' SqlText,
               required ''attempts'' SqlInteger, required ''failed_at'' SqlTimestampTZ,
               optional ''retried_at'' SqlTimestampTZ] [] []),
         CreateIndex ''dead_letter_jobs'' (plain_index ''ix_dead_letter_jobs_failed_at'' ''failed_at''),
         CreateIndex ''dead_letter_jobs'' (plain_index ''ix_dead_letter_jobs_job_key'' ''job_key'')],
      rv_downgrade =
        [DropIndex ''dead_letter_jobs'' ''ix_dead_letter_jobs_job_key'',
         DropIndex ''dead_letter_jobs'' ''ix_dead_letter_jobs_failed_at'', DropTable ''dead_letter_jobs'']\<rparr>"

definition rev_80f27a9e6fcd :: revision where
  "rev_80f27a9e6fcd =
     \<lparr>rv_id = ''80f27a9e6fcd'', rv_down = Some ''22ae424f5be5'',
      rv_upgrade =
        [CreateTable ''refresh_sessions''
           (new_table
              [required ''id'' SqlUUID, required ''user_id'' SqlUUID, required ''generation'' SqlInteger,
               required ''expires_at'' SqlTimestampTZ, optional ''rotated_at'' SqlTimestampTZ,
               optional ''revoked_at'' SqlTimestampTZ, required ''created_at'' SqlTimestampTZ] []
              [\<lparr>fk_column = ''user_id'', fk_table = ''users'', fk_target = ''id'', fk_on_delete = ''CASCADE''\<rparr>]),
         CreateIndex ''refresh_sessions'' (plain_index ''ix_refresh_sessions_expires_at'' ''expires_at''),
         CreateIndex ''refresh_sessions'' (plain_index ''ix_refresh_sessions_user_id'' ''user_id'')],
      rv_downgrade =
        [DropIndex ''refresh_sessions'' ''ix_refresh_sessions_user_id'',
         DropIndex ''refresh_sessions'' ''ix_refresh_sessions_expires_at'', DropTable ''refresh_sessions'']\<rparr>"

text \<open>
  The two statements on \<open>users.scopes\<close>. \<open>string_to_array\<close> of the empty text is the empty array;
  \<open>trim\<close> takes spaces only.
\<close>

definition string_to_array :: "string \<Rightarrow> string list" where
  "string_to_array s = (if s = [] then [] else split_on (CHR '' '') s)"

definition sql_trim :: "string \<Rightarrow> string" where
  "sql_trim = strip_where (\<lambda>c. c = CHR '' '')"

definition default_scopes :: string where "default_scopes = ''users:read users:write''"

definition without_scopes :: "string list \<Rightarrow> string \<Rightarrow> string" where
  "without_scopes scopes s =
     join '' '' (filter (\<lambda>w. w \<noteq> [] \<and> w \<notin> set scopes) (string_to_array s))"

definition remove_scopes :: "string list \<Rightarrow> ddl" where
  "remove_scopes scopes = UpdateText ''users'' ''scopes'' (\<lambda>s. Some (without_scopes scopes s))"

definition with_write :: "string \<Rightarrow> string option" where
  "with_write s =
     (if ''admin:read'' \<in> set (string_to_array s) \<and> ''admin:write'' \<notin> set (string_to_array s)
      then Some (sql_trim (s @ '' admin:write'')) else None)"

definition grant_write :: ddl where
  "grant_write = UpdateText ''users'' ''scopes'' with_write"

definition restore_defaults :: ddl where
  "restore_defaults =
     UpdateText ''users'' ''scopes'' (\<lambda>s. Some (sql_trim (default_scopes @ '' '' @ s)))"

definition rev_d223a0cb723d :: revision where
  "rev_d223a0cb723d =
     \<lparr>rv_id = ''d223a0cb723d'', rv_down = Some ''80f27a9e6fcd'',
      rv_upgrade =
        [remove_scopes [''users:read'', ''users:write''], grant_write, AlterDefault ''users'' ''scopes'' ''''],
      rv_downgrade =
        [remove_scopes [''admin:write''], restore_defaults, AlterDefault ''users'' ''scopes'' default_scopes]\<rparr>"

text \<open>The history, oldest first; \<open>linear\<close> says that the links make it the one chain to follow.\<close>

definition history :: "revision list" where
  "history =
     [rev_42275bfc1260, rev_1f41e9d3550c, rev_2d9d6c357408, rev_e64abc0807d1, rev_8292c482c5c2,
      rev_ff2fd6286f38, rev_f0589143e900, rev_b7f3a9c1d2e4, rev_22ae424f5be5, rev_80f27a9e6fcd,
      rev_d223a0cb723d]"

fun linear :: "string option \<Rightarrow> revision list \<Rightarrow> bool" where
  "linear prev [] \<longleftrightarrow> True"
| "linear prev (r # rs) \<longleftrightarrow> rv_down r = prev \<and> linear (Some (rv_id r)) rs"

definition upgrade :: "revision \<Rightarrow> unit migration" where
  "upgrade r = each run_ddl (rv_upgrade r)"

definition downgrade :: "revision \<Rightarrow> unit migration" where
  "downgrade r = each run_ddl (rv_downgrade r)"

lemmas revision_defs = rev_42275bfc1260_def rev_1f41e9d3550c_def rev_2d9d6c357408_def rev_e64abc0807d1_def
  rev_8292c482c5c2_def rev_ff2fd6286f38_def rev_f0589143e900_def rev_b7f3a9c1d2e4_def rev_22ae424f5be5_def
  rev_80f27a9e6fcd_def rev_d223a0cb723d_def

subsection \<open>What the models declare\<close>

text \<open>
  The tables that SQLAlchemy derives from the model classes: \<open>Mapped[X]\<close> is NOT NULL and
  \<open>Mapped[X | None]\<close> nullable, \<open>unique=True\<close> alone a unique constraint, with \<open>index=True\<close> a unique
  index. Defaults of the classes are the ORM's, not the database's.
\<close>

definition users_model :: sql_table where
  "users_model =
     new_table
       [required ''id'' SqlUUID, required ''email'' (SqlString (Some 255)),
        required ''password_hash'' (SqlString (Some 255)), required ''scopes'' (SqlString None),
        required ''full_name'' (SqlString (Some 255)), required ''is_verified'' SqlBoolean,
        optional ''pending_verification_jti'' (SqlString (Some 255)),
        optional ''pending_password_reset_jti'' (SqlString (Some 255)),
        required ''created_at'' SqlTimestampTZ, required ''updated_at'' SqlTimestampTZ,
        required ''is_active'' SqlBoolean] [[''email'']] []"

definition refresh_sessions_model :: sql_table where
  "refresh_sessions_model =
     (new_table
       [required ''id'' SqlUUID, required ''user_id'' SqlUUID, required ''generation'' SqlInteger,
        required ''expires_at'' SqlTimestampTZ, optional ''rotated_at'' SqlTimestampTZ,
        optional ''revoked_at'' SqlTimestampTZ, required ''created_at'' SqlTimestampTZ] []
       [\<lparr>fk_column = ''user_id'', fk_table = ''users'', fk_target = ''id'', fk_on_delete = ''CASCADE''\<rparr>])
     \<lparr>st_indexes := [plain_index ''ix_refresh_sessions_user_id'' ''user_id'',
                     plain_index ''ix_refresh_sessions_expires_at'' ''expires_at'']\<rparr>"

definition revoked_tokens_model :: sql_table where
  "revoked_tokens_model =
     (new_table [required ''id'' SqlUUID, required ''jti'' (SqlString None), required ''expires_at'' SqlTimestampTZ] [] [])
     \<lparr>st_indexes := [(plain_index ''ix_revoked_tokens_jti'' ''jti'')\<lparr>ix_unique := True\<rparr>]\<rparr>"

definition outbox_events_model :: sql_table where
  "outbox_events_model =
     (new_table
       [required ''id'' SqlUUID, required ''task_name'' (SqlString (Some 255)), required ''payload'' SqlJSONB,
        required ''created_at'' SqlTimestampTZ, optional ''dispatched_at'' SqlTimestampTZ,
        optional ''failed_at'' SqlTimestampTZ, required ''attempts'' SqlInteger,
        optional ''last_error'' (SqlString (Some 1000))] [] [])
     \<lparr>st_indexes := [(plain_index ''ix_outbox_undispatched'' ''created_at'')
                      \<lparr>ix_where := Some ''dispatched_at IS NULL AND failed_at IS NULL''\<rparr>]\<rparr>"

definition dead_letter_jobs_model :: sql_table where
  "dead_letter_jobs_model =
     (new_table
       [required ''id'' SqlUUID, required ''job_key'' (SqlString (Some 255)),
        required ''function'' (SqlString (Some 255)), required ''queue_name'' (SqlString (Some 255)),
        required ''kwargs'' SqlJSONB, required ''status'' (SqlString (Some 32)), optional ''error'' SqlText,
        required ''attempts'' SqlInteger, required ''failed_at'' SqlTimestampTZ,
        optional ''retried_at'' SqlTimestampTZ] [] [])
     \<lparr>st_indexes := [plain_index ''ix_dead_letter_jobs_failed_at'' ''failed_at'',
                     plain_index ''ix_dead_letter_jobs_job_key'' ''job_key'']\<rparr>"

definition metadata :: catalog where
  "metadata =
     [(''refresh_sessions'', refresh_sessions_model), (''revoked_tokens'', revoked_tokens_model),
      (''dead_letter_jobs'', dead_letter_jobs_model), (''outbox_events'', outbox_events_model),
      (''users'', users_model)]"

text \<open>Two tables have one shape when they differ at most in the order of their parts and in defaults.\<close>

definition same_shape :: "sql_table \<Rightarrow> sql_table \<Rightarrow> bool" where
  "same_shape a b \<longleftrightarrow>
     set (map (\<lambda>k. (col_name k, col_type k, col_nullable k)) (st_columns a))
       = set (map (\<lambda>k. (col_name k, col_type k, col_nullable k)) (st_columns b))
   \<and> distinct (columns a) \<and> distinct (columns b)
   \<and> st_primary a = st_primary b \<and> set (st_unique a) = set (st_unique b)
   \<and> set (st_foreign a) = set (st_foreign b) \<and> set (st_indexes a) = set (st_indexes b)"

definition same_catalog :: "catalog \<Rightarrow> catalog \<Rightarrow> bool" where
  "same_catalog a b \<longleftrightarrow>
     distinct (map fst a) \<and> distinct (map fst b) \<and> set (map fst a) = set (map fst b)
   \<and> list_all (\<lambda>(n, x). case map_of b n of None \<Rightarrow> False | Some y \<Rightarrow> same_shape x y) a"

definition cleared :: "catalog \<Rightarrow> catalog" where
  "cleared c = map (\<lambda>(n, x). (n, x\<lparr>st_rows := []\<rparr>)) c"

subsection \<open>The scopes that users hold\<close>

definition scope_words :: "string \<Rightarrow> string list" where
  "scope_words s = filter (\<lambda>w. w \<noteq> []) (string_to_array s)"

definition migrated_scopes :: "string list \<Rightarrow> string list" where
  "migrated_scopes ws =
     (let kept = filter (\<lambda>w. w \<notin> {''users:read'', ''users:write''}) ws in
      if ''admin:read'' \<in> set kept \<and> ''admin:write'' \<notin> set kept then kept @ [''admin:write''] else kept)"

lemma scope_words_ok: "w \<in> set (scope_words s) \<Longrightarrow> w \<noteq> [] \<and> CHR '' '' \<notin> set w"
  using split_on_absent by (auto simp: scope_words_def string_to_array_def split: if_splits)

lemma string_to_array_join:
  assumes "\<And>w. w \<in> set ws \<Longrightarrow> w \<noteq> [] \<and> CHR '' '' \<notin> set w"
  shows "string_to_array (join '' '' ws) = ws" and "scope_words (join '' '' ws) = ws"
proof -
  show a: "string_to_array (join '' '' ws) = ws"
  proof (cases ws)
    case (Cons w rest)
    then have "join '' '' ws \<noteq> []" using assms by (cases rest) auto
    with Cons split_on_join [of ws "CHR '' ''"] assms show ?thesis by (simp add: string_to_array_def)
  qed (simp add: string_to_array_def)
  show "scope_words (join '' '' ws) = ws"
    unfolding scope_words_def a using assms by (simp add: filter_True)
qed

lemma trim_edges: "s \<noteq> [] \<Longrightarrow> hd s \<noteq> CHR '' '' \<Longrightarrow> last s \<noteq> CHR '' '' \<Longrightarrow> sql_trim s = s"
  using dropWhile_eq_self_iff [of "\<lambda>c. c = CHR '' ''" s] dropWhile_eq_self_iff [of "\<lambda>c. c = CHR '' ''" "rev s"]
  by (simp add: sql_trim_def strip_where_def hd_rev)

lemma migrated_text:
  fixes s :: string
  defines "t \<equiv> without_scopes [''users:read'', ''users:write''] s"
  shows "scope_words (case with_write t of None \<Rightarrow> t | Some y \<Rightarrow> y) = migrated_scopes (scope_words s)"
proof -
  define kept where "kept = filter (\<lambda>w. w \<noteq> [] \<and> w \<notin> set [''users:read'', ''users:write'']) (string_to_array s)"
  then have t: "t = join '' '' kept" by (simp only: t_def without_scopes_def)
  have kept: "kept = filter (\<lambda>w. w \<notin> {''users:read'', ''users:write''}) (scope_words s)"
    by (simp add: kept_def scope_words_def conj_commute)
  have ok: "w \<noteq> [] \<and> CHR '' '' \<notin> set w" if "w \<in> set kept" for w
    using that scope_words_ok by (auto simp: kept)
  have array: "string_to_array (join '' '' kept) = kept" "scope_words (join '' '' kept) = kept"
    using string_to_array_join ok by blast+
  have "sql_trim (join '' '' kept @ '' admin:write'') = join '' '' (kept @ [''admin:write''])"
    if "''admin:read'' \<in> set kept"
  proof -
    from that obtain w ws where k: "kept = w # ws" by (cases kept) auto
    with ok have "hd w \<noteq> CHR '' ''" "w \<noteq> []" by auto (metis list.set_sel(1))
    then have "hd (join '' '' kept) \<noteq> CHR '' ''" "join '' '' kept \<noteq> []" by (cases ws; simp add: k)+
    then show ?thesis using join_snoc [of kept "'' ''" "''admin:write''"] k by (simp add: trim_edges)
  qed
  moreover have "scope_words (join '' '' (kept @ [''admin:write''])) = kept @ [''admin:write'']"
    using ok by (intro string_to_array_join) auto
  moreover have "migrated_scopes (scope_words s) =
      (if ''admin:read'' \<in> set kept \<and> ''admin:write'' \<notin> set kept then kept @ [''admin:write''] else kept)"
    by (simp only: migrated_scopes_def Let_def kept [symmetric])
  ultimately show ?thesis by (simp add: t with_write_def array)
qed


text \<open>The effect of the statements of \<open>d223a0cb723d\<close> on a user's row.\<close>

definition scopes_held :: "(string \<times> string option) list \<Rightarrow> string list option" where
  "scopes_held r = map_option scope_words (cell ''scopes'' r)"

lemma drop_cell_update: "drop_cell n (update_cell n f r) = drop_cell n r"
  by (induction r) (auto simp: drop_cell_def update_cell_def)

lemma scopes_update:
  "scopes_held (update_cell ''scopes'' f r) =
     map_option (\<lambda>x. scope_words (case f x of None \<Rightarrow> x | Some y \<Rightarrow> y)) (cell ''scopes'' r)"
  by (simp add: scopes_held_def cell_update option.map_comp o_def)

lemma update_text_rows:
  "run_ddl (UpdateText t n f) c = (Inr u, c') \<Longrightarrow> map_of c t = Some tb \<Longrightarrow>
     \<exists>tb'. map_of c' t = Some tb' \<and> st_rows tb' = map (update_cell n f) (st_rows tb)"
  by (auto simp: on_table_def has_column_def map_of_put split: if_splits)

lemma alter_default_rows:
  "run_ddl (AlterDefault t n d) c = (Inr u, c') \<Longrightarrow> map_of c t = Some tb \<Longrightarrow>
     \<exists>tb'. map_of c' t = Some tb' \<and> st_rows tb' = st_rows tb"
  by (auto simp: on_table_def has_column_def map_of_put change_column_def split: if_splits)

subsection \<open>Properties\<close>


text \<open>
  C20: A downgrade undoes its upgrade exactly, whatever rows the tables hold, for every revision
  that only adds to the schema: all but the one that tightens a column and the one that rewrites
  the users' scopes.
\<close>

theorem downgrade_undoes_upgrade:
  assumes "catalog_ok c" and "r \<in> set history" and "r \<notin> {rev_1f41e9d3550c, rev_d223a0cb723d}"
    and "upgrade r c = (Inr (), c')"
  shows "downgrade r c' = (Inr (), c)"
proof -
  have "list_all (\<lambda>r. list_all2 undoes (rev (rv_downgrade r)) (rv_upgrade r))
      [r \<leftarrow> history. rv_id r \<notin> {''1f41e9d3550c'', ''d223a0cb723d''}]"
    by code_simp
  moreover have "list_all (\<lambda>r. rv_id r = ''1f41e9d3550c'' \<longrightarrow> r = rev_1f41e9d3550c) history"
    and "list_all (\<lambda>r. rv_id r = ''d223a0cb723d'' \<longrightarrow> r = rev_d223a0cb723d) history"
    by (simp_all add: history_def revision_defs)
  ultimately have "list_all2 undoes (rev (rv_downgrade r)) (rv_upgrade r)"
    using assms(2,3) by (auto simp: list_all_iff)
  then show ?thesis using all_undone assms(1,4) unfolding upgrade_def downgrade_def by blast
qed

text \<open>
  No statement of any revision, in either direction, whether it succeeds or is refused, leaves
  the database malformed: rows keep the shape of their columns, NOT NULL columns stay filled, keys
  and indexes name columns there are, and foreign keys point at columns of tables there are.
\<close>

theorem migrations_keep_catalog:
  assumes "catalog_ok c"
  shows "catalog_ok (snd (upgrade r c)) \<and> catalog_ok (snd (downgrade r c))"
  using each_ddl_ok [OF assms] by (simp_all add: upgrade_def downgrade_def)

text \<open>
  The scopes migration takes \<open>users:read\<close> and \<open>users:write\<close> from every user, gives
  \<open>admin:write\<close> to those who hold \<open>admin:read\<close> and lack it, keeps every other scope in order, and
  touches no other column.
\<close>

theorem scopes_migrated:
  assumes "upgrade rev_d223a0cb723d c = (Inr (), c')" and "map_of c ''users'' = Some tb"
  shows "\<exists>tb'. map_of c' ''users'' = Some tb'
    \<and> map scopes_held (st_rows tb') = map (map_option migrated_scopes \<circ> scopes_held) (st_rows tb)
    \<and> map (drop_cell ''scopes'') (st_rows tb') = map (drop_cell ''scopes'') (st_rows tb)"
proof -
  let ?f = "without_scopes [''users:read'', ''users:write'']"
  let ?two = "\<lambda>r. update_cell ''scopes'' with_write (update_cell ''scopes'' (\<lambda>s. Some (?f s)) r)"
  obtain c1 c2 where run: "run_ddl (remove_scopes [''users:read'', ''users:write'']) c = (Inr (), c1)"
      "run_ddl grant_write c1 = (Inr (), c2)" "run_ddl (AlterDefault ''users'' ''scopes'' '''') c2 = (Inr (), c')"
    using assms(1) by (auto simp: upgrade_def rev_d223a0cb723d_def chain_eq_Inr_iff simp del: run_ddl.simps)
  obtain tb1 where 1: "map_of c1 ''users'' = Some tb1"
      "st_rows tb1 = map (update_cell ''scopes'' (\<lambda>s. Some (?f s))) (st_rows tb)"
    using update_text_rows [OF run(1) [unfolded remove_scopes_def] assms(2)] by blast
  obtain tb2 where 2: "map_of c2 ''users'' = Some tb2" "st_rows tb2 = map (update_cell ''scopes'' with_write) (st_rows tb1)"
    using update_text_rows [OF run(2) [unfolded grant_write_def] 1(1)] by blast
  obtain tb' where t: "map_of c' ''users'' = Some tb'" and rows: "st_rows tb' = map ?two (st_rows tb)"
    using alter_default_rows [OF run(3) 2(1)] 1(2) 2(2) by auto
  have "scopes_held (?two r) = map_option migrated_scopes (scopes_held r)" for r
  proof (cases "cell ''scopes'' r")
    case (Some s)
    with migrated_text [of s] show ?thesis unfolding scopes_update cell_update by (simp add: scopes_held_def)
  qed (simp add: scopes_update cell_update scopes_held_def)
  with t rows show ?thesis by (auto simp: drop_cell_update)
qed

end
