(* ===== verification/MigrationLock.thy ===== *)
theory MigrationLock
  imports Migrations
begin

section \<open>core/migration\_lock.py: many processes\<close>

text \<open>
  Several processes that start at once and all run \<open>alembic upgrade head\<close> on one database:
  \<open>run_migrations\<close> inside \<open>migration_lock\<close>. The advisory lock is the session's: it outlives the
  commit that follows its query, and PostgreSQL drops it when the connection ends. Alembic's own
  transaction runs the pending revisions and commits them together; what a process sees when it
  begins is what is committed then. A process may die anywhere, which loses its transaction.
\<close>

datatype phase =
  Starting            \<comment> \<open>before \<open>pg_try_advisory_lock\<close>\<close>
| Waiting             \<comment> \<open>in \<open>pg_advisory_lock\<close>\<close>
| Locked              \<comment> \<open>at the \<open>yield\<close>\<close>
| Running nat catalog \<comment> \<open>in \<open>context.run_migrations()\<close>: revisions done, schema so far\<close>
| Migrated            \<comment> \<open>committed, before \<open>pg_advisory_unlock\<close>\<close>
| Finished
| Dead

record migrating =
  mg_version :: nat
  mg_catalog :: catalog
  mg_holder :: "nat option"
  mg_phase :: "nat \<Rightarrow> phase"

definition at_phase :: "nat \<Rightarrow> phase \<Rightarrow> migrating \<Rightarrow> migrating" where
  "at_phase p ph m = m\<lparr>mg_phase := (mg_phase m)(p := ph)\<rparr>"

inductive lock_step :: "migrating \<Rightarrow> migrating \<Rightarrow> bool" where
  try_free: "mg_phase m p = Starting \<Longrightarrow> mg_holder m = None \<Longrightarrow>
    lock_step m (at_phase p Locked (m\<lparr>mg_holder := Some p\<rparr>))"
| try_busy: "mg_phase m p = Starting \<Longrightarrow> mg_holder m = Some q \<Longrightarrow> lock_step m (at_phase p Waiting m)"
| lock_free: "mg_phase m p = Waiting \<Longrightarrow> mg_holder m = None \<Longrightarrow>
    lock_step m (at_phase p Locked (m\<lparr>mg_holder := Some p\<rparr>))"
| begin_run: "mg_phase m p = Locked \<Longrightarrow> lock_step m (at_phase p (Running (mg_version m) (mg_catalog m)) m)"
| run_revision: "mg_phase m p = Running k c \<Longrightarrow> k < length history \<Longrightarrow> upgrade (history ! k) c = (Inr (), c') \<Longrightarrow>
    lock_step m (at_phase p (Running (Suc k) c') m)"
| commit_run: "mg_phase m p = Running k c \<Longrightarrow> k = length history \<Longrightarrow>
    lock_step m (at_phase p Migrated (m\<lparr>mg_version := k, mg_catalog := c\<rparr>))"
| unlock: "mg_phase m p = Migrated \<Longrightarrow> lock_step m (at_phase p Finished (m\<lparr>mg_holder := None\<rparr>))"
| die: "mg_phase m p \<noteq> Finished \<Longrightarrow>
    lock_step m (at_phase p Dead (m\<lparr>mg_holder := if mg_holder m = Some p then None else mg_holder m\<rparr>))"

definition fresh_database :: migrating where
  "fresh_database = \<lparr>mg_version = 0, mg_catalog = [], mg_holder = None, mg_phase = (\<lambda>_. Starting)\<rparr>"

definition holding :: "phase \<Rightarrow> bool" where
  "holding ph \<longleftrightarrow> (case ph of Locked \<Rightarrow> True | Running k c \<Rightarrow> True | Migrated \<Rightarrow> True | _ \<Rightarrow> False)"

lemma holding_simps [simp]:
  "\<not> holding Starting" "\<not> holding Waiting" "holding Locked" "holding (Running k c)" "holding Migrated"
  "\<not> holding Finished" "\<not> holding Dead"
  by (simp_all add: holding_def)

text \<open>The schema after the first \<open>k\<close> revisions.\<close>

definition revised :: "nat \<Rightarrow> catalog \<Rightarrow> bool" where
  "revised k c \<longleftrightarrow> k \<le> length history \<and> each upgrade (take k history) [] = (Inr (), c)"

definition phase_ok :: "migrating \<Rightarrow> nat \<Rightarrow> phase \<Rightarrow> bool" where
  "phase_ok m p ph \<longleftrightarrow> (holding ph \<longleftrightarrow> mg_holder m = Some p)
     \<and> (case ph of Running k c \<Rightarrow> revised k c
        | Migrated \<Rightarrow> mg_version m = length history
        | Finished \<Rightarrow> mg_version m = length history
        | _ \<Rightarrow> True)"

definition lock_inv :: "migrating \<Rightarrow> bool" where
  "lock_inv m \<longleftrightarrow> revised (mg_version m) (mg_catalog m) \<and> (\<forall>p. phase_ok m p (mg_phase m p))"

lemma revised_next:
  "revised k c \<Longrightarrow> k < length history \<Longrightarrow> upgrade (history ! k) c = (Inr (), c') \<Longrightarrow> revised (Suc k) c'"
  by (simp add: revised_def take_Suc_conv_app_nth each_append)

lemma inv_stepI:
  assumes "lock_inv m" and "mg_phase m' = mg_phase m" and "phase_ok m' p ph"
    and "revised (mg_version m') (mg_catalog m')"
    and "\<And>q. q \<noteq> p \<Longrightarrow> (mg_holder m' = Some q) = (mg_holder m = Some q)"
    and "mg_version m' = mg_version m \<or> mg_version m' = length history"
  shows "lock_inv (at_phase p ph m')"
proof -
  have same: "phase_ok (at_phase p ph m') q x = phase_ok m' q x" for q x
    by (cases x) (simp_all add: phase_ok_def at_phase_def)
  have "phase_ok m' q (mg_phase m q)" if "q \<noteq> p" for q
  proof -
    have "phase_ok m q (mg_phase m q)" using assms(1) by (simp add: lock_inv_def)
    with assms(5) [OF that] assms(6) show ?thesis by (auto simp: phase_ok_def split: phase.split)
  qed
  with assms(2-4) same show ?thesis by (simp add: lock_inv_def) (simp add: at_phase_def)
qed

lemma lock_invD: "lock_inv m \<Longrightarrow> mg_phase m p = ph \<Longrightarrow> phase_ok m p ph"
  by (auto simp: lock_inv_def)

lemma lock_step_inv: "lock_step m m' \<Longrightarrow> lock_inv m \<Longrightarrow> lock_inv m'"
proof (induction rule: lock_step.induct)
  case (run_revision m p k c c')
  have "phase_ok m p (Running k c)" using lock_invD [OF run_revision.prems run_revision.hyps(1)] .
  then show ?case
    using run_revision revised_next [of k c c'] by (intro inv_stepI [of m]) (auto simp: phase_ok_def lock_inv_def)
next
  case (commit_run m p k c)
  have "phase_ok m p (Running k c)" using lock_invD [OF commit_run.prems commit_run.hyps(1)] .
  then show ?case using commit_run by (intro inv_stepI [of m]) (auto simp: phase_ok_def)
next
  case (try_free m p)
  then show ?case by (intro inv_stepI [of m]) (auto simp: phase_ok_def lock_inv_def)
next
  case (try_busy m p q)
  from lock_invD [OF try_busy.prems try_busy.hyps(1)] try_busy show ?case
    by (intro inv_stepI [of m]) (auto simp: phase_ok_def lock_inv_def)
next
  case (lock_free m p)
  then show ?case by (intro inv_stepI [of m]) (auto simp: phase_ok_def lock_inv_def)
next
  case (begin_run m p)
  from lock_invD [OF begin_run.prems begin_run.hyps(1)] begin_run show ?case
    by (intro inv_stepI [of m]) (auto simp: phase_ok_def lock_inv_def)
next
  case (unlock m p)
  from lock_invD [OF unlock.prems unlock.hyps(1)] unlock show ?case
    by (intro inv_stepI [of m]) (auto simp: phase_ok_def lock_inv_def)
next
  case (die m p)
  then show ?case by (intro inv_stepI [of m]) (auto simp: phase_ok_def lock_inv_def)
qed

lemma lock_run_inv: "lock_step\<^sup>*\<^sup>* fresh_database m \<Longrightarrow> lock_inv m"
proof (induction rule: rtranclp_induct)
  case base
  show ?case by (simp add: lock_inv_def phase_ok_def fresh_database_def revised_def)
qed (auto intro: lock_step_inv)

text \<open>
  C18: However many processes migrate one database at once, and whoever dies on the way: at most
  one of them is between lock and unlock, the committed schema is always the one that a prefix of
  the history builds (no revision is ever run twice or skipped), and once a process has finished
  the whole history is committed.
\<close>

theorem migrations_exclude_each_other:
  assumes "lock_step\<^sup>*\<^sup>* fresh_database m"
  shows "(holding (mg_phase m p) \<longrightarrow> holding (mg_phase m q) \<longrightarrow> p = q)
    \<and> each upgrade (take (mg_version m) history) [] = (Inr (), mg_catalog m)
    \<and> (mg_phase m p = Finished \<longrightarrow> mg_version m = length history)"
proof -
  have inv: "lock_inv m" using lock_run_inv [OF assms] .
  then have "phase_ok m p (mg_phase m p)" "phase_ok m q (mg_phase m q)" by (simp_all add: lock_inv_def)
  then have "holding (mg_phase m p) \<longrightarrow> holding (mg_phase m q) \<longrightarrow> p = q"
    and "mg_phase m p = Finished \<longrightarrow> mg_version m = length history"
    by (auto simp: phase_ok_def)
  with inv show ?thesis by (simp add: lock_inv_def revised_def)
qed

end
