(* ===== verification/Cache.thy ===== *)
theory Cache
  imports World Settings "HOL-Library.List_Lexorder" "HOL-Library.Char_ord"
begin

section \<open>core/cache.py\<close>

text \<open>
  The cache-aside decorator and the invalidation by tags. An argument is its name and the text
  \<open>str\<close> makes of it; \<open>sha\<close> is SHA-256 in hexadecimal, \<open>dump\<close> and \<open>validate\<close> are the TypeAdapter of
  the function's return type. The times to live are positive (Redis refuses others), and the
  default pipeline is a transaction.
\<close>

subsection \<open>The key\<close>

definition repr_pair :: "string \<times> string \<Rightarrow> string" where
  "repr_pair item = ''('' @ py_repr (fst item) @ '', '' @ py_repr (snd item) @ '')''"

definition repr_tuple :: "(string \<times> string) list \<Rightarrow> string" where
  "repr_tuple items =
     (case items of [x] \<Rightarrow> ''('' @ repr_pair x @ '',)''
      | _ \<Rightarrow> ''('' @ join '', '' (map repr_pair items) @ '')'')"

definition ignored_arguments :: "string list" where
  "ignored_arguments = [''self'', ''cls'', ''repo'', ''db'']"

definition generate_cache_key ::
  "(string \<Rightarrow> string) \<Rightarrow> string \<Rightarrow> string \<Rightarrow> string \<Rightarrow> (string \<times> string) list \<Rightarrow> string" where
  "generate_cache_key sha prefix module name bound =
     (let cache_kwargs = filter (\<lambda>(k, v). k \<notin> set ignored_arguments) bound;
          arg_str = repr_tuple (sort_key fst cache_kwargs)
      in prefix @ '':'' @ module @ '':'' @ name @ '':'' @ sha arg_str)"

subsection \<open>The wrapper\<close>

definition tag_key :: "settings \<Rightarrow> string \<Rightarrow> string" where
  "tag_key st tag = cache_prefix st @ '':tags:'' @ tag"

definition store_commands ::
  "settings \<Rightarrow> time \<Rightarrow> string \<Rightarrow> string \<Rightarrow> time \<Rightarrow> string list \<Rightarrow> (redis \<Rightarrow> redis) list" where
  "store_commands st rnow key json_data ttl tags =
     set_string rnow key json_data (Some ttl)
     # concat (map (\<lambda>tag. [sadd_member rnow (tag_key st tag) key, expire_key rnow (tag_key st tag) ttl]) tags)"

definition actual_ttl :: "settings \<Rightarrow> int option \<Rightarrow> time" where
  "actual_ttl st ttl = seconds (case ttl of None \<Rightarrow> cache_default_ttl st | Some s \<Rightarrow> s)"

text \<open>An empty payload counts as a miss. \<open>r1\<close> and \<open>r2\<close> are Redis' clock at the read and the writes.\<close>

definition cached_call ::
  "settings \<Rightarrow> int option \<Rightarrow> string list \<Rightarrow> string \<Rightarrow> (string \<Rightarrow> exc + 'a) \<Rightarrow> ('a \<Rightarrow> string) \<Rightarrow> time \<Rightarrow> time
     \<Rightarrow> 'a io \<Rightarrow> 'a io" where
  "cached_call st ttl tags key validate dump r1 r2 func =
     chain (on_redis (redis_get r1 key)) (\<lambda>cached_payload.
       case cached_payload of
         Some (c # cs) \<Rightarrow> (\<lambda>w. (validate (c # cs), w))
       | _ \<Rightarrow>
           chain func (\<lambda>result.
           chain (on_redis (transaction_pipeline
                    (store_commands st r2 key (dump result) (actual_ttl st ttl) tags))) (\<lambda>_.
           ret result)))"

subsection \<open>Invalidation\<close>

fun members_of :: "time \<Rightarrow> string list \<Rightarrow> string set rd" where
  "members_of now [] = ret {}"
| "members_of now (k # ks) =
     chain (redis_smembers now k) (\<lambda>m. chain (members_of now ks) (\<lambda>ms. ret (m \<union> ms)))"

definition invalidate_tags :: "settings \<Rightarrow> time \<Rightarrow> string list \<Rightarrow> unit rd" where
  "invalidate_tags st now tags =
     (if tags = [] then ret ()
      else chain (members_of now (map (tag_key st) tags)) (\<lambda>keys.
             transaction_pipeline
               ((if keys \<noteq> {} then [delete_keys keys] else [])
                @ [delete_keys (set (map (tag_key st) tags))])))"


subsection \<open>Writes to the cache\<close>

record cache_write =
  cw_at :: time
  cw_key :: string
  cw_json :: string
  cw_ttl :: time
  cw_tags :: "string list"

definition write_entry :: "settings \<Rightarrow> cache_write \<Rightarrow> redis \<Rightarrow> redis" where
  "write_entry st cw r =
     fold (\<lambda>c. c) (store_commands st (cw_at cw) (cw_key cw) (cw_json cw) (cw_ttl cw) (cw_tags cw)) r"

text \<open>The commands for the tags, tag by tag.\<close>

definition tag_entry :: "settings \<Rightarrow> cache_write \<Rightarrow> string \<Rightarrow> redis \<Rightarrow> redis" where
  "tag_entry st cw tag r =
     expire_key (cw_at cw) (tag_key st tag) (cw_ttl cw) (sadd_member (cw_at cw) (tag_key st tag) (cw_key cw) r)"

lemma write_entry_fold:
  "write_entry st cw r =
     fold (tag_entry st cw) (cw_tags cw) (set_string (cw_at cw) (cw_key cw) (cw_json cw) (Some (cw_ttl cw)) r)"
proof -
  have "fold (\<lambda>c. c) (concat (map (\<lambda>tag. [sadd_member (cw_at cw) (tag_key st tag) (cw_key cw),
      expire_key (cw_at cw) (tag_key st tag) (cw_ttl cw)]) tags)) q = fold (tag_entry st cw) tags q" for tags q
    by (induction tags arbitrary: q) (simp_all add: tag_entry_def)
  then show ?thesis by (simp add: write_entry_def store_commands_def)
qed

lemma tag_key_inj [simp]: "tag_key st a = tag_key st b \<longleftrightarrow> a = b"
  by (simp add: tag_key_def)

lemma kv_tag_other: "k \<noteq> tag_key st tag \<Longrightarrow> kv (tag_entry st cw tag r) k = kv r k"
  by (auto simp: tag_entry_def sadd_member_def expire_key_def put_entry_def
      split: option.split redis_value.split)

definition members :: "redis \<Rightarrow> time \<Rightarrow> string \<Rightarrow> string set" where
  "members r now k = (case live_entry r now k of Some (RSet m) \<Rightarrow> m | _ \<Rightarrow> {})"

lemma kv_tag_same:
  "0 < cw_ttl cw \<Longrightarrow> kv (tag_entry st cw tag r) (tag_key st tag) =
     Some (RSet (insert (cw_key cw) (members r (cw_at cw) (tag_key st tag))), Some (cw_at cw + cw_ttl cw))"
  by (auto simp: tag_entry_def sadd_member_def expire_key_def put_entry_def live_entry_def members_def
      split: option.splits redis_value.splits if_splits)

lemma kv_tags_other: "k \<notin> tag_key st ` set tags \<Longrightarrow> kv (fold (tag_entry st cw) tags r) k = kv r k"
  by (induction tags arbitrary: r) (simp_all add: kv_tag_other)

lemma kv_tags_in:
  "0 < cw_ttl cw \<Longrightarrow> tag \<in> set tags \<Longrightarrow>
     \<exists>m. kv (fold (tag_entry st cw) tags r) (tag_key st tag) = Some (RSet m, Some (cw_at cw + cw_ttl cw))
       \<and> insert (cw_key cw) (members r (cw_at cw) (tag_key st tag)) \<subseteq> m"
proof (induction tags rule: rev_induct)
  case (snoc x tags)
  let ?q = "fold (tag_entry st cw) tags r"
  show ?case
  proof (cases "x = tag")
    case True
    have "members r (cw_at cw) (tag_key st tag) \<subseteq> members ?q (cw_at cw) (tag_key st tag)"
    proof (cases "tag \<in> set tags")
      case True
      with snoc show ?thesis by (auto simp: members_def live_entry_def)
    next
      case False
      then show ?thesis by (simp add: members_def live_entry_def kv_tags_other image_iff)
    qed
    with True snoc.prems show ?thesis by (auto simp: kv_tag_same)
  next
    case False
    with snoc show ?thesis by (auto simp: kv_tag_other)
  qed
qed simp

lemma kv_write_key:
  assumes "cw_key cw \<notin> tag_key st ` set (cw_tags cw)"
  shows "kv (write_entry st cw r) (cw_key cw) = Some (RStr (cw_json cw), Some (cw_at cw + cw_ttl cw))"
  unfolding write_entry_fold kv_tags_other [OF assms] by (simp add: set_string_def put_entry_def)

lemma kv_write_other:
  "k \<noteq> cw_key cw \<Longrightarrow> k \<notin> tag_key st ` set (cw_tags cw) \<Longrightarrow> kv (write_entry st cw r) k = kv r k"
  by (simp add: write_entry_fold kv_tags_other set_string_def put_entry_def)

text \<open>While the entry lives, the tag's set lives and names it.\<close>

definition linked :: "redis \<Rightarrow> string \<Rightarrow> string \<Rightarrow> time \<Rightarrow> bool" where
  "linked r T key now \<longleftrightarrow> (\<forall>t \<ge> now. live_entry r t key \<noteq> None \<longrightarrow> key \<in> members r t T)"

lemma write_links:
  assumes "0 < cw_ttl cw" and "tag \<in> set (cw_tags cw)" and "cw_key cw \<notin> tag_key st ` set (cw_tags cw)"
  shows "linked (write_entry st cw r) (tag_key st tag) (cw_key cw) (cw_at cw)"
proof -
  let ?q = "set_string (cw_at cw) (cw_key cw) (cw_json cw) (Some (cw_ttl cw)) r"
  obtain m where "kv (write_entry st cw r) (tag_key st tag) = Some (RSet m, Some (cw_at cw + cw_ttl cw))" "cw_key cw \<in> m"
    using kv_tags_in [OF assms(1,2), of st ?q] by (auto simp: write_entry_fold)
  then show ?thesis
    using kv_write_key [OF assms(3), of r] by (auto simp: linked_def members_def live_entry_def split: if_splits)
qed

lemma write_keeps_linked:
  assumes "linked r (tag_key st tag) key now" and "now \<le> cw_at cw" and "kv r key = Some (v, Some e)"
    and "key \<noteq> cw_key cw" and "key \<notin> range (tag_key st)" and "cw_key cw \<notin> range (tag_key st)"
    and "0 < cw_ttl cw" and "tag \<in> set (cw_tags cw) \<Longrightarrow> e \<le> cw_at cw + cw_ttl cw"
  shows "linked (write_entry st cw r) (tag_key st tag) key (cw_at cw)"
    and "kv (write_entry st cw r) key = Some (v, Some e)"
proof -
  let ?q = "set_string (cw_at cw) (cw_key cw) (cw_json cw) (Some (cw_ttl cw)) r"
  have key: "kv (write_entry st cw r) key = kv r key" using assms(4,5) by (intro kv_write_other) auto
  then show "kv (write_entry st cw r) key = Some (v, Some e)" using assms(3) by simp
  have T: "cw_key cw \<noteq> tag_key st tag" using assms(6) by auto
  have q: "kv ?q (tag_key st tag) = kv r (tag_key st tag)" using T by (simp add: set_string_def put_entry_def)
  show "linked (write_entry st cw r) (tag_key st tag) key (cw_at cw)"
  proof (cases "tag \<in> set (cw_tags cw)")
    case True
    obtain m where m: "kv (write_entry st cw r) (tag_key st tag) = Some (RSet m, Some (cw_at cw + cw_ttl cw))"
      "members ?q (cw_at cw) (tag_key st tag) \<subseteq> m"
      using kv_tags_in [OF assms(7) True, of st ?q] by (auto simp: write_entry_fold)
    have "key \<in> m" if "cw_at cw < e"
    proof -
      have "key \<in> members r (cw_at cw) (tag_key st tag)"
        using assms(1-3) that by (simp add: linked_def live_entry_def)
      with m(2) q show ?thesis by (auto simp: members_def live_entry_def)
    qed
    then show ?thesis
      using m(1) key assms(3) assms(8) [OF True] by (auto simp: linked_def members_def live_entry_def)
  next
    case False
    have "kv (write_entry st cw r) (tag_key st tag) = kv r (tag_key st tag)"
      using False T by (intro kv_write_other) auto
    then show ?thesis using assms(1,2) key by (simp add: linked_def members_def live_entry_def)
  qed
qed


fun writes_ok :: "settings \<Rightarrow> string \<Rightarrow> string \<Rightarrow> time \<Rightarrow> time \<Rightarrow> cache_write list \<Rightarrow> bool" where
  "writes_ok st tag key e now [] \<longleftrightarrow> True"
| "writes_ok st tag key e now (cw # cws) \<longleftrightarrow>
     now \<le> cw_at cw \<and> 0 < cw_ttl cw \<and> cw_key cw \<noteq> key \<and> cw_key cw \<notin> range (tag_key st)
   \<and> (tag \<in> set (cw_tags cw) \<longrightarrow> e \<le> cw_at cw + cw_ttl cw) \<and> writes_ok st tag key e (cw_at cw) cws"

lemma writes_keep_linked:
  "writes_ok st tag key e now cws \<Longrightarrow> linked r (tag_key st tag) key now \<Longrightarrow> kv r key = Some (v, Some e) \<Longrightarrow>
     key \<notin> range (tag_key st) \<Longrightarrow>
     linked (fold (write_entry st) cws r) (tag_key st tag) key (last (now # map cw_at cws))"
proof (induction cws arbitrary: now r)
  case (Cons cw cws)
  have l: "linked (write_entry st cw r) (tag_key st tag) key (cw_at cw)"
    and k: "kv (write_entry st cw r) key = Some (v, Some e)"
    using write_keeps_linked [of r st tag key now cw v e] Cons.prems by auto
  have "writes_ok st tag key e (cw_at cw) cws" using Cons.prems by simp
  from Cons.IH [OF this l k Cons.prems(4)] show ?case by simp
qed simp

lemma members_of_Inr:
  "members_of now ks r = (Inr ms, r') \<Longrightarrow> kv r' = kv r \<and> ms = (\<Union>k \<in> set ks. members r now k)"
proof (induction ks arbitrary: r ms)
  case (Cons k ks)
  obtain m q ms' where k: "redis_smembers now k r = (Inr m, q)" and ks: "members_of now ks q = (Inr ms', r')"
    and ms: "ms = m \<union> ms'"
    using Cons.prems by (auto simp: chain_eq_Inr_iff)
  have "kv q = kv r" "m = members r now k"
    using k by (auto simp: redis_smembers_def command_def members_def split: if_splits)
  moreover have "members q now j = members r now j" for j
    using \<open>kv q = kv r\<close> by (simp add: members_def live_entry_def)
  ultimately show ?case using Cons.IH [OF ks] ms by simp
qed simp

lemma invalidate_Inr:
  assumes "invalidate_tags st now tags r = (Inr u, r')" and "tag \<in> set tags"
    and "key \<in> members r now (tag_key st tag)"
  shows "kv r' key = None"
proof -
  have "tags \<noteq> []" using assms(2) by auto
  with assms(1) have "chain (members_of now (map (tag_key st) tags)) (\<lambda>keys. transaction_pipeline
      ((if keys \<noteq> {} then [delete_keys keys] else []) @ [delete_keys (set (map (tag_key st) tags))])) r = (Inr u, r')"
    by (simp add: invalidate_tags_def)
  then obtain ms q where m: "members_of now (map (tag_key st) tags) r = (Inr ms, q)"
    and p: "transaction_pipeline ((if ms \<noteq> {} then [delete_keys ms] else [])
                @ [delete_keys (set (map (tag_key st) tags))]) q = (Inr u, r')"
    unfolding chain_eq_Inr_iff by blast
  have "key \<in> ms" using members_of_Inr [OF m] assms(2,3) by auto
  then show ?thesis using p
    by (auto simp: transaction_pipeline_def command_def delete_keys_def split: if_splits)
qed

subsection \<open>Properties\<close>

text \<open>
  C27: A cached result comes back: after a call that missed, every call with the same key within
  the time to live returns the stored value, read back through the adapter, without running the
  function.
\<close>

theorem cache_round_trip:
  assumes "cached_call st ttl tags key validate dump r1 r2 func w = (Inr x, w1)"
    and "live_entry (w_redis w) r1 key = None"
    and "validate (dump x) = Inr x" and "dump x \<noteq> []" and "key \<notin> range (tag_key st)"
    and "r3 < r2 + actual_ttl st ttl" and "answers (w_redis w1) = None"
  shows "cached_call st ttl tags key validate dump r3 r4 func' w1 = (Inr x, w1)"
proof -
  let ?cw = "\<lparr>cw_at = r2, cw_key = key, cw_json = dump x, cw_ttl = actual_ttl st ttl, cw_tags = tags\<rparr>"
  obtain v wa wb where g: "on_redis (redis_get r1 key) w = (Inr v, wa)"
    and rest: "(case v of Some (c # cs) \<Rightarrow> (\<lambda>w. (validate (c # cs), w))
       | _ \<Rightarrow> chain func (\<lambda>result.
           chain (on_redis (transaction_pipeline (store_commands st r2 key (dump result) (actual_ttl st ttl) tags)))
           (\<lambda>_. ret result))) wa = (Inr x, w1)"
    using assms(1) unfolding cached_call_def chain_eq_Inr_iff by blast
  have "v = None"
    using g assms(2) by (auto simp: on_redis_eq redis_get_def command_def split: if_splits)
  with rest obtain wc where "on_redis (transaction_pipeline
      (store_commands st r2 key (dump x) (actual_ttl st ttl) tags)) wc = (Inr (), w1)"
    by (auto simp: chain_eq_Inr_iff)
  then obtain q where "w_redis w1 = write_entry st ?cw q"
    by (auto simp: on_redis_eq transaction_pipeline_def command_def write_entry_def split: if_splits)
  then have "kv (w_redis w1) key = Some (RStr (dump x), Some (r2 + actual_ttl st ttl))"
    using kv_write_key [of ?cw st q] assms(5) by (auto simp del: tag_key_inj)
  then have "redis_get r3 key (w_redis w1) = (Inr (Some (dump x)), w_redis w1)"
    using assms(6,7) by (cases "w_redis w1") (simp add: redis_get_def command_def live_entry_def)
  then have "on_redis (redis_get r3 key) w1 = (Inr (Some (dump x)), w1)" by (simp add: on_redis_def)
  then show ?thesis using assms(3,4) by (cases "dump x") (simp_all add: cached_call_def)
qed


text \<open>
  Without that condition it fails: an entry of a second shortens the life of the tag's set, and an
  invalidation after it finds the set gone and leaves an entry of an hour in place.
\<close>

lemma short_ttl_unlinks_tag:
  defines "st \<equiv> default_settings ''postgresql://localhost:5433/app''"
  defines "long \<equiv> \<lparr>cw_at = 0, cw_key = ''k1'', cw_json = ''1'', cw_ttl = seconds 3600, cw_tags = [''users'']\<rparr>"
    and "short \<equiv> \<lparr>cw_at = 0, cw_key = ''k2'', cw_json = ''2'', cw_ttl = seconds 1, cw_tags = [''users'']\<rparr>"
  defines "after \<equiv> snd (invalidate_tags st (seconds 2) [''users'']
      (write_entry st short (write_entry st long empty_redis)))"
  shows "live_entry after (seconds 2) ''k1'' = Some (RStr ''1'')"
  unfolding after_def st_def long_def short_def by code_simp

end
