(* ===== verification/SessionLife.thy ===== *)
theory SessionLife
  imports Program
begin

section \<open>The life of a refresh session\<close>

text \<open>
  What the repositories, services and cron jobs promise together about one refresh session: a small
  automaton, which the whole program refines. A session is absent, live at a generation, or ended.
\<close>

datatype session_life = NoSession | Live int | Ended

text \<open>
  The steps of the automaton; only a login that draws the identifier starts a session, and an ended
  session never lives again.
\<close>

inductive life_step :: "bool \<Rightarrow> session_life \<Rightarrow> session_life \<Rightarrow> bool" for drawn :: bool where
  start: "drawn \<Longrightarrow> life_step drawn NoSession (Live 0)"
| rotate: "life_step drawn (Live g) (Live (g + 1))"
| finish: "life_step drawn (Live g) Ended"
| forget: "life_step drawn l NoSession"

inductive_simps life_step_from_Ended: "life_step drawn Ended l"

definition life_of_row :: "refresh_row option \<Rightarrow> session_life" where
  "life_of_row row =
     (case row of None \<Rightarrow> NoSession
      | Some r \<Rightarrow> if rs_revoked_at r = None then Live (rs_generation r) else Ended)"

definition life_of :: "uuid \<Rightarrow> tables \<Rightarrow> session_life" where
  "life_of sid tb = life_of_row (find_session sid tb)"

definition life_kept :: "bool \<Rightarrow> uuid \<Rightarrow> tables \<Rightarrow> tables \<Rightarrow> bool" where
  "life_kept drawn sid tb tb' \<longleftrightarrow>
     (tables_ok tb \<longrightarrow> tables_ok tb' \<and> (life_step drawn)\<^sup>*\<^sup>* (life_of sid tb) (life_of sid tb'))"

interpretation life: table_relation "life_kept drawn sid" for drawn sid
  by unfold_locales (auto simp: life_kept_def)

subsection \<open>Statements\<close>

lemma life_stmtI:
  assumes "stmt_rel ok_step f"
    and "\<And>tb. tables_ok tb \<Longrightarrow> life_of sid (snd (f tb)) = life_of sid tb \<or> life_step drawn (life_of sid tb) (life_of sid (snd (f tb)))"
  shows "stmt_rel (life_kept drawn sid) f"
  unfolding stmt_rel_def life_kept_def
proof (intro allI impI conjI)
  fix tb
  assume ok: "tables_ok tb"
  then show "tables_ok (snd (f tb))" using assms(1) by (simp add: stmt_rel_def ok_step_def)
  from assms(2) [OF ok] show "(life_step drawn)\<^sup>*\<^sup>* (life_of sid tb) (life_of sid (snd (f tb)))" by auto
qed

lemma life_same:
  assumes "stmt_rel ok_step f" and "\<And>tb. refresh_sessions (snd (f tb)) = refresh_sessions tb"
  shows "stmt_rel (life_kept drawn sid) f"
  using assms by (intro life_stmtI) (simp_all add: life_of_def find_session_def)

lemma life_update:
  assumes "\<And>r. rs_id (g r) = rs_id r"
    and "\<And>r. p r \<Longrightarrow> life_step drawn (life_of_row (Some r)) (life_of_row (Some (g r)))"
  shows "life_of sid (tb\<lparr>refresh_sessions := update_where p g (refresh_sessions tb)\<rparr>) = life_of sid tb
    \<or> life_step drawn (life_of sid tb) (life_of sid (tb\<lparr>refresh_sessions := update_where p g (refresh_sessions tb)\<rparr>))"
proof -
  note found = session_table.find_update_where [of g sid p "refresh_sessions tb"]
  show ?thesis
  proof (cases "find_session sid tb")
    case None
    then show ?thesis using found assms(1) by (simp add: life_of_def find_session_def)
  next
    case (Some r)
    then show ?thesis using found assms(1) assms(2) [of r] by (simp add: life_of_def find_session_def)
  qed
qed

lemma life_delete:
  assumes "tables_ok tb" and "refresh_sessions tb' = delete_where p (refresh_sessions tb)"
  shows "life_of sid tb' = life_of sid tb \<or> life_step drawn (life_of sid tb) (life_of sid tb')"
proof -
  let ?del = "find (\<lambda>r. rs_id r = sid) (delete_where p (refresh_sessions tb))"
  have "?del = None \<or> ?del = find_session sid tb"
  proof (cases ?del)
    case (Some r)
    then have "r \<in> set (refresh_sessions tb)" "rs_id r = sid"
      by (auto simp: find_Some_iff delete_where_def in_set_conv_nth dest: nth_mem)
    with assms(1) have "find_session sid tb = Some r"
      unfolding find_session_def tables_ok_def by (simp only: session_table.find_Some_iff_mem)
    with Some show ?thesis by simp
  qed simp
  with assms(2) show ?thesis by (auto simp: life_of_def find_session_def life_of_row_def intro: life_step.forget)
qed

lemma life_stmts [frame_intros]:
  "stmt_rel (life_kept drawn sid) (claim_rows i uid g now)"
  "stmt_rel (life_kept drawn sid) (revoke_rows c now)"
  "stmt_rel (life_kept drawn sid) (delete_expired_sessions now)"
  "stmt_rel (life_kept drawn sid) (flush_user_delete i)"
proof -
  show "stmt_rel (life_kept drawn sid) (claim_rows i uid g now)"
  proof (rule life_stmtI)
    fix tb
    show "life_of sid (snd (claim_rows i uid g now tb)) = life_of sid tb
      \<or> life_step drawn (life_of sid tb) (life_of sid (snd (claim_rows i uid g now tb)))"
      unfolding claim_rows_def Let_def snd_conv
      by (rule life_update) (auto simp: claimed_def claimable_def life_of_row_def intro: life_step.rotate)
  qed (rule frame_intros)
  show "stmt_rel (life_kept drawn sid) (revoke_rows c now)"
  proof (rule life_stmtI)
    fix tb
    show "life_of sid (snd (revoke_rows c now tb)) = life_of sid tb
      \<or> life_step drawn (life_of sid tb) (life_of sid (snd (revoke_rows c now tb)))"
      unfolding revoke_rows_def snd_conv
      by (rule life_update) (auto simp: life_of_row_def intro: life_step.finish)
  qed (rule frame_intros)
  show "stmt_rel (life_kept drawn sid) (delete_expired_sessions now)"
  proof (rule life_stmtI)
    fix tb assume "tables_ok tb"
    then show "life_of sid (snd (delete_expired_sessions now tb)) = life_of sid tb
      \<or> life_step drawn (life_of sid tb) (life_of sid (snd (delete_expired_sessions now tb)))"
      by (rule life_delete) (simp add: delete_expired_sessions_def)
  qed (rule frame_intros)
  show "stmt_rel (life_kept drawn sid) (flush_user_delete i)"
  proof (rule life_stmtI)
    fix tb assume "tables_ok tb"
    then show "life_of sid (snd (flush_user_delete i tb)) = life_of sid tb
      \<or> life_step drawn (life_of sid tb) (life_of sid (snd (flush_user_delete i tb)))"
      by (rule life_delete) (simp add: flush_user_delete_def)
  qed (rule frame_intros)
qed

lemma life_insert:
  assumes "i = sid \<longrightarrow> drawn"
  shows "stmt_rel (life_kept drawn sid) (insert_session (new_refresh uid e i c))"
proof (rule life_stmtI)
  fix tb
  let ?r = "new_refresh uid e i c"
  consider "snd (insert_session ?r tb) = tb"
    | "i \<notin> rs_id ` set (refresh_sessions tb)"
      "snd (insert_session ?r tb) = tb\<lparr>refresh_sessions := refresh_sessions tb @ [?r]\<rparr>"
    by (cases "i \<in> rs_id ` set (refresh_sessions tb)"; cases "uid \<in> u_id ` set (users tb)")
       (simp_all add: insert_session_def new_refresh_def)
  then show "life_of sid (snd (insert_session ?r tb)) = life_of sid tb
    \<or> life_step drawn (life_of sid tb) (life_of sid (snd (insert_session ?r tb)))"
  proof cases
    case 2
    have "find_session sid tb = None" if "i = sid"
      using 2(1) that by (auto simp: find_session_def find_None_iff)
    with 2(2) assms show ?thesis
      by (auto simp: life_of_def find_session_def session_table.find_append_new new_refresh_def life_of_row_def
          intro: life_step.start split: option.split)
  qed simp
qed (rule frame_intros)

lemma life_others [frame_intros]:
  "stmt_rel (life_kept drawn sid) (insert_user u)"
  "stmt_rel (life_kept drawn sid) (insert_outbox b)"
  "stmt_rel (life_kept drawn sid) (insert_revoked r)"
  "stmt_rel (life_kept drawn sid) (insert_dead d)"
  "stmt_rel (life_kept drawn sid) (flush_user_update i fs t)"
  "stmt_rel (life_kept drawn sid) (insert_revoked_if_absent r)"
  "stmt_rel (life_kept drawn sid) (delete_expired_tokens t)"
  "stmt_rel (life_kept drawn sid) (retry_rows i t)"
  "stmt_rel (life_kept drawn sid) (delete_dead i)"
  "stmt_rel (life_kept drawn sid) (purge_dead bf only)"
  "stmt_rel (life_kept drawn sid) (write_rows rows)"
  "stmt_rel (life_kept drawn sid) (delete_dispatched c)"
  using flush_user_update_only
  by (rule_tac [!] life_same, auto intro!: frame_intros simp: only_users_def insert_defs insert_revoked_if_absent_def
      delete_expired_tokens_def retry_rows_def delete_dead_def purge_dead_def write_rows_def delete_dispatched_def Let_def)

subsection \<open>The program refines the automaton\<close>

lemma step_life:
  assumes "program_step oc tb tb'" and "drawn \<or> oc_session oc \<noteq> Some sid"
  shows "life_kept drawn sid tb tb'"
  by (rule life.step_kept [OF life.kept_program_op assms(1)])
     (use assms(2) in \<open>auto intro!: frame_intros life_insert\<close>)

text \<open>
  C5: Every run of the program, whatever its operations are, however they interleave and wherever
  their connections break, moves every refresh session along the automaton: a session appears only
  when a login drew its identifier, at generation 0; it goes from one generation to the next one; it
  ends; it may be forgotten, by a cleanup or with its user. An ended session never lives again.
\<close>

theorem program_refines_session_life:
  assumes "program_run (\<lambda>oc. drawn \<or> oc_session oc \<noteq> Some sid) tb tb'" and "tables_ok tb"
  shows "(life_step drawn)\<^sup>*\<^sup>* (life_of sid tb) (life_of sid tb')"
proof -
  have "life_kept drawn sid tb tb'" by (rule life.run_kept [OF step_life assms(1)])
  with assms(2) show ?thesis by (simp add: life_kept_def)
qed

text \<open>Without a login that draws its identifier again, what has ended stays ended or is forgotten.\<close>

lemma ended_stays:
  "(life_step False)\<^sup>*\<^sup>* l l' \<Longrightarrow> l \<in> {Ended, NoSession} \<Longrightarrow> l' \<in> {Ended, NoSession}"
  by (induction rule: rtranclp_induct) (auto elim: life_step.cases)

end
