(* ===== verification/Problem.thy ===== *)
theory Problem
  imports Errors
begin

section \<open>core/problem.py and auth/errors.py\<close>

text \<open>
  The problem documents (RFC 9457) that every error is answered with: \<open>ProblemDetails\<close>,
  \<open>problem_response\<close> and the exception handlers. A request is what the handlers read of it; headers
  are pairs of a lower-case name and a value. \<open>request_id_context\<close> is a parameter of the response
  (\<open>rid\<close>), as is Pydantic's list of validation errors.
\<close>

record request =
  scope_type :: string
  req_method :: string
  req_path :: string
  req_headers :: "(string \<times> string) list"

definition get_header :: "string \<Rightarrow> (string \<times> string) list \<Rightarrow> string option" where
  "get_header name headers = map_of headers name"

subsection \<open>The document\<close>

record invalid_param =
  ip_name :: string
  ip_reason :: string
  ip_code :: "string option"

record problem_details =
  pd_type :: string
  pd_title :: string
  pd_status :: int
  pd_detail :: string
  pd_instance :: string
  pd_correlation_id :: "string option"
  pd_invalid_params :: "invalid_param list option"

text \<open>\<open>model_dump(exclude_none=True)\<close>: the members in the order of the fields.\<close>

definition optional_member :: "string \<Rightarrow> json option \<Rightarrow> (string \<times> json) list" where
  "optional_member name v = (case v of None \<Rightarrow> [] | Some x \<Rightarrow> [(name, x)])"

definition dump_param :: "invalid_param \<Rightarrow> json" where
  "dump_param p =
     JObj ([(''name'', JStr (ip_name p)), (''reason'', JStr (ip_reason p))]
           @ optional_member ''code'' (map_option JStr (ip_code p)))"

definition model_dump :: "problem_details \<Rightarrow> (string \<times> json) list" where
  "model_dump p =
     [(''type'', JStr (pd_type p)), (''title'', JStr (pd_title p)), (''status'', JInt (pd_status p)),
      (''detail'', JStr (pd_detail p)), (''instance'', JStr (pd_instance p))]
     @ optional_member ''correlation_id'' (map_option JStr (pd_correlation_id p))
     @ optional_member ''invalid_params'' (map_option (\<lambda>ps. JList (map dump_param ps)) (pd_invalid_params p))"

text \<open>\<open>payload.update(extensions)\<close>: a member that is there is replaced in its place.\<close>

definition dict_set :: "(string \<times> json) list \<Rightarrow> string \<times> json \<Rightarrow> (string \<times> json) list" where
  "dict_set d kv =
     (if fst kv \<in> fst ` set d then map (\<lambda>m. if fst m = fst kv then kv else m) d else d @ [kv])"

definition dict_update :: "(string \<times> json) list \<Rightarrow> (string \<times> json) list \<Rightarrow> (string \<times> json) list" where
  "dict_update d e = foldl dict_set d e"

text \<open>\<open>HTTPStatus(status).phrase\<close>, with \<open>None\<close> where \<open>HTTPStatus\<close> raises \<open>ValueError\<close>.\<close>

definition http_phrases :: "(int \<times> string) list" where
  "http_phrases =
     [(100, ''Continue''), (101, ''Switching Protocols''), (102, ''Processing''), (103, ''Early Hints''),
      (200, ''OK''), (201, ''Created''), (202, ''Accepted''), (203, ''Non-Authoritative Information''),
      (204, ''No Content''), (205, ''Reset Content''), (206, ''Partial Content''), (207, ''Multi-Status''),
      (208, ''Already Reported''), (226, ''IM Used''), (300, ''Multiple Choices''),
      (301, ''Moved Permanently''), (302, ''Found''), (303, ''See Other''), (304, ''Not Modified''),
      (305, ''Use Proxy''), (307, ''Temporary Redirect''), (308, ''Permanent Redirect''),
      (400, ''Bad Request''), (401, ''Unauthorized''), (402, ''Payment Required''), (403, ''Forbidden''),
      (404, ''Not Found''), (405, ''Method Not Allowed''), (406, ''Not Acceptable''),
      (407, ''Proxy Authentication Required''), (408, ''Request Timeout''), (409, ''Conflict''),
      (410, ''Gone''), (411, ''Length Required''), (412, ''Precondition Failed''),
      (413, ''Content Too Large''), (414, ''URI Too Long''), (415, ''Unsupported Media Type''),
      (416, ''Range Not Satisfiable''), (417, ''Expectation Failed''), (418, ''I'' @ [CHR 0x27] @ ''m a Teapot''),
      (421, ''Misdirected Request''), (422, ''Unprocessable Content''), (423, ''Locked''),
      (424, ''Failed Dependency''), (425, ''Too Early''), (426, ''Upgrade Required''),
      (428, ''Precondition Required''), (429, ''Too Many Requests''),
      (431, ''Request Header Fields Too Large''), (451, ''Unavailable For Legal Reasons''),
      (500, ''Internal Server Error''), (501, ''Not Implemented''), (502, ''Bad Gateway''),
      (503, ''Service Unavailable''), (504, ''Gateway Timeout''), (505, ''HTTP Version Not Supported''),
      (506, ''Variant Also Negotiates''), (507, ''Insufficient Storage''), (508, ''Loop Detected''),
      (510, ''Not Extended''), (511, ''Network Authentication Required'')]"

definition resolved_title :: "string option \<Rightarrow> int \<Rightarrow> string" where
  "resolved_title given status =
     (case given of
        Some t \<Rightarrow> if t \<noteq> [] then t
                  else (case map_of http_phrases status of Some p \<Rightarrow> p | None \<Rightarrow> ''Error'')
      | None \<Rightarrow> (case map_of http_phrases status of Some p \<Rightarrow> p | None \<Rightarrow> ''Error''))"

record response =
  rsp_status :: int
  rsp_headers :: "(string \<times> string) list"
  rsp_media_type :: string
  rsp_body :: "(string \<times> json) list"

definition problem_media_type :: string where "problem_media_type = ''application/problem+json''"
definition default_problem_type :: string where "default_problem_type = ''about:blank''"

text \<open>\<open>request_id_context.get() or request.headers.get("X-Request-ID", "-")\<close>.\<close>

definition correlation_of :: "string \<Rightarrow> request \<Rightarrow> string" where
  "correlation_of rid req =
     (if rid \<noteq> [] then rid
      else (case get_header ''x-request-id'' (req_headers req) of Some h \<Rightarrow> h | None \<Rightarrow> ''-''))"

definition problem_response ::
  "string \<Rightarrow> request \<Rightarrow> int \<Rightarrow> string \<Rightarrow> string \<Rightarrow> string option \<Rightarrow> (string \<times> string) list
     \<Rightarrow> invalid_param list option \<Rightarrow> (string \<times> json) list option \<Rightarrow> response" where
  "problem_response rid req status text type_uri given headers invalid_params ext =
     (let problem = \<lparr>pd_type = type_uri, pd_title = resolved_title given status, pd_status = status,
            pd_detail = text, pd_instance = req_path req,
            pd_correlation_id = Some (correlation_of rid req), pd_invalid_params = invalid_params\<rparr>;
          payload = model_dump problem;
          payload = (case ext of None \<Rightarrow> payload
                     | Some e \<Rightarrow> if e \<noteq> [] then dict_update payload e else payload)
      in \<lparr>rsp_status = status, rsp_headers = headers, rsp_media_type = problem_media_type,
          rsp_body = payload\<rparr>)"

subsection \<open>The handlers\<close>

definition domain_exception_handler :: "string \<Rightarrow> request \<Rightarrow> domain_exception \<Rightarrow> response" where
  "domain_exception_handler rid req e =
     problem_response rid req (status_code e) (detail e) (type_str e) (title e) [] None (extensions e)"

text \<open>An HTTP exception's detail may be any JSON value.\<close>

definition http_exception_handler :: "string \<Rightarrow> request \<Rightarrow> int \<Rightarrow> json \<Rightarrow> response" where
  "http_exception_handler rid req status d =
     problem_response rid req status (case d of JStr s \<Rightarrow> s | _ \<Rightarrow> ''Request failed'')
       default_problem_type None [] None None"

text \<open>One validation error: its location (as text), message and code.\<close>

record validation_error =
  ve_loc :: "string list"
  ve_msg :: string
  ve_type :: "string option"

definition invalid_param_of :: "validation_error \<Rightarrow> invalid_param" where
  "invalid_param_of e =
     \<lparr>ip_name = join ''.'' (filter (\<lambda>part. part \<noteq> ''body'') (ve_loc e)), ip_reason = ve_msg e,
      ip_code = ve_type e\<rparr>"

definition validation_exception_handler :: "string \<Rightarrow> request \<Rightarrow> validation_error list \<Rightarrow> response" where
  "validation_exception_handler rid req errors =
     problem_response rid req 422 ''Request validation failed'' default_problem_type
       (Some ''Unprocessable Entity'') [] (Some (map invalid_param_of errors)) None"

text \<open>The rate limiter's own headers are added by \<open>inject\<close>, slowapi's \<open>_inject_headers\<close>.\<close>

definition rate_limit_exception_handler ::
  "(response \<Rightarrow> response) option \<Rightarrow> string \<Rightarrow> request \<Rightarrow> string \<Rightarrow> response" where
  "rate_limit_exception_handler inject rid req d =
     (let response = problem_response rid req 429 (''Rate limit exceeded: '' @ d) default_problem_type
                       (Some ''Too Many Requests'') [] None None
      in case inject of None \<Rightarrow> response | Some f \<Rightarrow> f response)"

definition unhandled_exception_handler :: "string \<Rightarrow> request \<Rightarrow> response" where
  "unhandled_exception_handler rid req =
     problem_response rid req 500 ''Internal server error'' default_problem_type
       (Some ''Internal Server Error'') [] None None"

subsection \<open>auth/errors.py\<close>

text \<open>
  An AuthX exception is known by the classes of the table that it is an instance of.
\<close>

datatype authx_class =
  JWTDecodeErrorA | InsufficientScopeErrorA | PolicyDeniedErrorA | PolicyEvaluationErrorA
| RateLimitExceededA

definition authx_statuses :: "(authx_class \<times> int) list" where
  "authx_statuses = [(JWTDecodeErrorA, 422), (InsufficientScopeErrorA, 403), (PolicyDeniedErrorA, 403),
     (PolicyEvaluationErrorA, 500), (RateLimitExceededA, 429)]"

definition authx_status :: "authx_class set \<Rightarrow> int" where
  "authx_status classes =
     (case find (\<lambda>p. fst p \<in> classes) authx_statuses of Some p \<Rightarrow> snd p | None \<Rightarrow> 401)"

definition authx_exception_handler :: "string \<Rightarrow> request \<Rightarrow> authx_class set \<Rightarrow> string \<Rightarrow> response" where
  "authx_exception_handler rid req classes text =
     problem_response rid req (authx_status classes) text default_problem_type None [] None None"

subsection \<open>Which handler runs\<close>

text \<open>
  What may leave a route. The handlers are installed by class, and the most specific one runs;
  everything without one of its own is an internal error.
\<close>

datatype raised =
  RaisedDomain domain_exception
| RaisedHttp int json
| RaisedValidation "validation_error list"
| RaisedRateLimit string
| RaisedAuthX "authx_class set" string
| RaisedOther string

definition handle_exception ::
  "(response \<Rightarrow> response) option \<Rightarrow> string \<Rightarrow> request \<Rightarrow> raised \<Rightarrow> response" where
  "handle_exception inject rid req e =
     (case e of
        RaisedDomain d \<Rightarrow> domain_exception_handler rid req d
      | RaisedHttp st d \<Rightarrow> http_exception_handler rid req st d
      | RaisedValidation es \<Rightarrow> validation_exception_handler rid req es
      | RaisedRateLimit d \<Rightarrow> rate_limit_exception_handler inject rid req d
      | RaisedAuthX cs d \<Rightarrow> authx_exception_handler rid req cs d
      | RaisedOther d \<Rightarrow> unhandled_exception_handler rid req)"

text \<open>The status the program means each of them to have.\<close>

definition raised_status :: "raised \<Rightarrow> int" where
  "raised_status e =
     (case e of
        RaisedDomain d \<Rightarrow> status_code d | RaisedHttp st _ \<Rightarrow> st | RaisedValidation _ \<Rightarrow> 422
      | RaisedRateLimit _ \<Rightarrow> 429 | RaisedAuthX cs _ \<Rightarrow> authx_status cs | RaisedOther _ \<Rightarrow> 500)"

definition reserved_members :: "string list" where
  "reserved_members = [''type'', ''title'', ''status'', ''detail'', ''instance'', ''correlation_id'']"

lemma map_of_replaced:
  "k \<noteq> j \<Longrightarrow> map_of (map (\<lambda>m. if fst m = j then (j, x) else m) d) k = map_of d k"
  by (induction d) auto

lemma dict_set_keeps: "map_of d k = Some v \<Longrightarrow> k \<noteq> fst kv \<Longrightarrow> map_of (dict_set d kv) k = Some v"
proof (cases kv)
  case (Pair j x)
  assume "map_of d k = Some v" "k \<noteq> fst kv"
  with map_of_replaced [of k j x d] show ?thesis
    unfolding dict_set_def Pair fst_conv by (cases "j \<in> fst ` set d") (simp_all add: map_add_Some_iff)
qed

lemma dict_update_keeps:
  "map_of d k = Some v \<Longrightarrow> k \<notin> fst ` set e \<Longrightarrow> map_of (dict_update d e) k = Some v"
proof (induction e arbitrary: d)
  case (Cons kv e)
  then show ?case by (simp add: dict_update_def dict_set_keeps)
qed (simp add: dict_update_def)


end
