(* ===== verification/Routes.thy ===== *)
theory Routes
  imports AuthProps DeadLetter Problem
begin

section \<open>The routes and their dependencies\<close>

text \<open>
  \<open>user/services/user_service.py\<close>, \<open>user/dependencies.py\<close> and the routers of \<open>auth\<close>, \<open>user\<close> and
  \<open>core/dead_letter\<close>. FastAPI has parsed and validated path, query and body before a handler runs;
  slowapi has decided that the request is within its limit. AuthX is the parameter \<open>ax\<close>: where it
  finds a request's token, how it decodes and verifies one, how it issues them and how it compares
  scopes. \<open>now\<close> and \<open>rnow\<close> give the readings of the process's and of the Redis server's clock in the
  order in which the code takes them.
\<close>

record authx =
  ax_token :: "string \<Rightarrow> string \<Rightarrow> request \<Rightarrow> exc + string"
  ax_decode :: "time \<Rightarrow> string \<Rightarrow> exc + token_payload"
  ax_verify :: "time \<Rightarrow> string \<Rightarrow> string \<Rightarrow> request \<Rightarrow> string \<Rightarrow> exc + token_payload"
  ax_access :: "time \<Rightarrow> string \<Rightarrow> string list \<Rightarrow> string"
  ax_refresh :: "time \<Rightarrow> string \<Rightarrow> time \<Rightarrow> (string \<times> json) list \<Rightarrow> string"
  ax_has_scopes :: "token_payload \<Rightarrow> string list \<Rightarrow> bool \<Rightarrow> bool"
  ax_refresh_cookie :: "request \<Rightarrow> string option"

datatype cookie_action = KeepCookie | SetRefreshCookie string | UnsetRefreshCookie

record reply =
  rp_status :: int
  rp_body :: json
  rp_cookie :: cookie_action

definition plain_reply :: "json \<Rightarrow> reply" where
  "plain_reply b = \<lparr>rp_status = 200, rp_body = b, rp_cookie = KeepCookie\<rparr>"

definition message_reply :: "string \<Rightarrow> reply" where
  "message_reply m = plain_reply (JObj [(''message'', JStr m)])"

subsection \<open>Authentication\<close>

text \<open>
  \<open>auth.token_required(type=..., locations=[...])\<close> with the callback that \<open>auth/dependencies.py\<close>
  installs: AuthX finds the token, asks the callback, and rejects the token when the answer is yes
  before it verifies it.
\<close>

definition token_required ::
  "authx \<Rightarrow> string \<Rightarrow> string \<Rightarrow> (nat \<Rightarrow> time) \<Rightarrow> (nat \<Rightarrow> time) \<Rightarrow> request \<Rightarrow> token_payload io" where
  "token_required ax ty loc now rnow req =
     (case ax_token ax ty loc req of Inl e \<Rightarrow> raise e
      | Inr token \<Rightarrow>
          chain (is_token_revoked (ax_decode ax (now 0)) token (rnow 0) (now 1) (rnow 1) (now 2) (now 3)
                   (rnow 2)) (\<lambda>revoked.
            if revoked then raise RevokedTokenError
            else of_sum (ax_verify ax (now 4) ty loc req token)))"

abbreviation access_required ::
  "authx \<Rightarrow> (nat \<Rightarrow> time) \<Rightarrow> (nat \<Rightarrow> time) \<Rightarrow> request \<Rightarrow> token_payload io" where
  "access_required ax \<equiv> token_required ax ''access'' ''headers''"

definition auth_session_dep ::
  "authx \<Rightarrow> (nat \<Rightarrow> time) \<Rightarrow> (nat \<Rightarrow> time) \<Rightarrow> request \<Rightarrow> auth_session io" where
  "auth_session_dep ax now rnow req =
     chain (access_required ax now rnow req) (\<lambda>payload.
     of_sum (get_auth_session (ax_decode ax (now 5)) payload (ax_refresh_cookie ax req)))"

definition scopes_dep ::
  "authx \<Rightarrow> string list \<Rightarrow> (nat \<Rightarrow> time) \<Rightarrow> (nat \<Rightarrow> time) \<Rightarrow> request \<Rightarrow> token_payload io" where
  "scopes_dep ax required now rnow req =
     chain (access_required ax now rnow req) (\<lambda>payload.
     of_sum (require_scopes (ax_has_scopes ax) required True payload))"

text \<open>\<open>UUID(payload.sub)\<close>.\<close>

definition subject_uuid :: "token_payload \<Rightarrow> ('s, exc, uuid) act" where
  "subject_uuid payload =
     (case parse_uuid (tp_sub payload) of
        None \<Rightarrow> raise (ValueError ''badly formed hexadecimal UUID string'')
      | Some u \<Rightarrow> ret u)"

definition get_current_user ::
  "authx \<Rightarrow> (nat \<Rightarrow> time) \<Rightarrow> (nat \<Rightarrow> time) \<Rightarrow> request \<Rightarrow> user io" where
  "get_current_user ax now rnow req =
     chain (access_required ax now rnow req) (\<lambda>payload.
     chain (subject_uuid payload) (\<lambda>uid.
     chain (on_db (user_get uid False)) (\<lambda>found.
       case found of None \<Rightarrow> raise (Domain (entity_not_found_error ''User'' (tp_sub payload)))
       | Some usr \<Rightarrow>
           if \<not> user_is_active usr
           then raise (Domain (unauthorized_action_error ''Account is deactivated''))
           else ret usr)))"

subsection \<open>user\_service.py\<close>

record create_user_request =
  cu_name :: string
  cu_email :: string
  cu_password :: string

text \<open>A member that was not sent is \<open>None\<close>, an explicit \<open>null\<close> is \<open>Some None\<close>.\<close>

record update_user_request =
  uu_full_name :: "string option option"
  uu_email :: "string option option"
  uu_password :: "string option option"

definition service_register ::
  "auth_env \<Rightarrow> create_user_request \<Rightarrow> uuid \<Rightarrow> time \<Rightarrow> uuid \<Rightarrow> string \<Rightarrow> uuid \<Rightarrow> time \<Rightarrow> time
     \<Rightarrow> uuid \<Rightarrow> time \<Rightarrow> user db" where
  "service_register env data uid now u salt k created updated event_id event_created =
     (case create_verification_token env (str_uuid uid) now u of (token, jti) \<Rightarrow>
        chain (hash_password env (cu_password data) salt) (\<lambda>h.
        user_register (orig_text env) uid (cu_name data) (cu_email data) h jti
          (verification_email_payload env (cu_email data) token) k created updated event_id event_created))"

definition dumped_fields :: "update_user_request \<Rightarrow> user_field list" where
  "dumped_fields data =
     (case uu_full_name data of None \<Rightarrow> [] | Some v \<Rightarrow> [SetFullName v])
     @ (case uu_email data of None \<Rightarrow> [] | Some v \<Rightarrow> [SetEmail v])"

definition service_update ::
  "auth_env \<Rightarrow> uuid \<Rightarrow> update_user_request \<Rightarrow> string \<Rightarrow> time \<Rightarrow> user db" where
  "service_update env uid data salt now =
     chain (case uu_password data of
              Some (Some p) \<Rightarrow>
                chain (hash_password env p salt) (\<lambda>h. ret (dumped_fields data @ [SetPasswordHash h]))
            | _ \<Rightarrow> ret (dumped_fields data)) (\<lambda>changes.
     chain (user_update (orig_text env) uid changes now) (\<lambda>result.
       case result of None \<Rightarrow> raise (user_not_found uid) | Some u \<Rightarrow> ret u))"

text \<open>
  A request that sends \<open>"email": null\<close> is told that the address is taken, although nobody has it:
  the text of the NOT NULL violation names the column, too.
\<close>

lemma null_email_reported_as_taken:
  assumes "driver_names_column (orig_text env)" and "budget s = None" and "find_user uid (working s) = Some r"
  shows "fst (service_update env uid \<lparr>uu_full_name = None, uu_email = Some None, uu_password = None\<rparr> salt now s)
     = Inl (Domain (conflict_error ''Email already in use''))"
proof -
  have named: "contains (lower (orig_text env (NotNullViolation ''users'' ''email''))) ''email''"
    using driver_namesD(2) [OF assms(1), of "''users''" "''email''"] by (simp only: lower_email)
  show ?thesis using assms(2,3) named
    by (simp add: service_update_def dumped_fields_def user_update_def user_stage_update_def flush_or_raise_def
        db_flush_live pinned_live flush_user_update_def email_conflict_def transaction_def rollback_def)
qed

subsection \<open>auth\_router.py\<close>

definition cookie_claims :: "refresh_session \<Rightarrow> (string \<times> json) list" where
  "cookie_claims sess = [(''sid'', JStr (str_uuid (rf_id sess))), (''gen'', JInt (rf_generation sess))]"

definition set_refresh_cookie :: "authx \<Rightarrow> time \<Rightarrow> string \<Rightarrow> refresh_session \<Rightarrow> cookie_action" where
  "set_refresh_cookie ax now uid sess =
     SetRefreshCookie (ax_refresh ax now uid (rf_expires_at sess) (cookie_claims sess))"

definition login_reply :: "authx \<Rightarrow> time \<Rightarrow> time \<Rightarrow> string \<Rightarrow> user \<Rightarrow> refresh_session \<Rightarrow> reply" where
  "login_reply ax t1 t2 uid usr sess =
     \<lparr>rp_status = 200,
      rp_body = JObj [(''access_token'', JStr (ax_access ax t1 uid (scope_list usr))),
                      (''token_type'', JStr ''bearer'')],
      rp_cookie = set_refresh_cookie ax t2 uid sess\<rparr>"

definition login_route ::
  "authx \<Rightarrow> auth_env \<Rightarrow> string \<Rightarrow> string \<Rightarrow> (nat \<Rightarrow> time) \<Rightarrow> uuid \<Rightarrow> reply io" where
  "login_route ax env email password now new_id =
     request_session
       (chain (on_db (auth_login env email password (now 0) new_id (now 1))) (\<lambda>(usr, sess).
        ret (login_reply ax (now 2) (now 3) (str_uuid (user_id usr)) usr sess)))"

definition refresh_route ::
  "authx \<Rightarrow> auth_env \<Rightarrow> (nat \<Rightarrow> time) \<Rightarrow> (nat \<Rightarrow> time) \<Rightarrow> request \<Rightarrow> reply io" where
  "refresh_route ax env now rnow req =
     request_session
       (chain (token_required ax ''refresh'' ''cookies'' now rnow req) (\<lambda>payload.
        chain (of_sum (refresh_session_claims payload)) (\<lambda>claims.
          case claims of None \<Rightarrow> raise (Domain invalid_refresh_token_error)
          | Some (sid, generation) \<Rightarrow>
              chain (subject_uuid payload) (\<lambda>uid.
              chain (on_db (auth_refresh env uid sid generation (now 5) (now 6) (now 7) (now 8)))
                (\<lambda>(usr, sess). ret (login_reply ax (now 9) (now 10) (tp_sub payload) usr sess))))))"

definition logout_route ::
  "authx \<Rightarrow> (nat \<Rightarrow> time) \<Rightarrow> (nat \<Rightarrow> time) \<Rightarrow> (nat \<Rightarrow> uuid) \<Rightarrow> request \<Rightarrow> reply io" where
  "logout_route ax now rnow ids req =
     request_session
       (chain (auth_session_dep ax now rnow req) (\<lambda>sess.
        chain (auth_logout sess (now 6) (rnow 3) ids (now 7)) (\<lambda>_.
        ret ((message_reply ''Logged out'')\<lparr>rp_cookie := UnsetRefreshCookie\<rparr>))))"

definition verify_email_route :: "auth_env \<Rightarrow> string \<Rightarrow> (nat \<Rightarrow> time) \<Rightarrow> uuid \<Rightarrow> reply io" where
  "verify_email_route env token now new_id =
     request_session
       (chain (on_db (auth_verify_email env token (now 0) (now 1) (now 2) new_id)) (\<lambda>_.
        ret (message_reply ''Email verified'')))"

definition resend_verification_route ::
  "auth_env \<Rightarrow> string \<Rightarrow> (nat \<Rightarrow> time) \<Rightarrow> uuid \<Rightarrow> uuid \<Rightarrow> reply io" where
  "resend_verification_route env email now u event_id =
     request_session
       (chain (on_db (auth_resend_verification env email (now 0) u (now 1) event_id (now 2))) (\<lambda>_.
        ret (message_reply (''If an account with that email exists and is unverified, ''
                              @ ''a verification link has been sent.''))))"

definition forgot_password_route ::
  "auth_env \<Rightarrow> string \<Rightarrow> (nat \<Rightarrow> time) \<Rightarrow> uuid \<Rightarrow> uuid \<Rightarrow> reply io" where
  "forgot_password_route env email now u event_id =
     request_session
       (chain (on_db (auth_forgot_password env email (now 0) u (now 1) event_id (now 2))) (\<lambda>_.
        ret (message_reply ''If an account with that email exists, a password reset link has been sent.'')))"

definition reset_password_route ::
  "auth_env \<Rightarrow> string \<Rightarrow> string \<Rightarrow> string \<Rightarrow> (nat \<Rightarrow> time) \<Rightarrow> uuid \<Rightarrow> reply io" where
  "reset_password_route env token new_password salt now new_id =
     request_session
       (chain (on_db (auth_reset_password env token new_password salt (now 0) (now 1) (now 2) new_id (now 3)))
          (\<lambda>_. ret (message_reply ''Password has been reset'')))"

subsection \<open>user\_router.py\<close>

text \<open>\<open>UserResponse\<close>; \<open>fmt\<close> is Pydantic's rendering of a datetime.\<close>

definition user_response :: "(time \<Rightarrow> string) \<Rightarrow> user \<Rightarrow> json" where
  "user_response fmt u =
     JObj [(''id'', JStr (str_uuid (user_id u))), (''email'', JStr (user_email u)),
           (''full_name'', JStr (user_full_name u)), (''is_verified'', JBool (user_is_verified u)),
           (''is_active'', JBool (user_is_active u)), (''created_at'', JStr (fmt (user_created_at u))),
           (''updated_at'', JStr (fmt (user_updated_at u)))]"

definition create_user_route ::
  "auth_env \<Rightarrow> (time \<Rightarrow> string) \<Rightarrow> create_user_request \<Rightarrow> (nat \<Rightarrow> uuid) \<Rightarrow> string \<Rightarrow> (nat \<Rightarrow> time) \<Rightarrow> reply io" where
  "create_user_route env fmt data ids salt now =
     request_session
       (chain (on_db (service_register env data (ids 0) (now 0) (ids 1) salt (ids 2) (now 1) (now 2)
                        (ids 3) (now 3))) (\<lambda>usr.
        ret (plain_reply (user_response fmt usr))))"

definition get_user_route ::
  "authx \<Rightarrow> (time \<Rightarrow> string) \<Rightarrow> (nat \<Rightarrow> time) \<Rightarrow> (nat \<Rightarrow> time) \<Rightarrow> request \<Rightarrow> reply io" where
  "get_user_route ax fmt now rnow req =
     request_session
       (chain (get_current_user ax now rnow req) (\<lambda>usr. ret (plain_reply (user_response fmt usr))))"

definition update_user_route ::
  "authx \<Rightarrow> auth_env \<Rightarrow> (time \<Rightarrow> string) \<Rightarrow> update_user_request \<Rightarrow> string \<Rightarrow> (nat \<Rightarrow> time) \<Rightarrow> (nat \<Rightarrow> time)
     \<Rightarrow> request \<Rightarrow> reply io" where
  "update_user_route ax env fmt data salt now rnow req =
     request_session
       (chain (access_required ax now rnow req) (\<lambda>payload.
        chain (subject_uuid payload) (\<lambda>uid.
        chain (on_db (service_update env uid data salt (now 5))) (\<lambda>usr.
        ret (plain_reply (user_response fmt usr))))))"

definition delete_user_route ::
  "authx \<Rightarrow> auth_env \<Rightarrow> (nat \<Rightarrow> time) \<Rightarrow> (nat \<Rightarrow> time) \<Rightarrow> (nat \<Rightarrow> uuid) \<Rightarrow> request \<Rightarrow> reply io" where
  "delete_user_route ax env now rnow ids req =
     request_session
       (chain (auth_session_dep ax now rnow req) (\<lambda>sess.
        chain (auth_close_account env (as_user_id sess) (as_tokens sess) (now 6) (rnow 3) (now 7) ids (now 8))
          (\<lambda>_. ret ((message_reply ''User deleted'')\<lparr>rp_cookie := UnsetRefreshCookie\<rparr>))))"

definition list_users_route ::
  "authx \<Rightarrow> ('p \<Rightarrow> user_row list \<Rightarrow> user_row list) \<Rightarrow> (time \<Rightarrow> string) \<Rightarrow> 'p \<Rightarrow> (nat \<Rightarrow> time) \<Rightarrow> (nat \<Rightarrow> time)
     \<Rightarrow> request \<Rightarrow> reply io" where
  "list_users_route ax apaginate fmt params now rnow req =
     chain (scopes_dep ax [''admin:read''] now rnow req) (\<lambda>_.
     request_session
       (chain (on_db (user_list apaginate params)) (\<lambda>us.
        ret (plain_reply (JList (map (user_response fmt) us))))))"

subsection \<open>core/dead\_letter/router.py\<close>

definition dead_response :: "(time \<Rightarrow> string) \<Rightarrow> dead_letter_job \<Rightarrow> json" where
  "dead_response fmt j =
     JObj [(''id'', JStr (str_uuid (dj_id j))), (''job_key'', JStr (dj_job_key j)),
           (''function'', JStr (dj_function j)), (''queue_name'', JStr (dj_queue_name j)),
           (''kwargs'', JObj (dj_kwargs j)), (''status'', JStr (dj_status j)),
           (''error'', case dj_error j of None \<Rightarrow> JNull | Some e \<Rightarrow> JStr e),
           (''attempts'', JInt (dj_attempts j)), (''failed_at'', JStr (fmt (dj_failed_at j))),
           (''retried_at'', case dj_retried_at j of None \<Rightarrow> JNull | Some t \<Rightarrow> JStr (fmt t))]"

text \<open>
  The router's own dependency runs before the route's; each checks the request's token again.
\<close>

definition dlq_read :: "authx \<Rightarrow> (nat \<Rightarrow> nat \<Rightarrow> time) \<Rightarrow> (nat \<Rightarrow> nat \<Rightarrow> time) \<Rightarrow> request \<Rightarrow> 'a io \<Rightarrow> 'a io" where
  "dlq_read ax now rnow req handler =
     chain (scopes_dep ax [''admin:read''] (now 0) (rnow 0) req) (\<lambda>_. request_session handler)"

definition dlq_write :: "authx \<Rightarrow> (nat \<Rightarrow> nat \<Rightarrow> time) \<Rightarrow> (nat \<Rightarrow> nat \<Rightarrow> time) \<Rightarrow> request \<Rightarrow> 'a io \<Rightarrow> 'a io" where
  "dlq_write ax now rnow req handler =
     chain (scopes_dep ax [''admin:read''] (now 0) (rnow 0) req) (\<lambda>_.
     chain (scopes_dep ax [''admin:write''] (now 1) (rnow 1) req) (\<lambda>_. request_session handler))"

definition list_dead_route ::
  "authx \<Rightarrow> ('p \<Rightarrow> dead_row list \<Rightarrow> dead_row list) \<Rightarrow> (time \<Rightarrow> string) \<Rightarrow> 'p \<Rightarrow> bool
     \<Rightarrow> (nat \<Rightarrow> nat \<Rightarrow> time) \<Rightarrow> (nat \<Rightarrow> nat \<Rightarrow> time) \<Rightarrow> request \<Rightarrow> reply io" where
  "list_dead_route ax apaginate fmt params unresolved_only now rnow req =
     dlq_read ax now rnow req
       (chain (on_db (dlq_list apaginate params unresolved_only)) (\<lambda>js.
        ret (plain_reply (JList (map (dead_response fmt) js)))))"

definition get_dead_route ::
  "authx \<Rightarrow> (time \<Rightarrow> string) \<Rightarrow> uuid \<Rightarrow> (nat \<Rightarrow> nat \<Rightarrow> time) \<Rightarrow> (nat \<Rightarrow> nat \<Rightarrow> time) \<Rightarrow> request \<Rightarrow> reply io" where
  "get_dead_route ax fmt job_id now rnow req =
     dlq_read ax now rnow req
       (chain (on_db (dlq_service_get job_id)) (\<lambda>j. ret (plain_reply (dead_response fmt j))))"

definition retry_dead_route ::
  "authx \<Rightarrow> uuid \<Rightarrow> uuid \<Rightarrow> (nat \<Rightarrow> nat \<Rightarrow> time) \<Rightarrow> (nat \<Rightarrow> nat \<Rightarrow> time) \<Rightarrow> request \<Rightarrow> reply io" where
  "retry_dead_route ax job_id event_id now rnow req =
     dlq_write ax now rnow req
       (chain (on_db (dlq_service_retry job_id (now 2 0) event_id (now 2 1))) (\<lambda>j.
        ret (plain_reply (JObj [(''message'', JStr ''queued for retry''), (''job_key'', JStr (dj_job_key j))]))))"

definition delete_dead_route ::
  "authx \<Rightarrow> uuid \<Rightarrow> (nat \<Rightarrow> nat \<Rightarrow> time) \<Rightarrow> (nat \<Rightarrow> nat \<Rightarrow> time) \<Rightarrow> request \<Rightarrow> reply io" where
  "delete_dead_route ax job_id now rnow req =
     dlq_write ax now rnow req
       (chain (on_db (dlq_service_delete job_id)) (\<lambda>_.
        ret \<lparr>rp_status = 204, rp_body = JNull, rp_cookie = KeepCookie\<rparr>))"

definition purge_dead_route ::
  "authx \<Rightarrow> time option \<Rightarrow> bool \<Rightarrow> (nat \<Rightarrow> nat \<Rightarrow> time) \<Rightarrow> (nat \<Rightarrow> nat \<Rightarrow> time) \<Rightarrow> request \<Rightarrow> reply io" where
  "purge_dead_route ax before only_retried now rnow req =
     dlq_write ax now rnow req
       (chain (on_db (dlq_service_purge before only_retried)) (\<lambda>n.
        ret (plain_reply (JObj [(''deleted'', JInt (int n))]))))"

end
