(* ===== verification/Revocation.thy ===== *)
theory Revocation
  imports Program Routes
begin

section \<open>Logged-out tokens stay out\<close>

text \<open>
  The blocklist in Redis and the table of revoked tokens together: \<open>auth/blocklist.py\<close>,
  \<open>AuthService.logout\<close>, \<open>AuthService.close_account\<close> and \<open>is_token_revoked\<close> as the steps of one
  system, interleaved with everything else the program does to the database, with Redis losing its
  data, going down and coming back, and with time passing. A token is known by its \<open>jti\<close>, which
  determines its expiry (\<open>expiry\<close>: the issuer draws a fresh one for each token). A request's steps
  are atomic here, and Redis drops a key only when it expires or when it loses all of them.
\<close>

record gate =
  g_db :: tables
  g_redis :: redis
  g_now :: time
  g_out :: "token_ref set"

definition issued :: "(string \<Rightarrow> time) \<Rightarrow> token_ref \<Rightarrow> bool" where
  "issued expiry tok \<longleftrightarrow> tr_expires_at tok = expiry (tr_jti tok)"

definition rows_issued :: "(string \<Rightarrow> time) \<Rightarrow> tables \<Rightarrow> bool" where
  "rows_issued expiry tb \<longleftrightarrow> (\<forall>r \<in> set (revoked_tokens tb). rt_expires_at r = expiry (rt_jti r))"

definition gate_world :: "gate \<Rightarrow> world \<Rightarrow> bool" where
  "gate_world g w \<longleftrightarrow> committed (w_db w) = g_db g \<and> working (w_db w) = g_db g \<and> w_redis w = g_redis g"

definition gate_after :: "gate \<Rightarrow> world \<Rightarrow> time \<Rightarrow> token_ref set \<Rightarrow> gate" where
  "gate_after g w c out = \<lparr>g_db = committed (w_db w), g_redis = w_redis w, g_now = c, g_out = out\<rparr>"

inductive gate_step :: "(string \<Rightarrow> time) \<Rightarrow> gate \<Rightarrow> gate \<Rightarrow> bool" for expiry :: "string \<Rightarrow> time"
  where
    gate_logout: "auth_logout sess now rnow ids t2 w = (r, w') \<Longrightarrow> gate_world g w \<Longrightarrow>
      list_all (issued expiry) (as_tokens sess) \<Longrightarrow> g_now g \<le> now \<Longrightarrow> now \<le> rnow \<Longrightarrow> rnow \<le> c \<Longrightarrow>
      gate_step expiry g (gate_after g w' c (if r = Inr () then g_out g \<union> set (as_tokens sess) else g_out g))"
  | gate_close: "auth_close_account env uid toks now rnow t1 ids t2 w = (r, w') \<Longrightarrow> gate_world g w \<Longrightarrow>
      list_all (issued expiry) toks \<Longrightarrow> g_now g \<le> now \<Longrightarrow> now \<le> rnow \<Longrightarrow> rnow \<le> c \<Longrightarrow>
      gate_step expiry g (gate_after g w' c (if r = Inr () then g_out g \<union> set toks else g_out g))"
  | gate_check: "is_token_revoked decode token r1 t1 r2 t2 t3 r3 w = (r, w') \<Longrightarrow> gate_world g w \<Longrightarrow>
      g_now g \<le> t2 \<Longrightarrow> g_now g \<le> r2 \<Longrightarrow> t2 \<le> t3 \<Longrightarrow> t3 \<le> r3 \<Longrightarrow> r3 \<le> c \<Longrightarrow>
      gate_step expiry g (gate_after g w' c (g_out g))"
  | gate_other: "program_step oc (g_db g) tb \<Longrightarrow> oc_clock oc \<le> g_now g \<Longrightarrow> rows_issued expiry tb \<Longrightarrow>
      gate_step expiry g (g\<lparr>g_db := tb\<rparr>)"
  | gate_redis_lost: "gate_step expiry g (g\<lparr>g_redis := \<lparr>kv = (\<lambda>_. None), answers = a\<rparr>\<rparr>)"
  | gate_redis_fault: "gate_step expiry g (g\<lparr>g_redis := (g_redis g)\<lparr>answers := a\<rparr>\<rparr>)"
  | gate_tick: "g_now g \<le> c \<Longrightarrow> gate_step expiry g (g\<lparr>g_now := c\<rparr>)"

definition gate_run :: "(string \<Rightarrow> time) \<Rightarrow> gate \<Rightarrow> gate \<Rightarrow> bool" where
  "gate_run expiry = (gate_step expiry)\<^sup>*\<^sup>*"

definition gate_start :: "tables \<Rightarrow> time \<Rightarrow> gate" where
  "gate_start tb now = \<lparr>g_db = tb, g_redis = empty_redis, g_now = now, g_out = {}\<rparr>"

subsection \<open>The invariant\<close>

definition on_record :: "tables \<Rightarrow> time \<Rightarrow> token_ref \<Rightarrow> bool" where
  "on_record tb now tok \<longleftrightarrow>
     (now < tr_expires_at tok \<longrightarrow> (\<exists>r \<in> set (revoked_tokens tb). rt_jti r = tr_jti tok \<and> rt_expires_at r = tr_expires_at tok))"

definition gate_inv :: "(string \<Rightarrow> time) \<Rightarrow> gate \<Rightarrow> bool" where
  "gate_inv expiry g \<longleftrightarrow>
     rows_issued expiry (g_db g)
   \<and> (\<forall>tok \<in> g_out g. issued expiry tok \<and> on_record (g_db g) (g_now g) tok)
   \<and> (redis_ready (g_redis g) (g_now g) \<longrightarrow> (\<forall>tok \<in> g_out g. blocks (g_redis g) (g_now g) tok))"

lemma issued_same: "issued expiry a \<Longrightarrow> issued expiry b \<Longrightarrow> tr_jti a = tr_jti b \<Longrightarrow> a = b"
  by (cases a; cases b) (simp add: issued_def)

lemma on_record_kept:
  "on_record tb now tok \<Longrightarrow> revocations_kept now tb tb' \<Longrightarrow> now \<le> now' \<Longrightarrow> on_record tb' now' tok"
  unfolding on_record_def revocations_kept_def by fastforce

lemma ready_earlier: "redis_ready r t \<Longrightarrow> now \<le> t \<Longrightarrow> redis_ready r now"
  unfolding redis_ready_def using live_entry_earlier by blast

lemma ready_kv: "kv r' ready_key = kv r ready_key \<Longrightarrow> redis_ready r' t = redis_ready r t"
  by (simp add: redis_ready_def live_entry_def)

lemma blocks_kv: "kv r' = kv r \<Longrightarrow> blocks r' t tok = blocks r t tok"
  by (simp add: blocks_def live_entry_def)

text \<open>Only issued tokens enter the table.\<close>

definition issues :: "(string \<Rightarrow> time) \<Rightarrow> tables \<Rightarrow> tables \<Rightarrow> bool" where
  "issues expiry tb tb' \<longleftrightarrow> (rows_issued expiry tb \<longrightarrow> rows_issued expiry tb')"

interpretation issuing: table_relation "issues expiry" for expiry
  by unfold_locales (auto simp: issues_def)

lemma issues_stage: "issued expiry tok \<Longrightarrow>
    stmt_rel (issues expiry) (insert_revoked_if_absent (new_revoked (tr_jti tok) (tr_expires_at tok) i))"
  by (auto simp: stmt_rel_def issues_def rows_issued_def insert_revoked_if_absent_def insert_revoked_def
      new_revoked_def issued_def)

lemma issues_others [frame_intros]:
  "stmt_rel (issues expiry) (flush_user_update j fs t)"
  "stmt_rel (issues expiry) (revoke_rows cond t)"
proof -
  show "stmt_rel (issues expiry) (flush_user_update j fs t)"
    unfolding stmt_rel_def issues_def rows_issued_def using flush_user_update_only by (metis only_users_def)
qed (simp add: stmt_rel_def issues_def rows_issued_def revoke_rows_def)

lemma account_issues:
  assumes "list_all (issued expiry) toks"
  shows "keeps (table_kept (issues expiry)) (account_logout uid toks sid ids now)"
    and "keeps (table_kept (issues expiry)) (account_close ot uid toks now ids now2)"
proof -
  have "keeps (table_kept (issues expiry)) (stage_tokens toks ids)"
    by (rule issuing.kept_stage_issued) (use assms in \<open>auto simp: list_all_iff issues_stage\<close>)
  note intros = this frame_intros
  show "keeps (table_kept (issues expiry)) (account_logout uid toks sid ids now)"
    unfolding account_logout_def by (rule intros)+
  show "keeps (table_kept (issues expiry)) (account_close ot uid toks now ids now2)"
    unfolding account_close_def by (rule intros)+
qed

subsection \<open>Every step keeps it\<close>

text \<open>What a logout or a closed account does: Redis first, then the database.\<close>

definition put_out :: "(string \<Rightarrow> time) \<Rightarrow> gate \<Rightarrow> token_ref list \<Rightarrow> bool \<Rightarrow> time \<Rightarrow> redis \<Rightarrow> tables \<Rightarrow> bool" where
  "put_out expiry g toks returned rnow rd tb \<longleftrightarrow>
     kv rd ready_key = kv (g_redis g) ready_key
   \<and> (\<forall>tok t. issued expiry tok \<and> blocks (g_redis g) t tok \<longrightarrow> blocks rd t tok)
   \<and> issues expiry (g_db g) tb \<and> revocations_kept (g_now g) (g_db g) tb
   \<and> (returned \<longrightarrow> (\<forall>tok \<in> set toks. blocks rd rnow tok \<and> tr_jti tok \<in> rt_jti ` set (revoked_tokens tb)))"

lemma put_out_inv:
  assumes "gate_inv expiry g" and "put_out expiry g toks b rnow (w_redis w) (committed (w_db w))"
    and "list_all (issued expiry) toks" and "g_now g \<le> rnow" and "rnow \<le> c"
  shows "gate_inv expiry (gate_after g w c (if b then g_out g \<union> set toks else g_out g))"
proof -
  let ?tb = "committed (w_db w)"
  have rows: "rows_issued expiry ?tb" using assms(1,2) by (auto simp: put_out_def gate_inv_def issues_def)
  have new: "on_record ?tb c tok" if "b" "tok \<in> set toks" for tok
  proof -
    have "tr_jti tok \<in> rt_jti ` set (revoked_tokens ?tb)"
      using assms(2) that by (simp add: put_out_def)
    then obtain r where "r \<in> set (revoked_tokens ?tb)" "rt_jti r = tr_jti tok" by (metis imageE)
    with rows assms(3) that(2) show ?thesis by (auto simp: on_record_def rows_issued_def issued_def list_all_iff)
  qed
  have old: "on_record ?tb c tok" if "tok \<in> g_out g" for tok
  proof (rule on_record_kept)
    show "on_record (g_db g) (g_now g) tok" using assms(1) that by (simp add: gate_inv_def)
    show "revocations_kept (g_now g) (g_db g) ?tb" using assms(2) by (simp add: put_out_def)
  qed (use assms(4,5) in simp)
  have blk: "blocks (w_redis w) c tok"
    if "redis_ready (w_redis w) c" "tok \<in> (if b then g_out g \<union> set toks else g_out g)" for tok
  proof (cases "tok \<in> g_out g")
    case True
    have "redis_ready (g_redis g) c"
      using ready_kv [of "w_redis w" "g_redis g" c] that(1) assms(2) by (simp add: put_out_def)
    then have "redis_ready (g_redis g) (g_now g)" using assms(4,5) by (auto elim: ready_earlier)
    with True assms(1) have "blocks (g_redis g) (g_now g) tok" "issued expiry tok" by (auto simp: gate_inv_def)
    then have "blocks (w_redis w) (g_now g) tok" using assms(2) by (auto simp: put_out_def)
    then show ?thesis using assms(4,5) by (auto elim: blocks_later)
  next
    case False
    with that(2) have "b" "tok \<in> set toks" by (auto split: if_splits)
    then have "blocks (w_redis w) rnow tok" using assms(2) by (auto simp: put_out_def)
    then show ?thesis using assms(5) by (rule blocks_later)
  qed
  show ?thesis
    using rows new old blk assms(1,3) by (auto simp: gate_inv_def gate_after_def list_all_iff)
qed

lemma revoke_put:
  assumes "blocklist_revoke now rnow toks r = (x, rd)" and "now \<le> rnow" and "list_all (issued expiry) toks"
  shows "kv rd ready_key = kv r ready_key"
    and "issued expiry tok \<Longrightarrow> blocks r t tok \<Longrightarrow> blocks rd t tok"
    and "x = Inr u \<Longrightarrow> tok \<in> set toks \<Longrightarrow> blocks rd rnow tok"
proof -
  show "kv rd ready_key = kv r ready_key" using revoke_keeps_ready [OF assms(1)] .
  show "blocks rd t tok" if "issued expiry tok" "blocks r t tok"
    using revoke_keeps_blocks [OF assms(1,2) that(2)] that(1) assms(3) issued_same
    by (metis list_all_iff)
  show "blocks rd rnow tok" if "x = Inr u" "tok \<in> set toks"
    using revoke_blocks [of now rnow toks r u rd tok] assms that issued_same by (metis list_all_iff)
qed

text \<open>The database half of the two, from what is proved of the account operations.\<close>

lemma logout_put:
  assumes "account_logout uid toks sid ids t2 s = (x, t)" and "working s = committed s"
    and "list_all (issued expiry) toks"
  shows "issues expiry (committed s) (committed t)" and "\<forall>now. revocations_kept now (committed s) (committed t)"
    and "x = Inr u \<Longrightarrow> tok \<in> set toks \<Longrightarrow> tr_jti tok \<in> rt_jti ` set (revoked_tokens (committed t))"
proof -
  show "issues expiry (committed s) (committed t)"
    using issuing.kept_durable [OF account_issues(1) [OF assms(3)] assms(1)] assms(2) issuing.R_refl by simp
  show "\<forall>now. revocations_kept now (committed s) (committed t)"
  proof
    fix now
    have k: "keeps (table_kept (revocations_kept now)) (account_logout uid toks sid ids t2)" by (intro frame_intros)+
    show "revocations_kept now (committed s) (committed t)"
      using revocations.kept_durable [OF k assms(1)] assms(2) revocations.R_refl by simp
  qed
  show "tr_jti tok \<in> rt_jti ` set (revoked_tokens (committed t))" if "x = Inr u" "tok \<in> set toks"
    using logout_effect [where uid = uid and toks = toks and sid = sid and ids = ids and now = t2 and s = s]
      assms(1) that by simp
qed

lemma close_put:
  assumes "account_close ot uid toks t1 ids t2 s = (x, t)" and "working s = committed s"
    and "list_all (issued expiry) toks"
  shows "issues expiry (committed s) (committed t)" and "\<forall>now. revocations_kept now (committed s) (committed t)"
    and "x = Inr (Some u) \<Longrightarrow> tok \<in> set toks \<Longrightarrow> tr_jti tok \<in> rt_jti ` set (revoked_tokens (committed t))"
proof -
  show "issues expiry (committed s) (committed t)"
    using issuing.kept_durable [OF account_issues(2) [OF assms(3)] assms(1)] assms(2) issuing.R_refl by simp
  show "\<forall>now. revocations_kept now (committed s) (committed t)"
  proof
    fix now
    have k: "keeps (table_kept (revocations_kept now)) (account_close ot uid toks t1 ids t2)" by (intro frame_intros)+
    show "revocations_kept now (committed s) (committed t)"
      using revocations.kept_durable [OF k assms(1)] assms(2) revocations.R_refl by simp
  qed
  show "tr_jti tok \<in> rt_jti ` set (revoked_tokens (committed t))" if "x = Inr (Some u)" "tok \<in> set toks"
    using close_effect [where ot = ot and uid = uid and toks = toks and now = t1 and ids = ids
        and ?now2.0 = t2 and s = s] assms(1) that by simp
qed

lemma logout_puts_out:
  assumes "auth_logout sess now rnow ids t2 w = (r, w')" and "gate_world g w"
    and "list_all (issued expiry) (as_tokens sess)" and "now \<le> rnow"
  shows "put_out expiry g (as_tokens sess) (r = Inr ()) rnow (w_redis w') (committed (w_db w'))"
proof -
  obtain x rd where rv: "blocklist_revoke now rnow (as_tokens sess) (w_redis w) = (x, rd)" by (rule prod.exhaust)
  obtain y t where db: "account_logout (as_user_id sess) (as_tokens sess) (as_refresh_session_id sess) ids t2
      (w_db w) = (y, t)" by (rule prod.exhaust)
  note R = revoke_put [OF rv assms(4,3)]
  note D = logout_put [OF db _ assms(3)]
  have g: "committed (w_db w) = g_db g" "working (w_db w) = g_db g" "w_redis w = g_redis g"
    using assms(2) by (simp_all add: gate_world_def)
  show ?thesis
  proof (cases x)
    case (Inl e)
    with assms(1) rv have "r = Inl e" "w' = w\<lparr>w_redis := rd\<rparr>" by (auto simp: auth_logout_def chain_def on_redis_def)
    with R g show ?thesis by (auto simp: put_out_def issuing.R_refl revocations.R_refl)
  next
    case (Inr u)
    with assms(1) rv db have w': "r = y" "w' = w\<lparr>w_redis := rd, w_db := t\<rparr>"
      by (auto simp: auth_logout_def chain_def on_redis_def on_db_def split: sum.splits)
    with R g D Inr show ?thesis by (auto simp: put_out_def)
  qed
qed

lemma close_puts_out:
  assumes "auth_close_account env uid toks now rnow t1 ids t2 w = (r, w')" and "gate_world g w"
    and "list_all (issued expiry) toks" and "now \<le> rnow"
  shows "put_out expiry g toks (r = Inr ()) rnow (w_redis w') (committed (w_db w'))"
proof -
  obtain x rd where rv: "blocklist_revoke now rnow toks (w_redis w) = (x, rd)" by (rule prod.exhaust)
  obtain y t where db: "account_close (orig_text env) uid toks t1 ids t2 (w_db w) = (y, t)" by (rule prod.exhaust)
  note R = revoke_put [OF rv assms(4,3)]
  note D = close_put [OF db _ assms(3)]
  have g: "committed (w_db w) = g_db g" "working (w_db w) = g_db g" "w_redis w = g_redis g"
    using assms(2) by (simp_all add: gate_world_def)
  show ?thesis
  proof (cases x)
    case (Inl e)
    with assms(1) rv have "r = Inl e" "w' = w\<lparr>w_redis := rd\<rparr>"
      by (auto simp: auth_close_account_def chain_def on_redis_def)
    with R g show ?thesis by (auto simp: put_out_def issuing.R_refl revocations.R_refl)
  next
    case (Inr u)
    with assms(1) rv db have w': "w' = w\<lparr>w_redis := rd, w_db := t\<rparr>"
      and r: "r = Inr () \<longrightarrow> (\<exists>u. y = Inr (Some u))"
      by (auto simp: auth_close_account_def chain_def on_redis_def on_db_def raise_def ret_def
          split: sum.splits option.splits)
    with R g D Inr show ?thesis by (auto simp: put_out_def)
  qed
qed

text \<open>Seeding copies every revocation that still matters before it declares the blocklist ready.\<close>

lemma seed_result:
  assumes "blocklist_seed now rnow toks r = (x, r')" and "now \<le> rnow" and "list_all (issued expiry) toks"
  shows "issued expiry tok \<Longrightarrow> blocks r t tok \<Longrightarrow> blocks r' t tok"
    and "kv r' ready_key = kv r ready_key \<or> (\<forall>tok \<in> set toks. blocks r' rnow tok)"
proof -
  obtain y rd where rv: "blocklist_revoke now rnow toks r = (y, rd)" by (rule prod.exhaust)
  note R = revoke_put [OF rv assms(2,3)]
  have flag: "blocks (q\<lparr>kv := (kv q)(ready_key := v)\<rparr>) t tok = blocks q t tok" for q v t tok
    by (simp add: blocks_def live_entry_def)
  have put: "kv r' = kv rd \<or> ((\<exists>u. y = Inr u) \<and> kv r' = (kv rd)(ready_key := Some (RStr ''1'', None)))"
    using assms(1) rv
    by (auto simp: blocklist_seed_def attempt_def chain_def redis_set_def command_def set_string_def
        put_entry_def split: sum.splits if_splits)
  have b: "blocks r' t tok = blocks rd t tok" for t tok
    using put flag [of rd] blocks_kv [of r'] by (auto simp: blocks_def live_entry_def)
  show "blocks r' t tok" if "issued expiry tok" "blocks r t tok" using R(2) that b by simp
  show "kv r' ready_key = kv r ready_key \<or> (\<forall>tok \<in> set toks. blocks r' rnow tok)"
    using put R(1) R(3) b by auto
qed

lemma claim_seeding_result:
  assumes "claim_seeding rnow r = (x, r')"
  shows "kv r' ready_key = kv r ready_key" and "blocks r t tok \<Longrightarrow> blocks r' t tok"
proof -
  have "kv r' = kv r \<or> (\<exists>v. kv r' = (kv r)(seeding_key := v))"
    using assms
    by (auto simp: claim_seeding_def attempt_def redis_set_nx_def command_def set_string_def put_entry_def
        split: if_splits prod.splits)
  then show "kv r' ready_key = kv r ready_key" "blocks r t tok \<Longrightarrow> blocks r' t tok"
    by (auto simp: blocks_def live_entry_def)
qed

text \<open>The two reads of the fallback, in sessions of their own.\<close>

lemma local_reads:
  "local_session (token_exists j t1) s = (r, t) \<Longrightarrow>
     committed t = committed s \<and> (r = Inr b \<longrightarrow> b = (active_revocation j t1 (committed s) \<noteq> None))"
proof -
  assume op: "local_session (token_exists j t1) s = (r, t)"
  have "keeps same_committed (local_session (token_exists j t1))"
    unfolding keeps_def local_session_def ensure_apply token_exists_def
    by (simp add: chain_def read_on_primary_only split: if_splits)
  with op show ?thesis
    by (auto simp: keeps_def local_session_def ensure_apply token_exists_def read_on_primary_only chain_def
        split: if_splits dest: spec [of _ s])
qed

lemma local_list:
  "local_session (token_list_active t2) s = (q, u) \<Longrightarrow>
     committed u = committed s \<and> (q = Inr l \<longrightarrow> l = active_revocations t2 (committed s))"
  by (auto simp: local_session_def ensure_apply token_list_active_def on_primary_only_apply pinned_simps
      on_primary_def split: if_splits)

lemma active_issued: "rows_issued expiry tb \<Longrightarrow> list_all (issued expiry) (active_revocations now tb)"
  by (auto simp: list_all_iff active_revocations_def rows_issued_def issued_def)

text \<open>
  What a check leaves behind: the durable tables are as they were; Redis either keeps its ready
  flag and all it blocks, or it has been seeded and blocks every revocation still active at \<open>t2\<close>.
\<close>

lemma check_result:
  assumes "is_token_revoked decode token r1 t1 r2 t2 t3 r3 w = (r, w')"
    and "t3 \<le> r3" and "rows_issued expiry (committed (w_db w))"
  shows "committed (w_db w') = committed (w_db w)
    \<and> (\<forall>tok t. issued expiry tok \<and> blocks (w_redis w) t tok \<longrightarrow> blocks (w_redis w') t tok)
    \<and> (kv (w_redis w') ready_key = kv (w_redis w) ready_key
       \<or> list_all (blocks (w_redis w') r3) (active_revocations t2 (committed (w_db w))))"
proof (cases "\<exists>payload jti. decode token = Inr payload \<and> tp_jti payload = Some jti")
  case False
  with assms(1) have "w' = w"
    by (auto simp: is_token_revoked_def split: sum.splits option.splits)
  then show ?thesis by simp
next
  case True
  then obtain payload jti where d: "decode token = Inr payload" "tp_jti payload = Some jti" by blast
  obtain x rd1 where look: "blocklist_lookup r1 jti (w_redis w) = (x, rd1)" by (rule prod.exhaust)
  have kv1: "kv rd1 = kv (w_redis w)" using lookup_answers [OF look] by simp
  note same = kv1 blocks_kv [OF kv1]
  show ?thesis
  proof (cases "x = Inr None")
    case False
    then consider err where "x = Inl err" | b where "x = Inr (Some b)" by (metis not_None_eq sum.exhaust)
    then have "w' = w\<lparr>w_redis := rd1\<rparr>"
      using assms(1) by cases (simp_all add: is_token_revoked_def d chain_def on_redis_def look ret_def)
    then show ?thesis using same by simp
  next
    case None: True
    obtain e s1 where ex: "local_session (token_exists jti t1) (w_db w) = (e, s1)" by (rule prod.exhaust)
    have c1: "committed s1 = committed (w_db w)" using local_reads [OF ex] by blast
    show ?thesis
    proof (cases e)
      case (Inl err)
      with assms(1) d look None ex have "w_db w' = s1" "w_redis w' = rd1"
        by (auto simp: is_token_revoked_def chain_def on_redis_def on_db_def)
      then show ?thesis using same c1 by auto
    next
      case (Inr revoked)
      obtain cl rd2 where cs: "claim_seeding r2 rd1 = (cl, rd2)" by (rule prod.exhaust)
      note C = claim_seeding_result [OF cs]
      show ?thesis
      proof (cases "cl = Inr True")
        case False
        with assms(1) d look None ex Inr cs have "w_db w' = s1" "w_redis w' = rd2"
          by (auto simp: is_token_revoked_def chain_def on_redis_def on_db_def split: sum.splits)
        then show ?thesis using same c1 C by auto
      next
        case True
        obtain l s2 where ls: "local_session (token_list_active t2) s1 = (l, s2)" by (rule prod.exhaust)
        have c2: "committed s2 = committed (w_db w)" using local_list [OF ls] c1 by simp
        show ?thesis
        proof (cases l)
          case (Inl err)
          with assms(1) d look None ex Inr cs True ls have "w_db w' = s2" "w_redis w' = rd2"
            by (auto simp: is_token_revoked_def chain_def on_redis_def on_db_def)
          then show ?thesis using same c2 C by auto
        next
          case act: (Inr active)
          have active: "active = active_revocations t2 (committed (w_db w))"
            using local_list [OF ls] act c1 by simp
          obtain y rd3 where sd: "blocklist_seed t3 r3 active rd2 = (y, rd3)" by (rule prod.exhaust)
          have "list_all (issued expiry) active"
            using assms(3) by (simp add: active active_issued)
          note S = seed_result [OF sd assms(2) this]
          from assms(1) d look None ex Inr cs True ls act sd have "w_db w' = s2" "w_redis w' = rd3"
            by (auto simp: is_token_revoked_def chain_def on_redis_def on_db_def split: sum.splits)
          then show ?thesis using same c2 C S active by (auto simp: list_all_iff)
        qed
      qed
    qed
  qed
qed

lemma check_inv:
  assumes "gate_inv expiry g" and "is_token_revoked decode token r1 t1 r2 t2 t3 r3 w = (r, w')"
    and "gate_world g w" and "g_now g \<le> t2" and "t2 \<le> t3" and "t3 \<le> r3" and "r3 \<le> c"
  shows "gate_inv expiry (gate_after g w' c (g_out g))"
proof -
  have g: "committed (w_db w) = g_db g" "w_redis w = g_redis g" using assms(3) by (simp_all add: gate_world_def)
  have rows: "rows_issued expiry (g_db g)" using assms(1) by (simp add: gate_inv_def)
  from check_result [OF assms(2,6), of expiry] rows g have
    db: "committed (w_db w') = g_db g"
    and kept: "\<And>tok t. issued expiry tok \<Longrightarrow> blocks (g_redis g) t tok \<Longrightarrow> blocks (w_redis w') t tok"
    and cases: "kv (w_redis w') ready_key = kv (g_redis g) ready_key
       \<or> list_all (blocks (w_redis w') r3) (active_revocations t2 (g_db g))" by auto
  have le: "g_now g \<le> c" using assms(4-7) by simp
  have blk: "blocks (w_redis w') c tok" if out: "tok \<in> g_out g" and rdy: "redis_ready (w_redis w') c" for tok
    using cases
  proof
    assume "kv (w_redis w') ready_key = kv (g_redis g) ready_key"
    then have "redis_ready (g_redis g) (g_now g)"
      using rdy ready_kv [of "w_redis w'" "g_redis g" c] le by (auto elim: ready_earlier)
    with out assms(1) kept have "blocks (w_redis w') (g_now g) tok" by (auto simp: gate_inv_def)
    then show ?thesis using le by (rule blocks_later)
  next
    assume seeded: "list_all (blocks (w_redis w') r3) (active_revocations t2 (g_db g))"
    show ?thesis
    proof (cases "t2 < tr_expires_at tok")
      case True
      then have "tok \<in> set (active_revocations t2 (g_db g))"
        using assms(1) out assms(4) active_revocations_iff [of "tr_jti tok" "tr_expires_at tok" t2 "g_db g"]
        by (cases tok) (fastforce simp: gate_inv_def on_record_def)
      with seeded have "blocks (w_redis w') r3 tok" by (simp add: list_all_iff)
      then show ?thesis using assms(7) by (rule blocks_later)
    next
      case False
      then show ?thesis using assms(5-7) by (auto simp: blocks_def)
    qed
  qed
  have "on_record (g_db g) c tok" if "tok \<in> g_out g" for tok
    using assms(1) that le by (auto simp: gate_inv_def on_record_def)
  then show ?thesis using blk rows db assms(1) by (auto simp: gate_inv_def gate_after_def)
qed

lemma gate_step_inv: "gate_step expiry g g' \<Longrightarrow> gate_inv expiry g \<Longrightarrow> gate_inv expiry g'"
proof (induction rule: gate_step.induct)
  case (gate_logout sess now rnow ids t2 w r w' g c)
  have "put_out expiry g (as_tokens sess) (r = Inr ()) rnow (w_redis w') (committed (w_db w'))"
    using gate_logout logout_puts_out by blast
  from put_out_inv [OF gate_logout.prems this] gate_logout.hyps show ?case by simp
next
  case (gate_close env uid toks now rnow t1 ids t2 w r w' g c)
  have "put_out expiry g toks (r = Inr ()) rnow (w_redis w') (committed (w_db w'))"
    using gate_close close_puts_out by blast
  from put_out_inv [OF gate_close.prems this] gate_close.hyps show ?case by simp
next
  case (gate_check decode token r1 t1 r2 t2 t3 r3 w r w' g c)
  then show ?case using check_inv by blast
next
  case (gate_other oc g tb)
  then have "revocations_kept (g_now g) (g_db g) tb" by (simp add: step_revocations)
  with gate_other show ?case using on_record_kept by (auto simp: gate_inv_def)
next
  case (gate_redis_lost g a)
  then show ?case by (simp add: gate_inv_def redis_ready_def live_entry_def)
next
  case (gate_redis_fault g a)
  then show ?case by (simp add: gate_inv_def redis_ready_def)
next
  case (gate_tick g c)
  then show ?case
    by (auto simp: gate_inv_def on_record_def intro: blocks_later dest: ready_earlier)
qed

lemma gate_run_inv: "gate_run expiry g g' \<Longrightarrow> gate_inv expiry g \<Longrightarrow> gate_inv expiry g'"
  unfolding gate_run_def by (induction rule: rtranclp_induct) (auto intro: gate_step_inv)

lemma gate_start_inv: "rows_issued expiry tb \<Longrightarrow> gate_inv expiry (gate_start tb now)"
  by (simp add: gate_inv_def gate_start_def)


end
