(* ===== verification/RouteProps.thy ===== *)
theory RouteProps
  imports Revocation
begin

section \<open>What the routes promise\<close>

text \<open>
  Two properties across router, dependencies, services and repositories: the cookies the API hands
  out lead back to the session they were made from, for as long as it lives; and the
  administrator's dead-letter routes do nothing for a caller without the scope.
\<close>

subsection \<open>Cookies\<close>

definition cookie_payload :: "refresh_session \<Rightarrow> token_payload" where
  "cookie_payload x =
     \<lparr>tp_sub = str_uuid (rf_user_id x), tp_jti = None, tp_type = ''refresh'', tp_expiry = rf_expires_at x,
      tp_scopes = [], tp_extra = cookie_claims x\<rparr>"

lemma cookie_claims_read:
  "tp_extra payload = cookie_claims x \<Longrightarrow>
     refresh_session_claims payload = Inr (Some (rf_id x, rf_generation x))"
  by (simp add: refresh_session_claims_def read_session_claims_def claim_def cookie_claims_def
      uuid_of_json_def int_of_json_def)

text \<open>A client that refreshes again and again, each time with the cookie it was handed last.\<close>

fun follow :: "auth_env \<Rightarrow> time list \<Rightarrow> refresh_session \<Rightarrow> tables \<Rightarrow> (refresh_session \<times> tables) option" where
  "follow env [] x tb = Some (x, tb)"
| "follow env (now # ts) x tb =
     (case refresh_session_claims (cookie_payload x) of
        Inr (Some (sid, generation)) \<Rightarrow>
          (case parse_uuid (tp_sub (cookie_payload x)) of None \<Rightarrow> None
           | Some uid \<Rightarrow>
               (case auth_refresh env uid sid generation now now now now (new_session tb) of
                  (Inr (usr, y), s) \<Rightarrow> follow env ts y (committed s)
                | _ \<Rightarrow> None))
      | _ \<Rightarrow> None)"

lemma rotate_live:
  assumes "tables_ok tb" and "find_session sid tb = Some r" and "claimable sid uid g now r"
    and "budget s = None" and "working s = tb"
  shows "\<exists>t. session_rotate sid uid g now s = (Inr (Some (refresh_to_entity (claimed now r))), t)
    \<and> committed t = snd (claim_rows sid uid g now tb)"
proof -
  let ?tb = "snd (claim_rows sid uid g now tb)"
  have "fst (claim_rows sid uid g now tb) = Inr [claimed now r]"
    using claim_rows_find [OF assms(1), of sid uid g now] assms(2,3) by simp
  then have "db_scalars Update (claim_rows sid uid g now) (s\<lparr>force_primary := True\<rparr>) =
      (Inr [claimed now r], s\<lparr>force_primary := True, working := ?tb\<rparr>)"
    using assms(4,5) by (simp add: pinned_live)
  then show ?thesis
    using assms(4) by (simp add: session_rotate_def transaction_def one_or_none_def commit_def)
qed

lemma claimable_entity:
  assumes "find_session (rf_id x) tb = Some r" and "refresh_to_entity r = x"
    and "rf_revoked_at x = None" and "now < rf_expires_at x"
  shows "claimable (rf_id x) (rf_user_id x) (rf_generation x) now r"
  using assms(1,3,4) unfolding assms(2) [symmetric] by (simp add: claimable_def refresh_to_entity_def)

lemma refresh_step:
  assumes ok: "tables_ok tb" and u: "find_user (rf_user_id x) tb = Some ur" "u_is_active ur" "u_is_verified ur"
    and r: "find_session (rf_id x) tb = Some r" "refresh_to_entity r = x"
    and live: "rf_revoked_at x = None" "now < rf_expires_at x"
  shows "\<exists>t. auth_refresh env (rf_user_id x) (rf_id x) (rf_generation x) now t2 t3 t4 (new_session tb)
      = (Inr (user_to_entity ur, refresh_to_entity (claimed now r)), t)
    \<and> committed t = snd (claim_rows (rf_id x) (rf_user_id x) (rf_generation x) now tb)"
proof -
  let ?s = "(new_session tb)\<lparr>force_primary := True\<rparr>"
  have usr: "user_get (rf_user_id x) True (new_session tb) = (Inr (Some (user_to_entity ur)), ?s)"
    using u(1) by (simp add: user_get_def new_session_def pinned_live)
  have "claimable (rf_id x) (rf_user_id x) (rf_generation x) now r"
    using claimable_entity [OF r live] .
  from rotate_live [OF ok r(1) this, of ?s] obtain t where
    rot: "session_rotate (rf_id x) (rf_user_id x) (rf_generation x) now ?s
      = (Inr (Some (refresh_to_entity (claimed now r))), t)"
    and c: "committed t = snd (claim_rows (rf_id x) (rf_user_id x) (rf_generation x) now tb)"
    by (auto simp: new_session_def)
  show ?thesis
    using u(2,3) c by (simp add: auth_refresh_def usr rot)
qed

lemma claimed_row:
  assumes "tables_ok tb" and "find_session sid tb = Some r" and "claimable sid uid g now r"
  shows "find_session sid (snd (claim_rows sid uid g now tb)) = Some (claimed now r)"
    and "users (snd (claim_rows sid uid g now tb)) = users tb"
    and "tables_ok (snd (claim_rows sid uid g now tb))"
proof -
  show "find_session sid (snd (claim_rows sid uid g now tb)) = Some (claimed now r)"
    using assms(2,3) session_table.find_update_where [of "claimed now" sid "claimable sid uid g now" "refresh_sessions tb"]
    by (simp add: claim_rows_def Let_def find_session_def claimed_def)
  show "users (snd (claim_rows sid uid g now tb)) = users tb" by (simp add: claim_rows_def Let_def)
  show "tables_ok (snd (claim_rows sid uid g now tb))"
    using update_sessions_ok [OF _ _ assms(1), of "claimed now"] by (simp add: claim_rows_def Let_def claimed_def)
qed

lemma follow_all:
  assumes "tables_ok tb" and "find_user (rf_user_id x) tb = Some ur" and "u_is_active ur" and "u_is_verified ur"
    and "find_session (rf_id x) tb = Some r" and "refresh_to_entity r = x" and "rf_revoked_at x = None"
    and "list_all (\<lambda>t. t < rf_expires_at x) ts"
  shows "\<exists>y tb'. follow env ts x tb = Some (y, tb') \<and> rf_id y = rf_id x \<and> rf_user_id y = rf_user_id x
    \<and> rf_generation y = rf_generation x + int (length ts) \<and> rf_expires_at y = rf_expires_at x"
  using assms
proof (induction ts arbitrary: x r tb)
  case (Cons now ts)
  let ?tb = "snd (claim_rows (rf_id x) (rf_user_id x) (rf_generation x) now tb)"
  let ?y = "refresh_to_entity (claimed now r)"
  have cl: "claimable (rf_id x) (rf_user_id x) (rf_generation x) now r"
    using claimable_entity [OF Cons.prems(5-7)] Cons.prems(8) by simp
  have y: "rf_id ?y = rf_id x" "rf_user_id ?y = rf_user_id x" "rf_generation ?y = rf_generation x + 1"
    "rf_expires_at ?y = rf_expires_at x" "rf_revoked_at ?y = None"
    using Cons.prems(6,7) by (auto simp: refresh_to_entity_def claimed_def)
  obtain t where t: "auth_refresh env (rf_user_id x) (rf_id x) (rf_generation x) now now now now (new_session tb)
      = (Inr (user_to_entity ur, ?y), t)" "committed t = ?tb"
    using refresh_step [OF Cons.prems(1-7), of now env now now now] Cons.prems(8) by auto
  note row = claimed_row [OF Cons.prems(1,5) cl]
  have "\<exists>z tb'. follow env ts ?y ?tb = Some (z, tb') \<and> rf_id z = rf_id ?y \<and> rf_user_id z = rf_user_id ?y
      \<and> rf_generation z = rf_generation ?y + int (length ts) \<and> rf_expires_at z = rf_expires_at ?y"
    by (rule Cons.IH) (use Cons.prems row y in \<open>auto simp: find_user_def\<close>)
  then show ?case
    using t cookie_claims_read [of "cookie_payload x" x] y by (auto simp: cookie_payload_def)
qed simp


subsection \<open>Scopes\<close>

interpretation world_frame: frame_relation "db_frame same_committed"
  by unfold_locales (simp_all add: db_frame_def)

lemma redis_keeps_db: "keeps (db_frame same_committed) (on_redis m)"
  by (rule on_redis_db_frame) simp

lemma revoked_check_frame:
  "keeps (db_frame same_committed) (is_token_revoked decode token r1 t1 r2 t2 t3 r3)"
proof -
  have "keeps same_committed (local_session (token_exists j t))"
    "keeps same_committed (local_session (token_list_active t))" for j t
    unfolding keeps_def using local_reads local_list by (metis prod.collapse)+
  then have reads: "keeps (db_frame same_committed) (on_db (local_session (token_exists j t)))"
    "keeps (db_frame same_committed) (on_db (local_session (token_list_active t)))" for j t
    by (auto intro: on_db_frame)
  show ?thesis
    unfolding is_token_revoked_def
    by (auto simp: reads redis_keeps_db split: sum.split option.split intro!: world_frame.keeps_intros)
qed

text \<open>
  C23: Retrying, deleting and purging dead-letter jobs does nothing for a caller whose token lacks
  \<open>admin:write\<close>: the request fails and the database is as it was, whatever else the token grants.
\<close>

theorem dead_letter_writes_need_scope:
  assumes "\<And>t token p. ax_verify ax t ''access'' ''headers'' req token = Inr p \<Longrightarrow>
      \<not> ax_has_scopes ax p [''admin:write''] True"
    and "op \<in> {retry_dead_route ax job_id event_id now rnow req, delete_dead_route ax job_id now rnow req,
               purge_dead_route ax before only_retried now rnow req}"
    and "op w = (r, w')"
  shows "(\<exists>e. r = Inl e) \<and> committed (w_db w') = committed (w_db w)"
proof -
  have scopes: "keeps (db_frame same_committed) (scopes_dep ax required n m req)" for required n m
    unfolding scopes_dep_def token_required_def
    by (auto split: sum.split intro!: world_frame.keeps_intros revoked_check_frame)
       (simp_all add: keeps_def db_frame_def)
  have denied: "\<exists>e. fst (scopes_dep ax [''admin:write''] n m req v) = Inl e" for n m v
    using assms(1)
    by (auto simp: scopes_dep_def token_required_def require_scopes_def chain_def raise_def of_sum_def
        split: sum.splits prod.splits)
  have "(\<exists>e. fst (dlq_write ax now rnow req h w) = Inl e)
      \<and> committed (w_db (snd (dlq_write ax now rnow req h w))) = committed (w_db w)" for h :: "reply io"
  proof -
    obtain x w1 where one: "scopes_dep ax [''admin:read''] (now 0) (rnow 0) req w = (x, w1)" by (rule prod.exhaust)
    have c1: "committed (w_db w1) = committed (w_db w)" using keepsD [OF scopes one] by (simp add: db_frame_def)
    obtain y w2 where two: "scopes_dep ax [''admin:write''] (now 1) (rnow 1) req w1 = (y, w2)" by (rule prod.exhaust)
    have c2: "committed (w_db w2) = committed (w_db w1)" using keepsD [OF scopes two] by (simp add: db_frame_def)
    obtain e where "y = Inl e" using denied [of "now 1" "rnow 1" w1] two by auto
    with one two c1 c2 show ?thesis by (cases x) (simp_all add: dlq_write_def)
  qed
  moreover obtain h where "op = dlq_write ax now rnow req h"
    using assms(2) unfolding retry_dead_route_def delete_dead_route_def purge_dead_route_def by blast
  ultimately show ?thesis using assms(3) by (metis fst_conv snd_conv)
qed

end
