(* ===== verification/Middlewares.thy ===== *)
theory Middlewares
  imports Problem
begin

section \<open>core/middlewares and the application stack\<close>

text \<open>
  The ASGI middlewares and the order in which \<open>main.py\<close> puts them around the routes. An ASGI
  application is what it does on a request: the trace of the queries it runs and the messages it
  sends, and the exception that leaves it, if any. \<open>request_id_context\<close> is the first argument.
  Starlette's \<open>ExceptionMiddleware\<close> answers the exceptions that have a handler of their own; gzip,
  CORS and proxy headers (third-party, and outside of or below what is modelled here) are left
  out, as is the \<open>Content-Length\<close> of a response.
\<close>

datatype content = Json "(string \<times> json) list" | Bytes string

datatype message = Start int "(string \<times> string) list" | Body content

datatype event = Query | Send message | Alert nat

type_synonym 'e app = "string \<Rightarrow> request \<Rightarrow> event list \<times> 'e option"

definition response_events :: "response \<Rightarrow> event list" where
  "response_events r =
     [Send (Start (rsp_status r) (rsp_headers r @ [(''content-type'', rsp_media_type r)])),
      Send (Body (Json (rsp_body r)))]"

text \<open>\<open>MutableHeaders.__setitem__\<close>: the first occurrence is replaced, the others go.\<close>

fun set_header :: "string \<Rightarrow> string \<Rightarrow> (string \<times> string) list \<Rightarrow> (string \<times> string) list" where
  "set_header n v [] = [(n, v)]"
| "set_header n v (h # hs) =
     (if fst h = n then (n, v) # filter (\<lambda>x. fst x \<noteq> n) hs else h # set_header n v hs)"

definition on_start :: "((string \<times> string) list \<Rightarrow> (string \<times> string) list) \<Rightarrow> event \<Rightarrow> event" where
  "on_start f e = (case e of Send (Start st hs) \<Rightarrow> Send (Start st (f hs)) | _ \<Rightarrow> e)"

definition internal_error :: "string \<Rightarrow> request \<Rightarrow> event list" where
  "internal_error rid req =
     response_events (problem_response rid req 500 ''Internal server error'' default_problem_type
       (Some ''Internal Server Error'') [] None None)"

subsection \<open>security\_headers.py\<close>

definition security_headers :: "bool \<Rightarrow> (string \<times> string) list" where
  "security_headers include_hsts =
     [(''x-content-type-options'', ''nosniff''),
      (''referrer-policy'', ''strict-origin-when-cross-origin''),
      (''content-security-policy'',
         ''default-src '' @ [CHR 0x27] @ ''self'' @ [CHR 0x27] @ ''; form-action '' @ [CHR 0x27] @ ''self''
         @ [CHR 0x27] @ ''; base-uri '' @ [CHR 0x27] @ ''self'' @ [CHR 0x27] @ ''; object-src ''
         @ [CHR 0x27] @ ''none'' @ [CHR 0x27] @ ''; frame-ancestors '' @ [CHR 0x27] @ ''none'' @ [CHR 0x27]),
      (''x-frame-options'', ''DENY'')]
     @ (if include_hsts then [(''strict-transport-security'', ''max-age=31536000; includeSubDomains'')] else [])"

definition set_headers :: "(string \<times> string) list \<Rightarrow> (string \<times> string) list \<Rightarrow> (string \<times> string) list" where
  "set_headers new hs = foldl (\<lambda>acc (n, v). set_header n v acc) hs new"

definition security_headers_middleware :: "bool \<Rightarrow> 'e app \<Rightarrow> 'e app" where
  "security_headers_middleware include_hsts app rid req =
     (if scope_type req \<noteq> ''http'' then app rid req
      else (case app rid req of (trace, err) \<Rightarrow>
              (map (on_start (set_headers (security_headers include_hsts))) trace, err)))"

subsection \<open>correlation.py\<close>

definition request_id_of :: "uuid \<Rightarrow> request \<Rightarrow> string" where
  "request_id_of fresh_id req =
     (case get_header ''x-request-id'' (req_headers req) of
        Some h \<Rightarrow> if h \<noteq> [] then h else str_uuid fresh_id
      | None \<Rightarrow> str_uuid fresh_id)"

text \<open>
  The context variable is reset before the handler of the middleware runs, which therefore sees
  the outer value, and it answers through the outer \<open>send\<close>.
\<close>

definition correlation_middleware :: "uuid \<Rightarrow> 'e app \<Rightarrow> 'e app" where
  "correlation_middleware fresh_id app rid req =
     (if scope_type req \<noteq> ''http'' then app rid req
      else
        (let request_id = request_id_of fresh_id req in
         case app request_id req of (trace, err) \<Rightarrow>
           (let sent = map (on_start (set_header ''x-request-id'' request_id)) trace in
            case err of None \<Rightarrow> (sent, None)
            | Some e \<Rightarrow> (sent @ internal_error rid req, None))))"

subsection \<open>n1\_detector.py\<close>

definition default_threshold :: nat where "default_threshold = 10"

text \<open>The counter starts at \<open>n\<close>, grows with each query and is read when the response starts.\<close>

fun count_queries :: "nat \<Rightarrow> nat \<Rightarrow> event list \<Rightarrow> event list" where
  "count_queries threshold n [] = []"
| "count_queries threshold n (e # es) =
     (case e of
        Query \<Rightarrow> Query # count_queries threshold (n + 1) es
      | Send (Start st hs) \<Rightarrow>
          (if n > threshold then [Alert n] else [])
            @ Send (Start st (set_header ''x-query-count'' (str_nat n) hs)) # count_queries threshold n es
      | _ \<Rightarrow> e # count_queries threshold n es)"

definition n1_detector_middleware :: "nat \<Rightarrow> 'e app \<Rightarrow> 'e app" where
  "n1_detector_middleware threshold app rid req =
     (if scope_type req \<noteq> ''http'' then app rid req
      else (case app rid req of (trace, err) \<Rightarrow>
              (let sent = count_queries threshold 0 trace in
               case err of None \<Rightarrow> (sent, None)
               | Some e \<Rightarrow> (sent @ internal_error rid req, None))))"

subsection \<open>main.py\<close>

definition exception_middleware :: "(response \<Rightarrow> response) option \<Rightarrow> raised app \<Rightarrow> raised app" where
  "exception_middleware inject app rid req =
     (case app rid req of (trace, err) \<Rightarrow>
        (case err of None \<Rightarrow> (trace, None)
         | Some (RaisedOther d) \<Rightarrow> (trace, Some (RaisedOther d))
         | Some e \<Rightarrow> (trace @ response_events (handle_exception inject rid req e), None)))"

definition app_stack ::
  "string \<Rightarrow> (response \<Rightarrow> response) option \<Rightarrow> uuid \<Rightarrow> raised app \<Rightarrow> raised app" where
  "app_stack env inject fresh_id routes =
     (let app = correlation_middleware fresh_id
                  (security_headers_middleware (env = ''production'')
                    (exception_middleware inject routes))
      in if env = ''local'' then n1_detector_middleware 10 app else app)"

subsection \<open>Headers\<close>

lemma set_header_get [simp]: "map_of (set_header n v hs) k = (if k = n then Some v else map_of hs k)"
proof (induction hs)
  case (Cons h hs)
  have "map_of (filter (\<lambda>x. fst x \<noteq> n) hs) k = (if k = n then None else map_of hs k)"
    by (induction hs) auto
  with Cons show ?case by (cases h) auto
qed simp

lemma set_header_once: "length (filter (\<lambda>h. fst h = n) (set_header n v hs)) = 1"
  by (induction hs) (auto simp: filter_empty_conv)

lemma set_headers_get: "k \<notin> fst ` set new \<Longrightarrow> map_of (set_headers new hs) k = map_of hs k"
  by (induction new arbitrary: hs) (auto simp: set_headers_def)

lemma set_headers_mem:
  "distinct (map fst new) \<Longrightarrow> (n, v) \<in> set new \<Longrightarrow> map_of (set_headers new hs) n = Some v"
proof (induction new arbitrary: hs)
  case (Cons p new)
  obtain m w where p: "p = (m, w)" by (rule prod.exhaust)
  have step: "set_headers (p # new) hs = set_headers new (set_header m w hs)"
    by (simp add: set_headers_def p)
  show ?case
  proof (cases "(n, v) = p")
    case True
    with Cons.prems p have "n \<notin> fst ` set new" by auto
    with True p show ?thesis unfolding step by (simp add: set_headers_get)
  next
    case False
    with Cons.prems Cons.IH [of "set_header m w hs"] show ?thesis unfolding step by auto
  qed
qed simp

lemma security_names:
  "distinct (map fst (security_headers b))" "''x-request-id'' \<notin> fst ` set (security_headers b)"
  "''x-query-count'' \<notin> fst ` set (security_headers b)"
  by (cases b; simp add: security_headers_def)+

definition starts :: "event list \<Rightarrow> (int \<times> (string \<times> string) list) list" where
  "starts trace = concat (map (\<lambda>e. case e of Send (Start st hs) \<Rightarrow> [(st, hs)] | _ \<Rightarrow> []) trace)"

lemma starts_simps [simp]:
  "starts [] = []" "starts (Query # es) = starts es" "starts (Alert n # es) = starts es"
  "starts (Send (Start st hs) # es) = (st, hs) # starts es" "starts (Send (Body c) # es) = starts es"
  "starts (xs @ ys) = starts xs @ starts ys"
  by (simp_all add: starts_def)

lemma starts_on_start: "starts (map (on_start f) trace) = map (\<lambda>(st, hs). (st, f hs)) (starts trace)"
  by (induction trace) (auto simp: starts_def on_start_def split: event.split message.split)

lemma starts_count:
  "\<exists>ns. length ns = length (starts trace) \<and> starts (count_queries th n trace) =
     map2 (\<lambda>k (st, hs). (st, set_header ''x-query-count'' (str_nat k) hs)) ns (starts trace)"
proof (induction trace arbitrary: n)
  case (Cons e es)
  obtain ns where ns: "length ns = length (starts es)" "starts (count_queries th n es) =
     map2 (\<lambda>k (st, hs). (st, set_header ''x-query-count'' (str_nat k) hs)) ns (starts es)"
    using Cons.IH by blast
  show ?case
  proof (cases e)
    case (Send m)
    show ?thesis
    proof (cases m)
      case (Start st hs)
      with Send ns show ?thesis by (intro exI [of _ "n # ns"]) auto
    next
      case (Body c)
      with Send ns show ?thesis by auto
    qed
  qed (use Cons.IH [of "n + 1"] ns in auto)
qed simp

lemma count_statuses: "map fst (starts (count_queries th n es)) = map fst (starts es)"
  by (induction es arbitrary: n) (auto split: event.split message.split)

lemma statuses_on_start: "map fst (starts (map (on_start f) trace)) = map fst (starts trace)"
  by (simp add: starts_on_start comp_def split_def)

definition hardened :: "bool \<Rightarrow> string \<Rightarrow> (string \<times> string) list \<Rightarrow> bool" where
  "hardened hsts i hs \<longleftrightarrow> map_of hs ''x-request-id'' = Some i
     \<and> list_all (\<lambda>(n, v). map_of hs n = Some v) (security_headers hsts)"

lemma hardened_set:
  "hardened b i (set_header ''x-request-id'' i (set_headers (security_headers b) hs))"
  using security_names [of b] set_headers_mem [OF security_names(1), of _ _ b hs]
  by (auto simp: hardened_def list_all_iff image_iff)

lemma hardened_count: "hardened b i hs \<Longrightarrow> hardened b i (set_header ''x-query-count'' v hs)"
proof -
  assume h: "hardened b i hs"
  have "n \<noteq> ''x-query-count''" if "(n, w) \<in> set (security_headers b)" for n w
    using security_names(3) [of b] that by force
  with h show ?thesis by (auto simp: hardened_def list_all_iff)
qed

lemma stack_headers:
  assumes "scope_type req = ''http''"
    and "snd (exception_middleware inject routes (request_id_of u req) req) = None"
    and "(st, hs) \<in> set (starts (fst (app_stack env inject u routes rid req)))"
  shows "snd (app_stack env inject u routes rid req) = None
    \<and> hardened (env = ''production'') (request_id_of u req) hs"
proof -
  obtain trace where t: "exception_middleware inject routes (request_id_of u req) req = (trace, None)"
    using assms(2) by (metis prod.collapse)
  let ?sent = "map (on_start (set_header ''x-request-id'' (request_id_of u req)))
     (map (on_start (set_headers (security_headers (env = ''production'')))) trace)"
  have shape: "app_stack env inject u routes rid req =
      (if env = ''local'' then count_queries 10 0 ?sent else ?sent, None)"
    using assms(1) t
    by (simp add: app_stack_def Let_def n1_detector_middleware_def correlation_middleware_def
        security_headers_middleware_def)
  have all: "hardened (env = ''production'') (request_id_of u req) h" if "(s, h) \<in> set (starts ?sent)" for s h
    using that hardened_set by (auto simp: starts_on_start simp del: map_map)
  obtain ns where ns: "starts (count_queries 10 0 ?sent) =
     map2 (\<lambda>k (st, hs). (st, set_header ''x-query-count'' (str_nat k) hs)) ns (starts ?sent)"
    using starts_count by blast
  show ?thesis
  proof (cases "env = ''local''")
    case True
    with assms(3) shape ns obtain k h where "hs = set_header ''x-query-count'' (str_nat k) h"
      "(st, h) \<in> set (starts ?sent)"
      by (auto simp: set_zip split: prod.splits)
    with all shape show ?thesis by (simp add: hardened_count)
  next
    case False
    with assms(3) shape all show ?thesis by simp
  qed
qed

subsection \<open>Properties\<close>

text \<open>
  Every answer to an HTTP request that a route or one of the exception handlers gives carries
  the hardening headers and the request's correlation id (the client's own if it sent one), and
  the stack lets no exception of it through; only \<open>X-Query-Count\<close> is added on top.
\<close>

theorem answers_carry_headers:
  assumes "scope_type req = ''http''"
    and "\<And>r d. snd (routes r req) \<noteq> Some (RaisedOther d)"
    and "(st, hs) \<in> set (starts (fst (app_stack env inject u routes rid req)))"
  shows "snd (app_stack env inject u routes rid req) = None
    \<and> map_of hs ''x-request-id'' = Some (request_id_of u req)
    \<and> (list_all (\<lambda>(n, v). map_of hs n = Some v) (security_headers (env = ''production'')))
    \<and> (get_header ''x-request-id'' (req_headers req) \<in> {None, Some []}
         \<or> map_of hs ''x-request-id'' = get_header ''x-request-id'' (req_headers req))"
proof -
  let ?id = "request_id_of u req"
  have no: "\<forall>d. snd (routes ?id req) \<noteq> Some (RaisedOther d)" using assms(2) by blast
  have silent: "snd (exception_middleware inject routes ?id req) = None"
    using no
    by (auto simp: exception_middleware_def split: prod.split option.split raised.split)
  from stack_headers [OF assms(1) silent assms(3)]
  show ?thesis
    by (auto simp: hardened_def request_id_of_def split: option.splits if_splits)
qed

text \<open>
  C26: An exception nobody expected is answered, once, with the internal error document; neither
  its type nor its text has any influence on what is sent.
\<close>

theorem unexpected_exception_hidden:
  assumes "scope_type req = ''http''" and "\<And>r. routes r req = (trace, Some (RaisedOther d))"
    and "\<And>r. routes' r req = (trace, Some (RaisedOther d'))"
  shows "app_stack env inject u routes rid req = app_stack env inject' u routes' rid req
    \<and> snd (app_stack env inject u routes rid req) = None
    \<and> map fst (starts (fst (app_stack env inject u routes rid req))) = map fst (starts trace) @ [500]"
proof -
  have ends: "exception_middleware i rs rid' req = (trace, Some (RaisedOther e))"
    if "\<And>r. rs r req = (trace, Some (RaisedOther e))" for i rs rid' e
    using that by (simp add: exception_middleware_def)
  have shape: "app_stack env i u rs rid req =
      (let sent = map (on_start (set_header ''x-request-id'' (request_id_of u req)))
              (map (on_start (set_headers (security_headers (env = ''production'')))) trace)
            @ internal_error rid req
       in (if env = ''local'' then count_queries 10 0 sent else sent, None))"
    if raises: "\<And>r. rs r req = (trace, Some (RaisedOther e))" for i rs e
    using assms(1) ends [where rs = rs and e = e, OF raises]
    by (simp add: app_stack_def Let_def n1_detector_middleware_def correlation_middleware_def
        security_headers_middleware_def)
  have "map fst (starts (internal_error rid req)) = [500]"
    by (simp add: internal_error_def response_events_def problem_response_def)
  then show ?thesis
    using shape [where rs = routes and e = d, OF assms(2)] shape [where rs = routes' and e = d', OF assms(3)]
    by (simp add: Let_def count_statuses statuses_on_start del: map_map)
qed

text \<open>
  The price of answering it there: the document of an unexpected error has the outer
  correlation id (\<open>-\<close> in a request of its own), whatever id the client sent, and its headers
  have neither an \<open>X-Request-ID\<close> nor any hardening header.
\<close>

theorem unexpected_exception_uncorrelated:
  assumes "scope_type req = ''http''" and "\<And>r. routes r req = ([], Some (RaisedOther d))"
    and "env \<noteq> ''local''"
  shows "\<exists>hs body. fst (app_stack env inject u routes ''-'' req)
      = [Send (Start 500 hs), Send (Body (Json body))]
    \<and> map_of body ''correlation_id'' = Some (JStr ''-'')
    \<and> map_of hs ''x-request-id'' = None \<and> map_of hs ''x-frame-options'' = None"
  using assms
  by (simp add: app_stack_def correlation_middleware_def security_headers_middleware_def
      exception_middleware_def internal_error_def response_events_def problem_response_def
      model_dump_def correlation_of_def optional_member_def Let_def)

end
