(* ===== verification/WorkerTasks.thy ===== *)
theory WorkerTasks
  imports SessionRepo TokenRepo DeadLetter Relay
begin

section \<open>core/worker/tasks.py and core/worker/main.py\<close>

text \<open>
  The worker's functions and cron jobs. A cleanup task works in a session of its own
  (\<open>AsyncSessionLocal\<close>); \<open>now\<close> is the clock it reads. Sending mail is the parameter \<open>mail_send\<close>
  (FastMail), which may raise; \<open>validate\<close> is the address parser of \<open>_recipients_adapter\<close>.
\<close>

definition task_result :: "string \<Rightarrow> (string \<times> json) list \<Rightarrow> json" where
  "task_result state members = JObj ((''status'', JStr state) # members)"

definition cleanup_revoked_tokens_task :: "time \<Rightarrow> json db" where
  "cleanup_revoked_tokens_task now =
     chain (local_session (token_purge_expired now)) (\<lambda>_. ret (task_result ''completed'' []))"

definition cleanup_refresh_sessions_task :: "time \<Rightarrow> json db" where
  "cleanup_refresh_sessions_task now =
     chain (local_session (session_purge_expired now)) (\<lambda>deleted.
     ret (task_result ''completed'' [(''deleted'', JInt (int deleted))]))"

definition cleanup_outbox_task :: "settings \<Rightarrow> time \<Rightarrow> json db" where
  "cleanup_outbox_task st now =
     chain (local_session (cleanup_dispatched st now)) (\<lambda>deleted.
     ret (task_result ''completed'' [(''deleted'', JInt (int deleted))]))"

definition cleanup_dead_letter_task :: "settings \<Rightarrow> time \<Rightarrow> json db" where
  "cleanup_dead_letter_task st now =
     (let cutoff = now - days (dead_letter_retention_days st) in
      chain (local_session (dlq_purge (Some cutoff) True)) (\<lambda>deleted.
      ret (task_result ''completed'' [(''deleted'', JInt (int deleted))])))"

subsection \<open>Mail\<close>

record mail_settings =
  mail_username :: "string option"
  mail_password :: "string option"
  mail_from :: string
  mail_from_name :: "string option"
  mail_port :: int
  mail_server :: string
  mail_starttls :: bool
  mail_ssl_tls :: bool

record mail_config =
  mc_username :: string
  mc_password :: string
  mc_from :: string
  mc_port :: int
  mc_server :: string
  mc_from_name :: "string option"
  mc_starttls :: bool
  mc_ssl_tls :: bool
  mc_use_credentials :: bool
  mc_validate_certs :: bool

record mail_message =
  mm_subject :: string
  mm_recipients :: "string list"
  mm_body :: string
  mm_subtype :: string

definition or_empty :: "string option \<Rightarrow> string" where
  "or_empty x = (case x of None \<Rightarrow> [] | Some s \<Rightarrow> s)"

definition get_mail :: "mail_settings \<Rightarrow> mail_config" where
  "get_mail ms =
     (let has_credentials = (or_empty (mail_username ms) \<noteq> [] \<and> or_empty (mail_password ms) \<noteq> []) in
      \<lparr>mc_username = or_empty (mail_username ms), mc_password = or_empty (mail_password ms),
       mc_from = mail_from ms, mc_port = mail_port ms, mc_server = mail_server ms,
       mc_from_name = mail_from_name ms, mc_starttls = mail_starttls ms, mc_ssl_tls = mail_ssl_tls ms,
       mc_use_credentials = has_credentials, mc_validate_certs = has_credentials\<rparr>)"

definition send_email ::
  "(string list \<Rightarrow> exc + string list) \<Rightarrow> (mail_config \<Rightarrow> mail_message \<Rightarrow> exc + unit) \<Rightarrow> mail_settings
     \<Rightarrow> string \<Rightarrow> string list \<Rightarrow> string \<Rightarrow> exc + unit" where
  "send_email validate mail_send ms subject recipients body =
     (case validate recipients of Inl e \<Rightarrow> Inl e
      | Inr rs \<Rightarrow> mail_send (get_mail ms)
                    \<lparr>mm_subject = subject, mm_recipients = rs, mm_body = body, mm_subtype = ''html''\<rparr>)"

definition send_email_task ::
  "(string list \<Rightarrow> exc + string list) \<Rightarrow> (mail_config \<Rightarrow> mail_message \<Rightarrow> exc + unit) \<Rightarrow> mail_settings
     \<Rightarrow> string \<Rightarrow> string list \<Rightarrow> string \<Rightarrow> exc + json" where
  "send_email_task validate mail_send ms subject recipients body =
     (case send_email validate mail_send ms subject recipients body of Inl e \<Rightarrow> Inl e
      | Inr _ \<Rightarrow> Inr (task_result ''sent'' [(''recipients'', JList (map JStr recipients))]))"

definition process_welcome_email :: "int \<Rightarrow> string \<Rightarrow> json" where
  "process_welcome_email uid email = task_result ''delivered'' [(''user_id'', JInt uid)]"

subsection \<open>The worker\<close>

definition worker_functions :: "string list" where
  "worker_functions = [''process_welcome_email'', ''send_email_task'']"

definition cron_jobs :: "(string \<times> string) list" where
  "cron_jobs =
     [(''cleanup_revoked_tokens_task'', ''0 3 * * *''), (''cleanup_refresh_sessions_task'', ''15 3 * * *''),
      (''cleanup_outbox_task'', ''30 3 * * *''), (''cleanup_dead_letter_task'', ''0 4 * * *'')]"

definition run_cron_job :: "settings \<Rightarrow> string \<Rightarrow> time \<Rightarrow> json db" where
  "run_cron_job st name now =
     (if name = ''cleanup_revoked_tokens_task'' then cleanup_revoked_tokens_task now
      else if name = ''cleanup_refresh_sessions_task'' then cleanup_refresh_sessions_task now
      else if name = ''cleanup_outbox_task'' then cleanup_outbox_task st now
      else cleanup_dead_letter_task st now)"

subsection \<open>What a cleanup may delete\<close>

definition spares :: "settings \<Rightarrow> time \<Rightarrow> tables \<Rightarrow> tables \<Rightarrow> bool" where
  "spares st now tb tb' \<longleftrightarrow>
     users tb' = users tb
   \<and> filter (\<lambda>r. rt_expires_at r > now) (revoked_tokens tb') = filter (\<lambda>r. rt_expires_at r > now) (revoked_tokens tb)
   \<and> filter (\<lambda>r. rs_expires_at r > now) (refresh_sessions tb') = filter (\<lambda>r. rs_expires_at r > now) (refresh_sessions tb)
   \<and> filter (\<lambda>r. case ob_dispatched_at r of None \<Rightarrow> True | Some d \<Rightarrow> now - days (outbox_retention_days st) \<le> d)
       (outbox_events tb')
     = filter (\<lambda>r. case ob_dispatched_at r of None \<Rightarrow> True | Some d \<Rightarrow> now - days (outbox_retention_days st) \<le> d)
         (outbox_events tb)
   \<and> filter (\<lambda>r. dl_retried_at r = None \<or> now - days (dead_letter_retention_days st) \<le> dl_failed_at r)
       (dead_letter_jobs tb')
     = filter (\<lambda>r. dl_retried_at r = None \<or> now - days (dead_letter_retention_days st) \<le> dl_failed_at r)
         (dead_letter_jobs tb)"

interpretation sparing: table_relation "spares st now" for st now
  by unfold_locales (auto simp: spares_def)

lemma sparing_stmts [frame_intros]:
  "stmt_rel (spares st now) (delete_expired_tokens now)"
  "stmt_rel (spares st now) (delete_expired_sessions now)"
  "stmt_rel (spares st now) (delete_dispatched (now - days (outbox_retention_days st)))"
  "stmt_rel (spares st now) (purge_dead (Some (now - days (dead_letter_retention_days st))) True)"
  by (auto simp: stmt_rel_def spares_def delete_expired_tokens_def delete_expired_sessions_def delete_dispatched_def
      purge_dead_def delete_where_def Let_def intro!: filter_cong split: option.splits)

lemma cron_job_spares: "keeps (table_kept (spares st now)) (run_cron_job st name now)"
proof -
  have "keeps (table_kept (spares st now)) (cleanup_dispatched st now)"
    unfolding cleanup_dispatched_def by (rule frame_intros)+
  note rules = this frame_intros
  show ?thesis
    unfolding run_cron_job_def cleanup_revoked_tokens_task_def cleanup_refresh_sessions_task_def
      cleanup_outbox_task_def cleanup_dead_letter_task_def Let_def
    by (rule rules)+
qed

text \<open>
  C29: No cron job ever deletes what is still needed, whether it completes or the connection breaks
  on the way: unexpired revocations and refresh sessions, events that are not dispatched or within
  their retention, dead letters that were not retried or are within theirs, and every user stay.
\<close>

theorem cron_jobs_spare_live_rows:
  assumes "name \<in> fst ` set cron_jobs" and "run_cron_job st name now s = (r, t)" and "working s = committed s"
  shows "spares st now (committed s) (committed t)"
  using sparing.kept_durable [OF cron_job_spares assms(2)] assms(3) sparing.R_refl by simp

end
