(* ===== verification/Operations.thy ===== *)
theory Operations
  imports Middlewares WorkerTasks
begin

section \<open>Running the service: health, startup, shutdown\<close>

text \<open>
  \<open>core/health.py\<close>, \<open>core/startup_checks.py\<close>, the \<open>lifespan\<close> of \<open>main.py\<close>, \<open>core/safety.py\<close>,
  \<open>core/dev_server.py\<close> and \<open>core/deprecation.py\<close>. What the outside world answers (a connection
  that works or not, a socket that binds or not) is a parameter.
\<close>

subsection \<open>core/health.py\<close>

text \<open>An exception as the report shows it: its class and its text.\<close>

record fault =
  ft_class :: string
  ft_text :: string

type_synonym probe = "time \<times> fault option"

definition runtime_error :: "string \<Rightarrow> fault" where
  "runtime_error m = \<lparr>ft_class = ''RuntimeError'', ft_text = m\<rparr>"

definition check_timeout :: time where "check_timeout = seconds 2"

text \<open>\<open>asyncio.wait_for(check, timeout)\<close> of a probe that takes \<open>fst p\<close> and ends as \<open>snd p\<close>.\<close>

definition wait_for :: "time \<Rightarrow> probe \<Rightarrow> fault option" where
  "wait_for timeout p =
     (if fst p > timeout then Some \<lparr>ft_class = ''TimeoutError'', ft_text = ''''\<rparr> else snd p)"

definition check_worker :: "string list \<Rightarrow> fault option" where
  "check_worker workers = (if workers = [] then Some (runtime_error ''no active SAQ worker'') else None)"

definition check_relay_heartbeat :: "redis \<Rightarrow> time \<Rightarrow> fault option" where
  "check_relay_heartbeat r now =
     (if live_entry r now relay_heartbeat_key = None
      then Some (runtime_error ''outbox relay heartbeat missing'') else None)"

text \<open>\<open>fmt\<close> renders the age without decimals.\<close>

definition check_outbox_backlog :: "settings \<Rightarrow> (time \<Rightarrow> string) \<Rightarrow> time option \<Rightarrow> fault option" where
  "check_outbox_backlog st fmt age =
     (case age of None \<Rightarrow> None
      | Some a \<Rightarrow> if a > outbox_max_lag st
                  then Some (runtime_error (''oldest pending outbox row is '' @ fmt a @ ''s old'')) else None)"

definition fault_detail :: "fault \<Rightarrow> string" where
  "fault_detail f = (if ft_text f \<noteq> [] then ft_text f else ft_class f)"

definition run_checks :: "(string \<times> probe) list \<Rightarrow> int \<times> json" where
  "run_checks checks =
     (let results = map (\<lambda>(name, p). (name, wait_for check_timeout p)) checks;
          report = map (\<lambda>(name, r). (name, JStr (case r of None \<Rightarrow> ''ok''
                                                  | Some f \<Rightarrow> ''unhealthy: '' @ fault_detail f))) results;
          is_healthy = list_all (\<lambda>(name, r). r = None) results
      in if \<not> is_healthy then (503, JObj [(''status'', JStr ''unhealthy''), (''checks'', JObj report)])
         else (200, JObj [(''status'', JStr ''ok''), (''checks'', JObj report)]))"

definition liveness :: "int \<times> json" where
  "liveness = (200, JObj [(''status'', JStr ''ok'')])"

definition readiness :: "probe \<Rightarrow> probe \<Rightarrow> probe \<Rightarrow> int \<times> json" where
  "readiness primary replica_db redis_probe =
     run_checks [(''database_primary'', primary), (''database_replica'', replica_db), (''redis'', redis_probe)]"

text \<open>The worker, heartbeat and backlog probes; a backlog query that fails is a fault of its own
  (\<open>show_exc\<close> is the driver's text for it).\<close>

definition workers_route ::
  "settings \<Rightarrow> (exc \<Rightarrow> fault) \<Rightarrow> (time \<Rightarrow> string) \<Rightarrow> string list \<Rightarrow> time \<Rightarrow> time \<Rightarrow> (string \<Rightarrow> time) \<Rightarrow> world \<Rightarrow> int \<times> json" where
  "workers_route st show_exc fmt workers now rnow took w =
     run_checks
       [(''worker'', took ''worker'', check_worker workers),
        (''outbox_relay'', took ''outbox_relay'', check_relay_heartbeat (w_redis w) rnow),
        (''outbox_backlog'', took ''outbox_backlog'',
           case fst (db_session (oldest_pending_age now) (w_db w)) of
             Inl e \<Rightarrow> Some (show_exc e)
           | Inr age \<Rightarrow> check_outbox_backlog st fmt age)]"

subsection \<open>core/startup\_checks.py and the lifespan\<close>

datatype log = Warning string

definition em_dash :: string where "em_dash = [CHR 0xE2, CHR 0x80, CHR 0x94]"

text \<open>A check that fails stops the start with its message; a replica that is away is only logged.
  Text is UTF-8.\<close>

definition check_database :: "settings \<Rightarrow> bool \<Rightarrow> bool \<Rightarrow> string + log list" where
  "check_database st primary_up replica_up =
     (if \<not> primary_up
      then Inl (''Cannot reach Primary Postgres at '' @ py_repr (database_url st)
                 @ ''. Is it running? Try: docker compose up -d'')
      else if \<not> replica_up
      then Inr [Warning (''Replica Postgres at '' @ py_repr (get_replica_url st)
                 @ '' is not reachable. Read traffic will route to primary until it is available.'')]
      else Inr [])"


text \<open>The two configuration checks differ in the names they ask for and in their label.\<close>

definition missing_names :: "(string \<times> bool) list \<Rightarrow> string list" where
  "missing_names required = map fst (filter (\<lambda>(k, present). \<not> present) required)"

definition check_mail_config :: "mail_settings \<Rightarrow> string + log list" where
  "check_mail_config ms =
     (let missing = missing_names [(''MAIL_FROM'', mail_from ms \<noteq> []), (''MAIL_PORT'', mail_port ms \<noteq> 0),
                                   (''MAIL_SERVER'', mail_server ms \<noteq> [])]
      in if missing \<noteq> []
         then Inl (''Missing SMTP configuration: '' @ join '', '' missing
                    @ ''. Set these in .env '' @ em_dash @ '' see .env.example.'')
         else Inr [])"

definition check_jwt_config :: "string \<Rightarrow> string \<Rightarrow> string + log list" where
  "check_jwt_config secret algorithm =
     (let missing = missing_names [(''JWT_SECRET_KEY'', secret \<noteq> []), (''JWT_ALGORITHM'', algorithm \<noteq> [])]
      in if missing \<noteq> []
         then Inl (''Missing JWT configuration: '' @ join '', '' missing
                    @ ''. Set these in .env '' @ em_dash @ '' see .env.example.'')
         else Inr [])"

text \<open>
  The lifespan: the checks in order, the application, then every closer, whether the application
  ended or raised. A closer that raises is logged. What happens is the list of things done.
\<close>

datatype lifetime = Checked string | Served | Closed string | CloseFailed string

fun start_up :: "(string \<times> (string + log list)) list \<Rightarrow> string option \<times> lifetime list" where
  "start_up [] = (None, [])"
| "start_up ((name, c) # cs) =
     (case c of Inl m \<Rightarrow> (Some m, [Checked name])
      | Inr _ \<Rightarrow> (case start_up cs of (r, ev) \<Rightarrow> (r, Checked name # ev)))"

definition shut_down :: "(string \<times> bool) list \<Rightarrow> lifetime list" where
  "shut_down closers = map (\<lambda>(label, fails). if fails then CloseFailed label else Closed label) closers"

definition lifespan ::
  "settings \<Rightarrow> mail_settings \<Rightarrow> string \<Rightarrow> string \<Rightarrow> bool \<Rightarrow> bool \<Rightarrow> bool \<Rightarrow> bool \<Rightarrow> string option \<times> lifetime list" where
  "lifespan st ms secret algorithm primary_up replica_up engines_fail redis_fails =
     (case start_up [(''check_database'', check_database st primary_up replica_up),
                     (''check_mail_config'', check_mail_config ms),
                     (''check_jwt_config'', check_jwt_config secret algorithm)] of
        (Some m, ev) \<Rightarrow> (Some m, ev)
      | (None, ev) \<Rightarrow>
          (None, ev @ Served # shut_down [(''database engines'', engines_fail), (''redis'', redis_fails)]))"

subsection \<open>core/safety.py\<close>

definition local_hosts :: "string list" where
  "local_hosts = [''localhost'', ''127.0.0.1'', ''0.0.0.0'', ''::1'']"

text \<open>\<open>host_of\<close> is \<open>make_url(url).host\<close>. The result is the refusal, or the host warned about.\<close>

definition ensure_safe_operation ::
  "(string \<Rightarrow> string option) \<Rightarrow> settings \<Rightarrow> string \<Rightarrow> bool \<Rightarrow> string option \<Rightarrow> string option
     \<Rightarrow> string + string option" where
  "ensure_safe_operation host_of st operation allow_production env_arg url_arg =
     (let env = (if or_empty env_arg \<noteq> [] then or_empty env_arg else environment st);
          url = (if or_empty url_arg \<noteq> [] then or_empty url_arg else database_url st)
      in if env = ''production'' \<and> \<not> allow_production
         then Inl (''Refusing to run '' @ [CHR 0x27] @ operation @ [CHR 0x27] @ '' in the '' @ env
                   @ '' environment. This command can destroy data. Re-run with --allow-production ''
                   @ ''only if you are certain.'')
         else let host = or_empty (host_of url) in
              Inr (if env \<noteq> ''production'' \<and> host \<notin> set local_hosts then Some host else None))"

subsection \<open>core/dev\_server.py\<close>

datatype bind_outcome = Bound | AddressNotAvailable | BindError nat

text \<open>
  \<open>bind_sockets\<close> with the sockets it opened and closed; a socket is named by its host's place in
  the list. \<open>Inl (Some e)\<close> is the error number of the operating system, \<open>Inl None\<close> the code's own
  \<open>OSError\<close>.
\<close>

definition socket_family :: "string \<Rightarrow> string" where
  "socket_family host = (if CHR '':'' \<in> set host then ''AF_INET6'' else ''AF_INET'')"

fun bind_from ::
  "(string \<Rightarrow> bind_outcome) \<Rightarrow> nat \<Rightarrow> string list \<Rightarrow> nat list \<Rightarrow> nat list \<Rightarrow> (nat option + nat list) \<times> nat list" where
  "bind_from bind i [] sockets closed = (if sockets = [] then Inl None else Inr sockets, closed)"
| "bind_from bind i (host # hosts) sockets closed =
     (case bind host of
        Bound \<Rightarrow> bind_from bind (Suc i) hosts (sockets @ [i]) closed
      | AddressNotAvailable \<Rightarrow> bind_from bind (Suc i) hosts sockets (closed @ [i])
      | BindError e \<Rightarrow> (Inl (Some e), closed @ [i] @ sockets))"

definition bind_sockets ::
  "(string \<Rightarrow> string \<Rightarrow> bind_outcome) \<Rightarrow> string list \<Rightarrow> (nat option + nat list) \<times> nat list" where
  "bind_sockets bind hosts = bind_from (\<lambda>host. bind (socket_family host) host) 0 hosts [] []"

subsection \<open>core/deprecation.py\<close>

text \<open>\<open>meta\<close> is the endpoint's \<open>__deprecation__\<close>: absent, or its sunset date.\<close>

definition deprecation_route :: "string option option \<Rightarrow> response \<Rightarrow> response" where
  "deprecation_route meta r =
     (case meta of None \<Rightarrow> r
      | Some sunset \<Rightarrow>
          let r' = r\<lparr>rsp_headers := set_header ''deprecation'' ''true'' (rsp_headers r)\<rparr> in
          if or_empty sunset \<noteq> []
          then r'\<lparr>rsp_headers := set_header ''sunset'' (or_empty sunset) (rsp_headers r')\<rparr> else r')"

subsection \<open>Properties\<close>

text \<open>
  A health report is honest: it is 503 and "unhealthy" exactly when a probe failed or took
  longer than two seconds, 200 and "ok" otherwise, and in both cases it names every probe in order,
  "ok" exactly for those that passed in time.
\<close>

theorem health_report_honest:
  "\<exists>report. snd (run_checks checks) = JObj [(''status'', JStr (if fst (run_checks checks) = 200 then ''ok'' else ''unhealthy'')),
                                          (''checks'', JObj report)]
    \<and> fst (run_checks checks) = (if \<exists>c \<in> set checks. wait_for check_timeout (snd c) \<noteq> None then 503 else 200)
    \<and> map fst report = map fst checks
    \<and> map (\<lambda>m. snd m = JStr ''ok'') report = map (\<lambda>c. wait_for check_timeout (snd c) = None) checks"
  by (auto simp: run_checks_def Let_def list_all_iff o_def split_beta split: option.split)

lemma bind_from_result:
  assumes "\<forall>j < i. bind (hosts ! j) \<in> {Bound, AddressNotAvailable}" and "i \<le> length hosts"
  shows "case bind_from bind i (drop i hosts) (filter (\<lambda>j. bind (hosts ! j) = Bound) [0..<i])
             (filter (\<lambda>j. bind (hosts ! j) = AddressNotAvailable) [0..<i]) of
     (Inr open_sockets, closed) \<Rightarrow>
       open_sockets = filter (\<lambda>i. bind (hosts ! i) = Bound) [0..<length hosts] \<and> open_sockets \<noteq> []
     \<and> closed = filter (\<lambda>i. bind (hosts ! i) = AddressNotAvailable) [0..<length hosts]
     \<and> (\<forall>h \<in> set hosts. bind h \<in> {Bound, AddressNotAvailable})
   | (Inl None, closed) \<Rightarrow> closed = [0..<length hosts] \<and> (\<forall>h \<in> set hosts. bind h = AddressNotAvailable)
   | (Inl (Some e), closed) \<Rightarrow>
       \<exists>k < length hosts. bind (hosts ! k) = BindError e \<and> distinct closed \<and> set closed = {..k}"
  using assms
proof (induction "length hosts - i" arbitrary: i)
  case 0
  then have i: "i = length hosts" by simp
  have all: "bind h \<in> {Bound, AddressNotAvailable}" if "h \<in> set hosts" for h
    using that "0.prems"(1) unfolding i by (metis in_set_conv_nth)
  show ?case
  proof (cases "filter (\<lambda>j. bind (hosts ! j) = Bound) [0..<i] = []")
    case True
    then have none: "bind (hosts ! j) = AddressNotAvailable" if "j < length hosts" for j
      using that "0.prems"(1) unfolding i by (fastforce simp: filter_empty_conv)
    then have "filter (\<lambda>j. bind (hosts ! j) = AddressNotAvailable) [0..<i] = [0..<i]" by (simp add: i)
    moreover have "bind h = AddressNotAvailable" if "h \<in> set hosts" for h
      using that none by (metis in_set_conv_nth)
    ultimately show ?thesis using True by (simp add: i)
  next
    case False
    with all show ?thesis by (simp add: i)
  qed
next
  case (Suc n)
  then have i: "i < length hosts" by simp
  have d: "drop i hosts = hosts ! i # drop (Suc i) hosts" using i by (simp add: Cons_nth_drop_Suc)
  note later = Suc.hyps(1) [of "Suc i"]
  show ?case
  proof (cases "bind (hosts ! i)")
    case (BindError e)
    let ?a = "filter (\<lambda>j. bind (hosts ! j) = Bound) [0..<i]"
    let ?b = "filter (\<lambda>j. bind (hosts ! j) = AddressNotAvailable) [0..<i]"
    have "set ?a \<union> set ?b = {..<i}" using Suc.prems(1) by (auto simp: atLeast0LessThan)
    then have "set (?b @ [i] @ ?a) = {..i}" by (auto simp: lessThan_Suc_atMost [symmetric] lessThan_Suc)
    moreover have "distinct (?b @ [i] @ ?a)" by auto
    ultimately show ?thesis using BindError i by (auto simp: d simp del: set_append)
  next
    case Bound
    have "\<forall>j < Suc i. bind (hosts ! j) \<in> {Bound, AddressNotAvailable}"
      using Suc.prems(1) Bound by (simp add: less_Suc_eq)
    with Suc.hyps(2) i later show ?thesis by (simp add: d Bound)
  next
    case AddressNotAvailable
    have "\<forall>j < Suc i. bind (hosts ! j) \<in> {Bound, AddressNotAvailable}"
      using Suc.prems(1) AddressNotAvailable by (simp add: less_Suc_eq)
    with Suc.hyps(2) i later show ?thesis by (simp add: d AddressNotAvailable)
  qed
qed

text \<open>
  Every socket \<open>bind_sockets\<close> opens is either handed to the server or closed, whichever address
  fails and how: on success it returns those that bound, in order and at least one, and on an error
  none stays open.
\<close>

theorem bind_sockets_leaks_nothing:
  "case bind_sockets bind hosts of
     (Inr open_sockets, closed) \<Rightarrow>
       open_sockets = filter (\<lambda>i. bind (socket_family (hosts ! i)) (hosts ! i) = Bound) [0..<length hosts] \<and> open_sockets \<noteq> []
     \<and> closed = filter (\<lambda>i. bind (socket_family (hosts ! i)) (hosts ! i) = AddressNotAvailable) [0..<length hosts]
     \<and> (\<forall>h \<in> set hosts. bind (socket_family h) h \<in> {Bound, AddressNotAvailable})
   | (Inl None, closed) \<Rightarrow> closed = [0..<length hosts] \<and> (\<forall>h \<in> set hosts. bind (socket_family h) h = AddressNotAvailable)
   | (Inl (Some e), closed) \<Rightarrow>
       \<exists>k < length hosts. bind (socket_family (hosts ! k)) (hosts ! k) = BindError e \<and> distinct closed \<and> set closed = {..k}"

  using bind_from_result [where i = 0 and hosts = hosts and bind = "\<lambda>host. bind (socket_family host) host"]
  by (simp add: bind_sockets_def)

text \<open>
  A start that fails serves nothing and closes nothing; one that succeeds tries every closer
  when it ends, also after one that fails.
\<close>

theorem lifespan_releases:
  "case lifespan st ms secret algorithm primary_up replica_up engines_fail redis_fails of
     (Some m, ev) \<Rightarrow> Served \<notin> set ev
       \<and> (\<not> primary_up \<or> mail_from ms = [] \<or> mail_port ms = 0 \<or> mail_server ms = [] \<or> secret = [] \<or> algorithm = [])
   | (None, ev) \<Rightarrow> primary_up \<and> Served \<in> set ev
       \<and> (if engines_fail then CloseFailed ''database engines'' else Closed ''database engines'') \<in> set ev
       \<and> last ev = (if redis_fails then CloseFailed ''redis'' else Closed ''redis'')"
  by (auto simp: lifespan_def shut_down_def check_database_def check_mail_config_def check_jwt_config_def
      missing_names_def Let_def)

end
