(* ===== verification/Api.thy ===== *)
theory Api
  imports RouteProps Operations
begin

section \<open>The API as a whole\<close>

text \<open>
  The table of routes that \<open>main.py\<close> and \<open>core/api_versions.py\<close> put together from the routers, how a
  request finds its endpoint in it, and what the endpoint then does. Documentation, metrics and the
  redirection of trailing slashes are the framework's and left out. Whether a client has used up
  the rate of a limited endpoint is slowapi's decision, and an argument.
\<close>

subsection \<open>The routers\<close>

datatype endpoint =
  Login | Refresh | Logout | VerifyEmail | ResendVerification | ForgotPassword | ResetPassword
| CreateUser | GetUser | UpdateUser | DeleteUser | ListUsers
| ListDead | GetDead | RetryDead | DeleteDead | PurgeDead
| Liveness | Readiness | Workers

record route =
  rt_verb :: string
  rt_path :: string
  rt_endpoint :: endpoint
  rt_limited :: bool

definition route :: "string \<Rightarrow> string \<Rightarrow> endpoint \<Rightarrow> route" where
  "route verb p e = \<lparr>rt_verb = verb, rt_path = p, rt_endpoint = e, rt_limited = False\<rparr>"

text \<open>\<open>@limiter.limit(...)\<close>.\<close>

definition limited :: "route \<Rightarrow> route" where
  "limited r = r\<lparr>rt_limited := True\<rparr>"

text \<open>A router's prefix, its own or the one it is included under, comes before its paths.\<close>

definition include_router :: "string \<Rightarrow> route list \<Rightarrow> route list" where
  "include_router pre routes = map (\<lambda>r. r\<lparr>rt_path := pre @ rt_path r\<rparr>) routes"

definition auth_router :: "route list" where
  "auth_router = include_router ''/auth''
     [limited (route ''POST'' ''/login'' Login), limited (route ''POST'' ''/refresh'' Refresh),
      route ''POST'' ''/logout'' Logout, limited (route ''GET'' ''/verify-email'' VerifyEmail),
      limited (route ''POST'' ''/resend-verification'' ResendVerification),
      limited (route ''POST'' ''/forgot-password'' ForgotPassword),
      limited (route ''POST'' ''/reset-password'' ResetPassword)]"

definition user_router :: "route list" where
  "user_router = include_router ''/users''
     [limited (route ''POST'' [] CreateUser), route ''GET'' ''/me'' GetUser, route ''PATCH'' ''/me'' UpdateUser,
      route ''DELETE'' ''/me'' DeleteUser, route ''GET'' [] ListUsers]"

definition dlq_router :: "route list" where
  "dlq_router = include_router ''/api/admin/tasks/dlq''
     [route ''GET'' [] ListDead, route ''GET'' ''/{job_id}'' GetDead, route ''POST'' ''/{job_id}/retry'' RetryDead,
      route ''DELETE'' ''/{job_id}'' DeleteDead, route ''POST'' ''/purge'' PurgeDead]"

definition health_router :: "route list" where
  "health_router = include_router ''/health''
     [route ''GET'' ''/live'' Liveness, route ''GET'' ''/ready'' Readiness, route ''GET'' ''/workers'' Workers]"

definition v1_router :: "route list" where
  "v1_router = include_router ''/api/v1'' (auth_router @ user_router)"

definition api_routes :: "route list" where
  "api_routes = health_router @ dlq_router @ v1_router"

subsection \<open>Finding the endpoint\<close>

text \<open>
  A path template is matched segment by segment; a parameter takes one segment that is not empty.
  The first route that matches path and method is taken; a path that matches only under other
  methods is answered 405, any other one 404.
\<close>

definition template_of :: "string \<Rightarrow> string option list" where
  "template_of p = map (\<lambda>seg. if startswith seg ''{'' then None else Some seg) (split_on (CHR ''/'') p)"

fun template_matches :: "string option list \<Rightarrow> string list \<Rightarrow> bool" where
  "template_matches [] [] = True"
| "template_matches (Some s # ts) (x # xs) = (s = x \<and> template_matches ts xs)"
| "template_matches (None # ts) (x # xs) = (x \<noteq> [] \<and> template_matches ts xs)"
| "template_matches _ _ = False"

definition route_matches :: "route \<Rightarrow> string \<Rightarrow> bool" where
  "route_matches r p \<longleftrightarrow> template_matches (template_of (rt_path r)) (split_on (CHR ''/'') p)"

datatype resolution = Found route | MethodNotAllowed | NotFound

definition resolve :: "route list \<Rightarrow> string \<Rightarrow> string \<Rightarrow> resolution" where
  "resolve routes verb p =
     (case find (\<lambda>r. rt_verb r = verb \<and> route_matches r p) routes of
        Some r \<Rightarrow> Found r
      | None \<Rightarrow> if list_ex (\<lambda>r. route_matches r p) routes then MethodNotAllowed else NotFound)"

subsection \<open>Requests\<close>

text \<open>
  The parts of the deployment, and what the framework has read from a request: its path and query
  parameters and its body, of which an endpoint takes what it declares. A body that is no JSON is
  refused before the dependencies run, values that are not what is declared only after them. The
  clocks, fresh identifiers and the salt are the ones the request draws, and \<open>cl_limit\<close> is what
  slowapi raises if the endpoint is limited.
\<close>

datatype input = Unreadable "validation_error list" | Misfit "validation_error list" | Valid

record app_env =
  ae_authx :: authx
  ae_auth :: auth_env
  ae_fmt :: "time \<Rightarrow> string"
  ae_page_users :: "user_row list \<Rightarrow> user_row list"
  ae_page_dead :: "dead_row list \<Rightarrow> dead_row list"
  ae_ready :: "int \<times> json"
  ae_workers :: "world \<Rightarrow> int \<times> json"
  ae_revoked_text :: string

record call =
  cl_input :: input
  cl_limit :: "raised option"
  cl_email :: string
  cl_password :: string
  cl_token :: string
  cl_user :: create_user_request
  cl_changes :: update_user_request
  cl_job_id :: uuid
  cl_unresolved_only :: bool
  cl_before :: "time option"
  cl_only_retried :: bool
  cl_now :: "nat \<Rightarrow> nat \<Rightarrow> time"
  cl_rnow :: "nat \<Rightarrow> nat \<Rightarrow> time"
  cl_ids :: "nat \<Rightarrow> uuid"
  cl_salt :: string

definition status_reply :: "int \<times> json \<Rightarrow> reply" where
  "status_reply sb = \<lparr>rp_status = fst sb, rp_body = snd sb, rp_cookie = KeepCookie\<rparr>"

definition run_endpoint :: "app_env \<Rightarrow> call \<Rightarrow> request \<Rightarrow> endpoint \<Rightarrow> reply io" where
  "run_endpoint app cl req e =
     (let ax = ae_authx app; env = ae_auth app; fmt = ae_fmt app; now = cl_now cl; rnow = cl_rnow cl; ids = cl_ids cl in
      case e of
        Login \<Rightarrow> login_route ax env (cl_email cl) (cl_password cl) (now 0) (ids 0)
      | Refresh \<Rightarrow> refresh_route ax env (now 0) (rnow 0) req
      | Logout \<Rightarrow> logout_route ax (now 0) (rnow 0) ids req
      | VerifyEmail \<Rightarrow> verify_email_route env (cl_token cl) (now 0) (ids 0)
      | ResendVerification \<Rightarrow> resend_verification_route env (cl_email cl) (now 0) (ids 0) (ids 1)
      | ForgotPassword \<Rightarrow> forgot_password_route env (cl_email cl) (now 0) (ids 0) (ids 1)
      | ResetPassword \<Rightarrow> reset_password_route env (cl_token cl) (cl_password cl) (cl_salt cl) (now 0) (ids 0)
      | CreateUser \<Rightarrow> create_user_route env fmt (cl_user cl) ids (cl_salt cl) (now 0)
      | GetUser \<Rightarrow> get_user_route ax fmt (now 0) (rnow 0) req
      | UpdateUser \<Rightarrow> update_user_route ax env fmt (cl_changes cl) (cl_salt cl) (now 0) (rnow 0) req
      | DeleteUser \<Rightarrow> delete_user_route ax env (now 0) (rnow 0) ids req
      | ListUsers \<Rightarrow> list_users_route ax (\<lambda>_. ae_page_users app) fmt () (now 0) (rnow 0) req
      | ListDead \<Rightarrow> list_dead_route ax (\<lambda>_. ae_page_dead app) fmt () (cl_unresolved_only cl) now rnow req
      | GetDead \<Rightarrow> get_dead_route ax fmt (cl_job_id cl) now rnow req
      | RetryDead \<Rightarrow> retry_dead_route ax (cl_job_id cl) (ids 0) now rnow req
      | DeleteDead \<Rightarrow> delete_dead_route ax (cl_job_id cl) now rnow req
      | PurgeDead \<Rightarrow> purge_dead_route ax (cl_before cl) (cl_only_retried cl) now rnow req
      | Liveness \<Rightarrow> ret (status_reply liveness)
      | Readiness \<Rightarrow> ret (status_reply (ae_ready app))
      | Workers \<Rightarrow> (\<lambda>w. (Inr (status_reply (ae_workers app w)), w)))"

text \<open>The dependencies of an endpoint, which run also before a request is rejected as invalid.\<close>

definition run_dependencies :: "app_env \<Rightarrow> call \<Rightarrow> request \<Rightarrow> endpoint \<Rightarrow> unit io" where
  "run_dependencies app cl req e =
     (let ax = ae_authx app; now = cl_now cl; rnow = cl_rnow cl in
      if e = Refresh then request_session (chain (token_required ax ''refresh'' ''cookies'' (now 0) (rnow 0) req) (\<lambda>_. ret ()))
      else if e \<in> {Logout, DeleteUser} then request_session (chain (auth_session_dep ax (now 0) (rnow 0) req) (\<lambda>_. ret ()))
      else if e = GetUser then request_session (chain (get_current_user ax (now 0) (rnow 0) req) (\<lambda>_. ret ()))
      else if e = UpdateUser then request_session (chain (access_required ax (now 0) (rnow 0) req) (\<lambda>_. ret ()))
      else if e = ListUsers then chain (scopes_dep ax [''admin:read''] (now 0) (rnow 0) req) (\<lambda>_. request_session (ret ()))
      else if e \<in> {ListDead, GetDead} then dlq_read ax now rnow req (ret ())
      else if e \<in> {RetryDead, DeleteDead, PurgeDead} then dlq_write ax now rnow req (ret ())
      else if e \<in> {Liveness, Readiness, Workers} then ret ()
      else request_session (ret ()))"

text \<open>
  The class by which the handlers know an exception. What an unexpected one says is never sent.
\<close>

definition raised_of :: "string \<Rightarrow> exc \<Rightarrow> raised" where
  "raised_of revoked_text e =
     (case e of
        Domain d \<Rightarrow> RaisedDomain d
      | JWTDecodeError t \<Rightarrow> RaisedAuthX {JWTDecodeErrorA} t
      | RevokedTokenError \<Rightarrow> RaisedAuthX {} revoked_text
      | AuthXError t \<Rightarrow> RaisedAuthX {} t
      | _ \<Rightarrow> RaisedOther [])"

definition leaving :: "app_env \<Rightarrow> ('a \<Rightarrow> raised + 'b) \<Rightarrow> 'a io \<Rightarrow> world \<Rightarrow> (raised + 'b) \<times> world" where
  "leaving app f m w =
     (case m w of (Inl x, w') \<Rightarrow> (Inl (raised_of (ae_revoked_text app) x), w') | (Inr y, w') \<Rightarrow> (f y, w'))"

text \<open>What a request comes to: the reply of its endpoint or what is raised on the way.\<close>

definition handle :: "app_env \<Rightarrow> call \<Rightarrow> request \<Rightarrow> world \<Rightarrow> (raised + reply) \<times> world" where
  "handle app cl req w =
     (case resolve api_routes (req_method req) (req_path req) of
        NotFound \<Rightarrow> (Inl (RaisedHttp 404 (JStr ''Not Found'')), w)
      | MethodNotAllowed \<Rightarrow> (Inl (RaisedHttp 405 (JStr ''Method Not Allowed'')), w)
      | Found r \<Rightarrow>
          (let dependencies = run_dependencies app cl req (rt_endpoint r) in
           case cl_input cl of
             Unreadable es \<Rightarrow> (Inl (RaisedValidation es), w)
           | Misfit es \<Rightarrow> leaving app (\<lambda>_. Inl (RaisedValidation es)) dependencies w
           | Valid \<Rightarrow>
               (case cl_limit cl of
                  Some x \<Rightarrow>
                    if rt_limited r then leaving app (\<lambda>_. Inl x) dependencies w
                    else leaving app Inr (run_endpoint app cl req (rt_endpoint r)) w
                | None \<Rightarrow> leaving app Inr (run_endpoint app cl req (rt_endpoint r)) w)))"

lemma handle_Found:
  assumes "handle app cl req w = (a, w')" and "resolve api_routes (req_method req) (req_path req) = Found r"
  obtains (unread) es where "cl_input cl = Unreadable es" "a = Inl (RaisedValidation es)" "w' = w"
  | (refused) x where "leaving app (\<lambda>_. Inl x) (run_dependencies app cl req (rt_endpoint r)) w = (a, w')"
  | (ran) "leaving app Inr (run_endpoint app cl req (rt_endpoint r)) w = (a, w')"
proof (cases "cl_input cl")
  case (Unreadable es)
  with assms show ?thesis by (simp add: handle_def unread)
next
  case (Misfit es)
  with assms refused show ?thesis by (simp add: handle_def)
next
  case Valid
  note run = assms [unfolded handle_def] Valid
  show ?thesis
  proof (cases "cl_limit cl")
    case None
    with run show ?thesis by (simp add: ran)
  next
    case (Some x)
    show ?thesis
    proof (cases "rt_limited r")
      case True
      with run Some refused show ?thesis by simp
    next
      case False
      with run Some show ?thesis by (simp add: ran)
    qed
  qed
qed

subsection \<open>One route for a request\<close>

fun templates_meet :: "string option list \<Rightarrow> string option list \<Rightarrow> bool" where
  "templates_meet [] [] = True"
| "templates_meet (a # as) (b # bs) = ((a = None \<or> b = None \<or> a = b) \<and> templates_meet as bs)"
| "templates_meet _ _ = False"

lemma matches_meet: "template_matches s p \<Longrightarrow> template_matches t p \<Longrightarrow> templates_meet s t"
proof (induction s p arbitrary: t rule: template_matches.induct)
  case (2 a ts x xs)
  then show ?case by (cases t; cases "hd t") auto
next
  case (3 ts x xs)
  then show ?case by (cases t; cases "hd t") auto
qed (auto elim: template_matches.elims)

lemma routes_apart:
  "list_all (\<lambda>r. list_all (\<lambda>q. q = r \<or> rt_verb q \<noteq> rt_verb r \<or> \<not> templates_meet (template_of (rt_path r)) (template_of (rt_path q)))
     api_routes) api_routes"
  by code_simp

text \<open>No request is answered by two routes, so their order does not matter.\<close>

lemma one_route:
  assumes "r \<in> set api_routes" and "q \<in> set api_routes" and "route_matches r p" and "route_matches q p"
    and "rt_verb r = rt_verb q"
  shows "r = q"
proof -
  have "q = r \<or> rt_verb q \<noteq> rt_verb r \<or> \<not> templates_meet (template_of (rt_path r)) (template_of (rt_path q))"
    using routes_apart assms(1,2) by (simp only: list_all_iff)
  with assms(3-5) matches_meet show ?thesis by (auto simp: route_matches_def)
qed

lemma resolve_FoundD:
  assumes "resolve routes verb p = Found r"
  shows "r \<in> set routes \<and> rt_verb r = verb \<and> route_matches r p"
proof -
  have found: "find P xs = Some r \<Longrightarrow> r \<in> set xs \<and> P r" for P and xs :: "route list" and r
    by (induction xs) (auto split: if_splits)
  show ?thesis
    using assms by (auto simp: resolve_def dest!: found split: option.splits if_splits)
qed

text \<open>The link in the mail for a new account is served; the one in the mail for a reset is not.\<close>

lemma verification_link_served:
  "resolve api_routes ''GET'' ''/api/v1/auth/verify-email''
     = Found (limited (route ''GET'' ''/api/v1/auth/verify-email'' VerifyEmail))"
  by code_simp

lemma reset_link_not_served: "resolve api_routes ''GET'' ''/api/v1/auth/reset-password'' = MethodNotAllowed"
  by code_simp

subsection \<open>Requests that are turned away\<close>

text \<open>\<open>barred m\<close>: \<open>m\<close> fails in every world and leaves what is committed alone.\<close>

definition barred :: "'a io \<Rightarrow> bool" where
  "barred m \<longleftrightarrow> (\<forall>w. \<exists>e w'. m w = (Inl e, w') \<and> committed (w_db w') = committed (w_db w))"

lemma token_required_frame: "keeps (db_frame same_committed) (token_required ax ty loc n m req)"
  unfolding token_required_def
  by (auto split: sum.split intro!: world_frame.keeps_intros revoked_check_frame)
     (simp_all add: keeps_def db_frame_def)

lemma barred_token:
  assumes "\<And>t token. \<exists>e. ax_verify ax t ''access'' ''headers'' req token = Inl e"
  shows "barred (access_required ax n m req)"
  unfolding barred_def
proof
  fix w
  obtain r w' where run: "access_required ax n m req w = (r, w')" by (rule prod.exhaust)
  have "\<exists>e. fst (access_required ax n m req w) = Inl e"
  proof (cases "ax_token ax ''access'' ''headers'' req")
    case (Inr token)
    obtain e where "ax_verify ax (n 4) ''access'' ''headers'' req token = Inl e" using assms by blast
    with Inr show ?thesis
      by (auto simp: token_required_def chain_def raise_def of_sum_def split: sum.split prod.split)
  qed (simp add: token_required_def)
  with run keepsD [OF token_required_frame run]
  show "\<exists>e w'. access_required ax n m req w = (Inl e, w') \<and> committed (w_db w') = committed (w_db w)"
    by (auto simp: db_frame_def)
qed

lemma barred_chain: "barred m \<Longrightarrow> barred (chain m f)"
  unfolding barred_def by (metis chain_Inl)

lemma barred_session: "barred m \<Longrightarrow> barred (request_session m)"
  unfolding barred_def
proof
  fix w :: world
  let ?w = "w\<lparr>w_db := (w_db w)\<lparr>force_primary := False, working := committed (w_db w), pending := False\<rparr>\<rparr>"
  assume "\<forall>w. \<exists>e w'. m w = (Inl e, w') \<and> committed (w_db w') = committed (w_db w)"
  then obtain e w' where "m ?w = (Inl e, w')" "committed (w_db w') = committed (w_db ?w)" by blast
  then show "\<exists>e w'. request_session m w = (Inl e, w') \<and> committed (w_db w') = committed (w_db w)"
    by (simp add: request_session_def ensure_def attempt_def chain_def on_db_def rollback_def raise_def)
qed

lemmas barred_intros = barred_session barred_chain barred_token

definition public_endpoints :: "endpoint list" where
  "public_endpoints = [Login, Refresh, VerifyEmail, ResendVerification, ForgotPassword, ResetPassword, CreateUser,
     Liveness, Readiness, Workers]"

lemma barred_endpoint:
  assumes "\<And>t token. \<exists>e. ax_verify (ae_authx app) t ''access'' ''headers'' req token = Inl e"
    and "e \<notin> set public_endpoints"
  shows "barred (run_endpoint app cl req e)" and "barred (run_dependencies app cl req e)"
  using assms(2)
  by (cases e; simp add: run_endpoint_def run_dependencies_def public_endpoints_def Let_def logout_route_def get_user_route_def
      update_user_route_def delete_user_route_def list_users_route_def list_dead_route_def get_dead_route_def
      retry_dead_route_def delete_dead_route_def purge_dead_route_def dlq_read_def dlq_write_def scopes_dep_def
      auth_session_dep_def get_current_user_def; intro barred_intros assms(1))+

lemma barred_leaving:
  assumes "barred m" and "leaving app f m w = (a, w')"
  shows "(\<exists>x. a = Inl x) \<and> committed (w_db w') = committed (w_db w)"
proof -
  obtain e u where "m w = (Inl e, u)" "committed (w_db u) = committed (w_db w)"
    using assms(1) unfolding barred_def by blast
  with assms(2) show ?thesis by (auto simp: leaving_def)
qed

text \<open>
  C6: Without an access token that verifies, nothing but the public endpoints can be reached:
  whatever the request is, valid or not, limited or not, and whatever Redis answers, an endpoint
  outside that list gives no reply but ends in an exception, and the database is as it was.
\<close>

theorem only_public_without_token:
  assumes "\<And>t token. \<exists>e. ax_verify (ae_authx app) t ''access'' ''headers'' req token = Inl e"
    and "handle app cl req w = (a, w')"
    and "resolve api_routes (req_method req) (req_path req) = Found r" and "rt_endpoint r \<notin> set public_endpoints"
  shows "(\<exists>x. a = Inl x) \<and> committed (w_db w') = committed (w_db w)"
  using assms(2,3)
  by (rule handle_Found) (auto dest: barred_leaving [rotated, OF _ barred_endpoint(1) [OF assms(1,4)]]
      barred_leaving [rotated, OF _ barred_endpoint(2) [OF assms(1,4)]])

subsection \<open>Requests that only read\<close>

lemma request_session_frame:
  assumes "keeps (db_frame same_committed) body"
  shows "keeps (db_frame same_committed) (request_session body)"
proof (rule keepsI)
  fix w :: world
  let ?w = "w\<lparr>w_db := (w_db w)\<lparr>force_primary := False, working := committed (w_db w), pending := False\<rparr>\<rparr>"
  obtain r w' where run: "body ?w = (r, w')" by (rule prod.exhaust)
  with keepsD [OF assms run] show "db_frame same_committed w (snd (request_session body w))"
    by (cases r) (simp_all add: request_session_def ensure_def attempt_def chain_def on_db_def rollback_def raise_def db_frame_def ret_def)
qed

lemma of_sum_frame: "keeps (db_frame same_committed) (of_sum x)"
  by (cases x) (simp_all add: keeps_def db_frame_def)

lemma scopes_dep_frame: "keeps (db_frame same_committed) (scopes_dep ax required n m req)"
  unfolding scopes_dep_def by (intro world_frame.keeps_intros token_required_frame of_sum_frame)

lemma reading_frames:
  "keeps (db_frame same_committed) (on_db (user_get i b))"
  "keeps (db_frame same_committed) (on_db (user_list apaginate params))"
  "keeps (db_frame same_committed) (on_db (dlq_list apaginate' params' only))"
  "keeps (db_frame same_committed) (on_db (dlq_service_get j))"
  unfolding user_list_def dlq_list_def dlq_service_get_def
  by (intro on_db_frame frame_intros committed_frame.keeps_session_intros | simp split: option.split)+

lemma dlq_read_frame:
  "keeps (db_frame same_committed) h \<Longrightarrow> keeps (db_frame same_committed) (dlq_read ax now rnow req h)"
  unfolding dlq_read_def by (intro world_frame.keeps_intros scopes_dep_frame request_session_frame)

lemma current_user_frame: "keeps (db_frame same_committed) (get_current_user ax n m req)"
  unfolding get_current_user_def subject_uuid_def
  by (intro world_frame.keeps_intros token_required_frame reading_frames)

definition reading_endpoints :: "endpoint list" where
  "reading_endpoints = [GetUser, ListUsers, ListDead, GetDead, Liveness, Readiness, Workers]"

lemma reading_endpoint_frame:
  assumes "e \<in> set reading_endpoints"
  shows "keeps (db_frame same_committed) (run_endpoint app cl req e)"
    and "keeps (db_frame same_committed) (run_dependencies app cl req e)"
proof -
  note rules = world_frame.keeps_intros request_session_frame current_user_frame scopes_dep_frame dlq_read_frame reading_frames
  have plain: "keeps (db_frame same_committed) (\<lambda>w. (f w, w))" for f :: "world \<Rightarrow> exc + 'x"
    by (simp add: keeps_def db_frame_def)
  show "keeps (db_frame same_committed) (run_endpoint app cl req e)"
    using assms
    by (auto simp: reading_endpoints_def run_endpoint_def Let_def get_user_route_def list_users_route_def list_dead_route_def
        get_dead_route_def plain intro!: rules)
  show "keeps (db_frame same_committed) (run_dependencies app cl req e)"
    using assms by (auto simp: reading_endpoints_def run_dependencies_def Let_def intro!: rules)
qed

lemma leaving_frame:
  assumes "keeps (db_frame same_committed) m" and "leaving app f m w = (a, w')"
  shows "committed (w_db w') = committed (w_db w)"
proof -
  obtain x u where run: "m w = (x, u)" by (rule prod.exhaust)
  with keepsD [OF assms(1) run] assms(2) show ?thesis by (auto simp: leaving_def db_frame_def split: sum.splits)
qed

text \<open>
  C24: Reading is safe: a GET request, to whatever path and by whomever, changes nothing in the
  database, but for the one that follows a verification link.
\<close>

theorem get_requests_only_read:
  assumes "req_method req = ''GET''"
    and "\<And>r. resolve api_routes ''GET'' (req_path req) = Found r \<Longrightarrow> rt_endpoint r \<noteq> VerifyEmail"
    and "handle app cl req w = (a, w')"
  shows "committed (w_db w') = committed (w_db w)"
proof (cases "resolve api_routes ''GET'' (req_path req)")
  case (Found r)
  have "list_all (\<lambda>r. rt_verb r \<noteq> ''GET'' \<or> rt_endpoint r \<in> set (VerifyEmail # reading_endpoints)) api_routes" by code_simp
  with resolve_FoundD [OF Found] assms(2) [OF Found] have e: "rt_endpoint r \<in> set reading_endpoints"
    by (auto simp: list_all_iff)
  have "resolve api_routes (req_method req) (req_path req) = Found r" using Found assms(1) by simp
  with assms(3) show ?thesis
    by (rule handle_Found) (auto dest: leaving_frame [OF reading_endpoint_frame(1) [OF e]]
        leaving_frame [OF reading_endpoint_frame(2) [OF e]])
qed (use assms in \<open>auto simp: handle_def\<close>)

end
