(* ===== verification/Service.thy ===== *)
theory Service
  imports Api Middlewares
begin

section \<open>The service: a request from the middlewares to the database and back\<close>

text \<open>
  \<open>app\<close> of \<open>main.py\<close> as a whole: the stack of middlewares and exception handlers around the routes of
  Api. How a body is rendered as JSON and how AuthX writes its cookies are parameters, as are the
  random UUID of the correlation middleware and the number of statements the request has run.
\<close>

record deployment =
  dp_app :: app_env
  dp_environment :: string
  dp_inject :: "(response \<Rightarrow> response) option"
  dp_render :: "json \<Rightarrow> string"
  dp_cookies :: "cookie_action \<Rightarrow> (string \<times> string) list"

definition reply_events :: "deployment \<Rightarrow> reply \<Rightarrow> event list" where
  "reply_events d r =
     [Send (Start (rp_status r) (dp_cookies d (rp_cookie r) @ [(''content-type'', ''application/json'')])),
      Send (Body (Bytes (if rp_status r = 204 then [] else dp_render d (rp_body r))))]"

definition routes_app :: "deployment \<Rightarrow> nat \<Rightarrow> raised + reply \<Rightarrow> raised app" where
  "routes_app d queries outcome rid req =
     (case outcome of
        Inl x \<Rightarrow> (replicate queries Query, Some x)
      | Inr r \<Rightarrow> (replicate queries Query @ reply_events d r, None))"

definition serve ::
  "deployment \<Rightarrow> uuid \<Rightarrow> nat \<Rightarrow> call \<Rightarrow> string \<Rightarrow> request \<Rightarrow> world \<Rightarrow> (event list \<times> raised option) \<times> world" where
  "serve d fresh_id queries cl rid req w =
     (case handle (dp_app d) cl req w of (outcome, w') \<Rightarrow>
        (app_stack (dp_environment d) (dp_inject d) fresh_id (routes_app d queries outcome) rid req, w'))"

definition outcome_status :: "raised + reply \<Rightarrow> int" where
  "outcome_status outcome = (case outcome of Inl x \<Rightarrow> raised_status x | Inr r \<Rightarrow> rp_status r)"

text \<open>An exception that no handler of its own takes.\<close>

definition unexpected :: "raised + reply \<Rightarrow> bool" where
  "unexpected outcome \<longleftrightarrow> (case outcome of Inl (RaisedOther _) \<Rightarrow> True | _ \<Rightarrow> False)"

text \<open>slowapi's \<open>_inject_headers\<close> adds headers to a response and leaves its status alone.\<close>

definition injects_headers_only :: "(response \<Rightarrow> response) option \<Rightarrow> bool" where
  "injects_headers_only inject \<longleftrightarrow> (case inject of None \<Rightarrow> True | Some f \<Rightarrow> \<forall>r. rsp_status (f r) = rsp_status r)"

lemma starts_queries [simp]: "starts (replicate n Query) = []"
  by (induction n) simp_all

lemma problem_response_status [simp]: "rsp_status (problem_response rid req st d ty ti hs ips ext) = st"
  by (simp add: problem_response_def Let_def)

lemma handler_status:
  assumes "injects_headers_only inject"
  shows "rsp_status (handle_exception inject rid req x) = raised_status x"
  using assms
  by (auto simp: injects_headers_only_def handle_exception_def raised_status_def domain_exception_handler_def http_exception_handler_def
      validation_exception_handler_def rate_limit_exception_handler_def authx_exception_handler_def
      unhandled_exception_handler_def Let_def split: raised.split option.split)

text \<open>What leaves the exception handlers: one answer with the status of the outcome, unless it is unexpected.\<close>

lemma handled_routes:
  assumes "injects_headers_only (dp_inject d)"
  shows "\<exists>trace err. exception_middleware (dp_inject d) (routes_app d queries outcome) rid req = (trace, err)
     \<and> (if unexpected outcome then starts trace = [] \<and> err \<noteq> None
        else map fst (starts trace) = [outcome_status outcome] \<and> err = None)"
proof (cases outcome)
  case (Inl x)
  then show ?thesis using handler_status [OF assms]
    by (cases x) (simp_all add: exception_middleware_def routes_app_def unexpected_def outcome_status_def response_events_def)
next
  case (Inr r)
  then show ?thesis
    by (simp add: exception_middleware_def routes_app_def unexpected_def outcome_status_def reply_events_def)
qed

lemma internal_error_status [simp]: "map fst (starts (internal_error rid req)) = [500]"
  by (simp add: internal_error_def response_events_def)


text \<open>
  The handler of HTTP exceptions does not pass their headers on: a 405 has no \<open>Allow\<close>, although the
  framework's exception carries it.
\<close>

lemma method_not_allowed_without_allow:
  "map_of (rsp_headers (handle_exception inject rid req (RaisedHttp 405 (JStr ''Method Not Allowed'')))) ''allow'' = None"
  by (simp add: handle_exception_def http_exception_handler_def problem_response_def Let_def)

end
