(* ===== verification/MigrationEnv.thy ===== *)
theory MigrationEnv
  imports MigrationLock
begin

section \<open>alembic/env.py: one migrating process\<close>

text \<open>
  \<open>run_migrations_online\<close> step by step on its connection: what is committed, what the open
  transaction has made of it (a catalog and the number of revisions in it), whether a transaction is
  open, and whether the session holds the advisory lock. Every statement opens a transaction if there
  is none, and may find the connection broken (\<open>cn_budget\<close> statements get through). Whether the lock
  is free is an argument; MigrationLock has the processes that compete for it. Offline mode prints
  SQL and touches no database.
\<close>

datatype migration_error = ConnectionLost | DdlFailed ddl_error

record connection =
  cn_committed :: "catalog \<times> nat"
  cn_working :: "catalog \<times> nat"
  cn_in_tx :: bool
  cn_locked :: bool
  cn_budget :: "nat option"

type_synonym 'a on_connection = "(connection, migration_error, 'a) act"

definition send_statement :: "unit on_connection" where
  "send_statement cn =
     (case cn_budget cn of
        None \<Rightarrow> (Inr (), cn\<lparr>cn_in_tx := True\<rparr>)
      | Some 0 \<Rightarrow> (Inl ConnectionLost, cn)
      | Some (Suc n) \<Rightarrow> (Inr (), cn\<lparr>cn_in_tx := True, cn_budget := Some n\<rparr>))"

definition connection_commit :: "unit on_connection" where
  "connection_commit cn =
     (if cn_in_tx cn
      then chain send_statement (\<lambda>_. modify (\<lambda>c. c\<lparr>cn_committed := cn_working c, cn_in_tx := False\<rparr>)) cn
      else (Inr (), cn))"

definition connection_rollback :: "connection \<Rightarrow> connection" where
  "connection_rollback cn = cn\<lparr>cn_working := cn_committed cn, cn_in_tx := False\<rparr>"

text \<open>The end of a session drops its lock.\<close>

definition connection_close :: "connection \<Rightarrow> connection" where
  "connection_close cn = (connection_rollback cn)\<lparr>cn_locked := False\<rparr>"

subsection \<open>core/migration\_lock.py\<close>

definition try_lock :: "bool \<Rightarrow> bool on_connection" where
  "try_lock free = chain send_statement (\<lambda>_. chain (modify (\<lambda>c. c\<lparr>cn_locked := free \<or> cn_locked c\<rparr>)) (\<lambda>_. ret free))"

text \<open>The part after the \<open>yield\<close> is skipped when the body raises.\<close>

definition migration_lock :: "bool \<Rightarrow> 'a on_connection \<Rightarrow> 'a on_connection" where
  "migration_lock free body =
     chain (try_lock free) (\<lambda>got.
     chain (if got then ret () else chain send_statement (\<lambda>_. modify (\<lambda>c. c\<lparr>cn_locked := True\<rparr>))) (\<lambda>_.
     chain connection_commit (\<lambda>_.
     chain body (\<lambda>x.
     chain send_statement (\<lambda>_.
     chain (modify (\<lambda>c. c\<lparr>cn_locked := False\<rparr>)) (\<lambda>_.
     chain connection_commit (\<lambda>_. ret x)))))))"

subsection \<open>env.py\<close>

text \<open>
  Alembic: \<open>configure\<close> notes whether a transaction is open already; if so, \<open>begin_transaction\<close> leaves
  it to whoever opened it. \<open>run_migrations\<close> takes the pending revisions in order and records each.
\<close>

definition configure :: "bool on_connection" where
  "configure cn = (Inr (cn_in_tx cn), cn)"

definition begin_transaction :: "bool \<Rightarrow> 'a on_connection \<Rightarrow> 'a on_connection" where
  "begin_transaction external body =
     (if external then body
      else attempt (chain (modify (\<lambda>c. c\<lparr>cn_in_tx := True\<rparr>)) (\<lambda>_. chain body (\<lambda>x. chain connection_commit (\<lambda>_. ret x))))
             (\<lambda>e. chain (modify connection_rollback) (\<lambda>_. raise e)))"

definition run_revision :: "revision \<Rightarrow> unit on_connection" where
  "run_revision r =
     chain send_statement (\<lambda>_ cn.
       case upgrade r (fst (cn_working cn)) of
         (Inl e, _) \<Rightarrow> (Inl (DdlFailed e), cn)
       | (Inr _, c) \<Rightarrow> (Inr (), cn\<lparr>cn_working := (c, snd (cn_working cn) + 1)\<rparr>))"

definition run_pending :: "unit on_connection" where
  "run_pending cn = each run_revision (drop (snd (cn_working cn)) history) cn"

definition run_migrations :: "bool \<Rightarrow> unit on_connection" where
  "run_migrations free = migration_lock free (chain configure (\<lambda>external. begin_transaction external run_pending))"

definition run_migrations_online :: "bool \<Rightarrow> nat option \<Rightarrow> catalog \<times> nat \<Rightarrow> (migration_error + unit) \<times> connection" where
  "run_migrations_online free budget db =
     ensure (run_migrations free) connection_close
       \<lparr>cn_committed = db, cn_working = db, cn_in_tx = False, cn_locked = False, cn_budget = budget\<rparr>"

subsection \<open>What it leaves\<close>

lemma send_Inr:
  "send_statement cn = (Inr (), cn') \<Longrightarrow> \<exists>b. cn' = cn\<lparr>cn_in_tx := True, cn_budget := b\<rparr> \<and> (cn_budget cn = None \<longrightarrow> b = None)"
  by (cases cn) (auto simp: send_statement_def split: option.splits nat.splits)

lemma send_Inl: "send_statement cn = (Inl e, cn') \<Longrightarrow> cn' = cn \<and> cn_budget cn \<noteq> None"
  by (auto simp: send_statement_def split: option.splits nat.splits)

lemma send_live: "cn_budget cn = None \<Longrightarrow> send_statement cn = (Inr (), cn\<lparr>cn_in_tx := True\<rparr>)"
  by (simp add: send_statement_def)

lemma revision_still: "run_revision r cn = (x, cn') \<Longrightarrow> cn_committed cn' = cn_committed cn"
  by (auto simp: run_revision_def chain_def dest!: send_Inr send_Inl split: prod.splits sum.splits)

lemma revision_Inr:
  "run_revision r cn = (Inr (), cn') \<Longrightarrow> cn_in_tx cn'
     \<and> (\<exists>c. upgrade r (fst (cn_working cn)) = (Inr (), c) \<and> cn_working cn' = (c, snd (cn_working cn) + 1))"
proof -
  assume run: "run_revision r cn = (Inr (), cn')"
  then obtain t where t: "send_statement cn = (Inr (), t)" by (auto simp: run_revision_def chain_eq_Inr_iff)
  obtain y c where c: "upgrade r (fst (cn_working t)) = (y, c)" by (rule prod.exhaust)
  with run t send_Inr [OF t] show ?thesis by (cases y) (auto simp: run_revision_def)
qed

lemma revisions_still: "each run_revision rs cn = (x, cn') \<Longrightarrow> cn_committed cn' = cn_committed cn"
proof (induction rs arbitrary: cn)
  case (Cons r rs)
  obtain y m where step: "run_revision r cn = (y, m)" by (rule prod.exhaust)
  with Cons revision_still [OF step] show ?case by (cases y) (auto simp: chain_def)
qed simp

lemma revisions_Inr:
  "each run_revision rs cn = (Inr (), cn') \<Longrightarrow> \<exists>c. each upgrade rs (fst (cn_working cn)) = (Inr (), c)
     \<and> cn_working cn' = (c, snd (cn_working cn) + length rs) \<and> (cn_in_tx cn \<longrightarrow> cn_in_tx cn')"
proof (induction rs arbitrary: cn)
  case Nil
  then show ?case by (cases "cn_working cn") simp
next
  case (Cons r rs)
  then obtain m where step: "run_revision r cn = (Inr (), m)" and rest: "each run_revision rs m = (Inr (), cn')"
    by (auto simp: chain_eq_Inr_iff)
  from revision_Inr [OF step] Cons.IH [OF rest] show ?case by (auto simp: chain_eq_Inr_iff)
qed

definition migrated_from :: "catalog \<times> nat \<Rightarrow> catalog \<times> nat \<Rightarrow> bool" where
  "migrated_from db db' \<longleftrightarrow> (\<exists>c. each upgrade (drop (snd db) history) (fst db) = (Inr (), c)
     \<and> db' = (c, snd db + length (drop (snd db) history)))"

lemma transaction_outcome:
  assumes "begin_transaction False run_pending cn = (x, cn')" and "cn_working cn = cn_committed cn"
  shows "(x = Inr () \<longrightarrow> migrated_from (cn_committed cn) (cn_committed cn') \<and> cn_working cn' = cn_committed cn')
    \<and> (x \<noteq> Inr () \<longrightarrow> cn_committed cn' = cn_committed cn)"
proof -
  let ?cn = "cn\<lparr>cn_in_tx := True\<rparr>"
  obtain y m where run: "run_pending ?cn = (y, m)" by (rule prod.exhaust)
  have m: "cn_committed m = cn_committed cn"
    using revisions_still run by (fastforce simp: run_pending_def)
  show ?thesis
  proof (cases y)
    case (Inl e)
    with assms(1) run m show ?thesis by (auto simp: begin_transaction_def connection_rollback_def)
  next
    case (Inr u)
    then have "run_pending ?cn = (Inr (), m)" using run by simp
    then obtain c where c: "each upgrade (drop (snd (cn_committed cn)) history) (fst (cn_committed cn)) = (Inr (), c)"
        "cn_working m = (c, snd (cn_committed cn) + length (drop (snd (cn_committed cn)) history))" "cn_in_tx m"
      using revisions_Inr [of "drop (snd (cn_committed cn)) history" ?cn m] assms(2) by (auto simp: run_pending_def)
    obtain z n where over: "send_statement m = (z, n)" by (rule prod.exhaust)
    show ?thesis
    proof (cases z)
      case (Inl e)
      with assms(1) run \<open>y = Inr u\<close> c over m send_Inl [of m e n] show ?thesis
        by (auto simp: begin_transaction_def connection_commit_def connection_rollback_def attempt_def chain_def)
    next
      case (Inr v)
      with assms(1) run \<open>y = Inr u\<close> c over send_Inr [of m n] show ?thesis
        by (auto simp: begin_transaction_def connection_commit_def migrated_from_def)
    qed
  qed
qed

lemma commit_Inr:
  "connection_commit cn = (Inr (), cn') \<Longrightarrow> cn_working cn = cn_committed cn \<Longrightarrow>
     cn_committed cn' = cn_committed cn \<and> cn_working cn' = cn_committed cn \<and> \<not> cn_in_tx cn'
     \<and> (cn_budget cn = None \<longrightarrow> cn_budget cn' = None)"
  by (auto simp: connection_commit_def chain_eq_Inr_iff dest!: send_Inr split: if_splits)

lemma commit_Inl: "connection_commit cn = (Inl e, cn') \<Longrightarrow> cn' = cn"
  by (auto simp: connection_commit_def chain_eq_Inl_iff dest: send_Inl split: if_splits)

text \<open>Up to the \<open>yield\<close>: the lock is held and no transaction is open, or nothing has happened.\<close>

definition acquire :: "bool \<Rightarrow> unit on_connection" where
  "acquire free =
     chain (try_lock free) (\<lambda>got.
     chain (if got then ret () else chain send_statement (\<lambda>_. modify (\<lambda>c. c\<lparr>cn_locked := True\<rparr>))) (\<lambda>_.
     connection_commit))"

definition release :: "unit on_connection" where
  "release = chain send_statement (\<lambda>_. chain (modify (\<lambda>c. c\<lparr>cn_locked := False\<rparr>)) (\<lambda>_. connection_commit))"

lemma migration_lock_parts:
  "migration_lock free body = chain (acquire free) (\<lambda>_. chain body (\<lambda>x. chain release (\<lambda>_. ret x)))"
  unfolding migration_lock_def acquire_def release_def by (simp only: chain_assoc)

lemma acquire_Inr:
  assumes "acquire free cn = (Inr (), cn')" and "cn_working cn = cn_committed cn"
  shows "cn_committed cn' = cn_committed cn \<and> cn_working cn' = cn_committed cn \<and> \<not> cn_in_tx cn'
    \<and> (cn_budget cn = None \<longrightarrow> cn_budget cn' = None)"
proof -
  obtain m where "connection_commit m = (Inr (), cn')" "cn_committed m = cn_committed cn"
      "cn_working m = cn_working cn" "cn_budget cn = None \<longrightarrow> cn_budget m = None"
    using assms(1) by (auto simp: acquire_def try_lock_def chain_eq_Inr_iff dest!: send_Inr split: if_splits)
  with commit_Inr assms(2) show ?thesis by fastforce
qed

lemma acquire_Inl: "acquire free cn = (Inl e, cn') \<Longrightarrow> cn_committed cn' = cn_committed cn"
  by (auto simp: acquire_def try_lock_def chain_eq_Inr_iff chain_eq_Inl_iff dest!: send_Inr send_Inl commit_Inl split: if_splits)

lemma release_committed:
  assumes "release cn = (x, cn')" and "cn_working cn = cn_committed cn"
  shows "cn_committed cn' = cn_committed cn"
proof (cases x)
  case (Inl e)
  with assms show ?thesis
    by (auto simp: release_def chain_eq_Inr_iff chain_eq_Inl_iff dest!: send_Inr send_Inl commit_Inl)
next
  case (Inr u)
  with assms(1) obtain m where "connection_commit m = (Inr (), cn')" "cn_committed m = cn_committed cn"
      "cn_working m = cn_working cn"
    by (auto simp: release_def chain_eq_Inr_iff dest!: send_Inr)
  with commit_Inr assms(2) show ?thesis by fastforce
qed

subsection \<open>When nothing fails\<close>

lemma revisions_live:
  "cn_budget cn = None \<Longrightarrow> each upgrade rs (fst (cn_working cn)) = (Inr (), c)
     \<Longrightarrow> \<exists>m. each run_revision rs cn = (Inr (), m) \<and> cn_budget m = None"
proof (induction rs arbitrary: cn)
  case (Cons r rs)
  then obtain d where d: "upgrade r (fst (cn_working cn)) = (Inr (), d)" "each upgrade rs d = (Inr (), c)"
    by (auto simp: chain_eq_Inr_iff)
  let ?m = "cn\<lparr>cn_in_tx := True, cn_working := (d, snd (cn_working cn) + 1)\<rparr>"
  have "run_revision r cn = (Inr (), ?m)" using Cons.prems(1) d(1) by (simp add: run_revision_def chain_def send_live)
  with Cons.IH [of ?m] Cons.prems(1) d(2) show ?case by (simp add: chain_def)
qed simp

lemma acquire_live: "cn_budget cn = None \<Longrightarrow> \<exists>m. acquire free cn = (Inr (), m)"
  by (simp add: acquire_def try_lock_def connection_commit_def chain_def send_live)

lemma release_live: "cn_budget cn = None \<Longrightarrow> \<exists>m. release cn = (Inr (), m)"
  by (simp add: release_def connection_commit_def chain_def send_live)

lemma pending_live:
  assumes "cn_budget cn = None" and "each upgrade (drop (snd (cn_working cn)) history) (fst (cn_working cn)) = (Inr (), c)"
  shows "\<exists>m. begin_transaction False run_pending cn = (Inr (), m) \<and> cn_budget m = None"
proof -
  obtain m where m: "run_pending (cn\<lparr>cn_in_tx := True\<rparr>) = (Inr (), m)" "cn_budget m = None"
    using revisions_live [of "cn\<lparr>cn_in_tx := True\<rparr>"] assms by (auto simp: run_pending_def)
  then show ?thesis by (simp add: begin_transaction_def attempt_def chain_def connection_commit_def send_live)
qed

subsection \<open>All or nothing\<close>

text \<open>With the lock held no transaction is open, so Alembic commits the one it opens.\<close>

lemma run_migrations_locked:
  assumes "acquire free cn = (Inr (), a)" and "\<not> cn_in_tx a" and "begin_transaction False run_pending a = (q, b)"
  shows "run_migrations free cn = (case q of Inl e \<Rightarrow> (Inl e, b) | Inr v \<Rightarrow> chain release (\<lambda>_. ret v) b)"
proof -
  have "chain configure (\<lambda>external. begin_transaction external run_pending) a = begin_transaction False run_pending a"
    using assms(2) by (simp add: chain_def configure_def)
  with assms(1,3) show ?thesis by (cases q) (simp_all add: run_migrations_def migration_lock_parts chain_def)
qed

lemma acquire_lost:
  assumes "acquire free cn = (Inl e, a)"
  shows "run_migrations free cn = (Inl e, a) \<and> cn_committed a = cn_committed cn \<and> cn_budget cn \<noteq> None"
  using assms acquire_Inl [OF assms] acquire_live [of cn free]
  by (auto simp: run_migrations_def migration_lock_parts chain_def)

text \<open>
  Wherever the connection breaks and whatever revision fails, afterwards either nothing is committed
  that was not before, or every pending revision is and they are recorded; the second if it ends
  well, which it does when the connection lives and the revisions apply.
\<close>

lemma online_migration_outcome:
  assumes "run_migrations_online free budget db = (x, cn)"
  shows "\<not> cn_locked cn \<and> \<not> cn_in_tx cn
    \<and> (cn_committed cn = db \<or> migrated_from db (cn_committed cn))
    \<and> (x = Inr () \<longrightarrow> migrated_from db (cn_committed cn))
    \<and> (budget = None \<and> fst (each upgrade (drop (snd db) history) (fst db)) = Inr () \<longrightarrow> x = Inr ())"
proof -
  let ?start = "\<lparr>cn_committed = db, cn_working = db, cn_in_tx = False, cn_locked = False, cn_budget = budget\<rparr>"
  obtain y m where run: "run_migrations free ?start = (y, m)" by (rule prod.exhaust)
  with assms have x: "x = y" and cn: "cn = connection_close m" by (simp_all add: run_migrations_online_def ensure_def)
  have closed: "\<not> cn_locked cn \<and> \<not> cn_in_tx cn \<and> cn_committed cn = cn_committed m"
    by (simp add: cn connection_close_def connection_rollback_def)
  obtain p a where got: "acquire free ?start = (p, a)" by (rule prod.exhaust)
  show ?thesis
  proof (cases p)
    case (Inl e)
    with got acquire_lost have "run_migrations free ?start = (Inl e, a) \<and> cn_committed a = db \<and> budget \<noteq> None"
      by fastforce
    with run closed x show ?thesis by auto
  next
    case (Inr u)
    then have got': "acquire free ?start = (Inr (), a)" using got by simp
    from acquire_Inr [OF this] have a: "cn_committed a = db" "cn_working a = db" "\<not> cn_in_tx a"
        "budget = None \<longrightarrow> cn_budget a = None" by simp_all
    obtain q b where tx: "begin_transaction False run_pending a = (q, b)" by (rule prod.exhaust)
    note outcome = transaction_outcome [OF tx] a
    have tail: "run_migrations free ?start = (case q of Inl e \<Rightarrow> (Inl e, b) | Inr v \<Rightarrow> chain release (\<lambda>_. ret v) b)"
      by (rule run_migrations_locked [OF got' a(3) tx])
    have live: "q = Inr () \<and> cn_budget b = None"
      if alive: "budget = None" "fst (each upgrade (drop (snd db) history) (fst db)) = Inr ()"
    proof -
      obtain c where "each upgrade (drop (snd db) history) (fst db) = (Inr (), c)" using alive(2) by (metis prod.collapse)
      with pending_live [of a c] a alive(1) tx show ?thesis by auto
    qed
    show ?thesis
    proof (cases q)
      case (Inl e)
      with tail run outcome closed x live show ?thesis by auto
    next
      case (Inr v)
      obtain z k where rel: "release b = (z, k)" by (rule prod.exhaust)
      have "y = z" "m = k" using tail run Inr rel by (cases z; simp add: chain_def)+
      moreover have "cn_committed k = cn_committed b" using release_committed [OF rel] outcome Inr by simp
      moreover have "z = Inr ()" if "cn_budget b = None" using release_live [OF that] rel by auto
      ultimately show ?thesis using outcome Inr closed x live by auto
    qed
  qed
qed

subsection \<open>One of many processes\<close>

lemma at_phase_simps [simp]:
  "mg_phase (at_phase p ph m) q = (if q = p then ph else mg_phase m q)" "mg_version (at_phase p ph m) = mg_version m"
  "mg_catalog (at_phase p ph m) = mg_catalog m" "mg_holder (at_phase p ph m) = mg_holder m"
  by (simp_all add: at_phase_def)

lemma at_phase_twice [simp]: "at_phase p x (at_phase p y m) = at_phase p x m"
  by (simp add: at_phase_def)

lemma revisions_steps:
  assumes "each upgrade (drop k history) c = (Inr (), d)" and "k \<le> length history"
  shows "lock_step\<^sup>*\<^sup>* (at_phase p (Running k c) m) (at_phase p (Running (length history) d) m)"
  using assms
proof (induction "length history - k" arbitrary: k c)
  case 0
  then show ?case by simp
next
  case (Suc n)
  then have k: "k < length history" by simp
  from Suc.prems(1) obtain e where e: "upgrade (history ! k) c = (Inr (), e)" "each upgrade (drop (Suc k) history) e = (Inr (), d)"
    by (auto simp: Cons_nth_drop_Suc [OF k, symmetric] chain_eq_Inr_iff)
  have "lock_step (at_phase p (Running k c) m) (at_phase p (Running (Suc k) e) m)"
    using lock_step.run_revision [of "at_phase p (Running k c) m" p k c e] k e(1) by simp
  moreover have "lock_step\<^sup>*\<^sup>* (at_phase p (Running (Suc k) e) m) (at_phase p (Running (length history) d) m)"
    using Suc.hyps(1) [of "Suc k" e] Suc.hyps(2) e(2) k by simp
  ultimately show ?case by (rule converse_rtranclp_into_rtranclp)
qed

text \<open>From taking the free lock to the committed history.\<close>

lemma migrated_steps:
  assumes "mg_phase m p = (if free then Starting else Waiting)" and "mg_holder m = None"
    and "mg_version m \<le> length history" and "each upgrade (drop (mg_version m) history) (mg_catalog m) = (Inr (), d)"
  shows "lock_step\<^sup>*\<^sup>* m (at_phase p Migrated (m\<lparr>mg_holder := Some p, mg_version := length history, mg_catalog := d\<rparr>))"
proof -
  let ?m = "m\<lparr>mg_holder := Some p\<rparr>"
  have take: "lock_step m (at_phase p Locked ?m)"
    using lock_step.try_free [of m p] lock_step.lock_free [of m p] assms(1,2) by (cases free) simp_all
  have start: "lock_step (at_phase p Locked ?m) (at_phase p (Running (mg_version m) (mg_catalog m)) ?m)"
    using lock_step.begin_run [of "at_phase p Locked ?m" p] by simp
  have run: "lock_step\<^sup>*\<^sup>* (at_phase p (Running (mg_version m) (mg_catalog m)) ?m) (at_phase p (Running (length history) d) ?m)"
    by (rule revisions_steps [OF assms(4,3)])
  have finish: "lock_step (at_phase p (Running (length history) d) ?m)
      (at_phase p Migrated (?m\<lparr>mg_version := length history, mg_catalog := d\<rparr>))"
    using lock_step.commit_run [of "at_phase p (Running (length history) d) ?m" p "length history" d]
    by (simp add: at_phase_def)
  from run finish have "lock_step\<^sup>*\<^sup>* (at_phase p (Running (mg_version m) (mg_catalog m)) ?m)
      (at_phase p Migrated (?m\<lparr>mg_version := length history, mg_catalog := d\<rparr>))" by (rule rtranclp.rtrancl_into_rtrancl)
  with take start show ?thesis by (simp add: converse_rtranclp_into_rtranclp)
qed

text \<open>
  C19: A process that runs \<open>alembic upgrade head\<close> is one of those that MigrationLock interleaves:
  whatever revision fails and wherever its connection breaks, what it leaves in the database is what
  a run of the step relation leaves, which ends in \<open>Finished\<close> exactly if the process ends well, and
  dead otherwise, with the lock free. In particular all pending revisions are committed or none.
\<close>

theorem online_migration_refines_lock:
  assumes "run_migrations_online free budget (mg_catalog m, mg_version m) = (x, cn)"
    and "mg_phase m p = (if free then Starting else Waiting)" and "mg_holder m = None"
    and "mg_version m \<le> length history"
  shows "\<exists>m'. lock_step\<^sup>*\<^sup>* m m' \<and> cn_committed cn = (mg_catalog m', mg_version m') \<and> mg_holder m' = None
    \<and> mg_phase m' p = (if x = Inr () then Finished else Dead) \<and> (\<forall>q. q \<noteq> p \<longrightarrow> mg_phase m' q = mg_phase m q)
    \<and> \<not> cn_locked cn \<and> (mg_version m' = mg_version m \<and> mg_catalog m' = mg_catalog m \<or> mg_version m' = length history)"
proof (cases "migrated_from (mg_catalog m, mg_version m) (cn_committed cn)")
  case False
  with online_migration_outcome [OF assms(1)]
  have "x \<noteq> Inr ()" "cn_committed cn = (mg_catalog m, mg_version m)" "\<not> cn_locked cn" by auto
  moreover have same: "m\<lparr>mg_holder := None\<rparr> = m" using assms(3) by (cases m) simp
  have "lock_step m (at_phase p Dead m)" using lock_step.die [of m p] assms(2,3) same by (cases free) simp_all
  ultimately show ?thesis using assms(3) by (intro exI [of _ "at_phase p Dead m"]) simp
next
  case True
  then obtain d where d: "each upgrade (drop (mg_version m) history) (mg_catalog m) = (Inr (), d)"
      "cn_committed cn = (d, length history)"
    using assms(4) by (auto simp: migrated_from_def)
  let ?m = "m\<lparr>mg_holder := Some p, mg_version := length history, mg_catalog := d\<rparr>"
  let ?final = "at_phase p (if x = Inr () then Finished else Dead) (?m\<lparr>mg_holder := None\<rparr>)"
  have "lock_step (at_phase p Migrated ?m) ?final"
    using lock_step.unlock [of "at_phase p Migrated ?m" p] lock_step.die [of "at_phase p Migrated ?m" p]
    by (cases "x = Inr ()") (simp_all add: at_phase_def)
  with migrated_steps [OF assms(2-4) d(1)] have "lock_step\<^sup>*\<^sup>* m ?final" by (rule rtranclp.rtrancl_into_rtrancl)
  with d(2) online_migration_outcome [OF assms(1)] show ?thesis by (intro exI [of _ ?final]) simp
qed

end
