(* ===== verification/MoreWitnesses.thy ===== *)
theory MoreWitnesses
  imports Witnesses MigrationLock Cache SessionLife Service MigrationEnv
begin

section \<open>Witnesses for requests, migrations and the cache\<close>

text \<open>
  As in the theory before: each property that has hypotheses at a concrete input where they hold.
\<close>

subsection \<open>Errors and headers\<close>

definition sample_request :: request where
  "sample_request = \<lparr>scope_type = ''http'', req_method = ''GET'', req_path = ''/x'',
     req_headers = [(''x-request-id'', ''abc'')]\<rparr>"

lemma sample_request_simps [simp]:
  "scope_type sample_request = ''http''" "req_path sample_request = ''/x''"
  "req_headers sample_request = [(''x-request-id'', ''abc'')]"
  by (simp_all add: sample_request_def)


lemma answers_carry_headers_witness:
  "\<exists>hs. starts (fst (app_stack ''local'' None 3 (\<lambda>_ _. ([Query, Send (Start 200 [])], None)) ''-'' sample_request))
       = [(200, hs)]
     \<and> map_of hs ''x-request-id'' = Some ''abc'' \<and> map_of hs ''x-frame-options'' = Some ''DENY''"
proof -
  let ?trace = "fst (app_stack ''local'' None 3 (\<lambda>_ _. ([Query, Send (Start 200 [])], None)) ''-'' sample_request)"
  obtain hs where hs: "starts ?trace = [(200, hs)]"
    by (simp add: app_stack_def n1_detector_middleware_def correlation_middleware_def Let_def on_start_def
        security_headers_middleware_def exception_middleware_def)
  then have "(200, hs) \<in> set (starts ?trace)" by simp
  from answers_carry_headers [OF _ _ this]
  have "map_of hs ''x-request-id'' = Some ''abc'' \<and> map_of hs ''x-frame-options'' = Some ''DENY''"
    by (simp add: request_id_of_def get_header_def security_headers_def)
  with hs show ?thesis by blast
qed

lemma unexpected_exception_hidden_witness:
  "app_stack ''production'' None 3 (\<lambda>_ _. ([], Some (RaisedOther ''secret''))) ''-'' sample_request
     = app_stack ''production'' None 3 (\<lambda>_ _. ([], Some (RaisedOther ''other''))) ''-'' sample_request"
  using unexpected_exception_hidden [of sample_request
      "\<lambda>_ _. ([], Some (RaisedOther ''secret''))" "[]" "''secret''" "\<lambda>_ _. ([], Some (RaisedOther ''other''))"]
  by simp

subsection \<open>Routes\<close>


definition reader_authx :: authx where
  "reader_authx =
     \<lparr>ax_token = (\<lambda>_ _ _. Inr ''t''), ax_decode = (\<lambda>_ _. Inr \<lparr>tp_sub = str_uuid 1, tp_jti = Some ''j'',
        tp_type = ''access'', tp_expiry = 500, tp_scopes = [''admin:read''], tp_extra = []\<rparr>),
      ax_verify = (\<lambda>_ _ _ _ _. Inr \<lparr>tp_sub = str_uuid 1, tp_jti = Some ''j'', tp_type = ''access'',
        tp_expiry = 500, tp_scopes = [''admin:read''], tp_extra = []\<rparr>),
      ax_access = (\<lambda>_ _ _. ''a''), ax_refresh = (\<lambda>_ _ _ _. ''r''),
      ax_has_scopes = (\<lambda>p required _. set required \<subseteq> set (tp_scopes p)), ax_refresh_cookie = (\<lambda>_. None)\<rparr>"

lemma dead_letter_writes_need_scope_witness:
  "\<exists>e w'. delete_dead_route reader_authx 8 (\<lambda>_ _. 50) (\<lambda>_ _. 50) sample_request
        \<lparr>w_db = fresh, w_redis = empty_redis\<rparr> = (Inl e, w')
     \<and> dead_letter_jobs (committed (w_db w')) = [failed_job]"
proof -
  let ?op = "delete_dead_route reader_authx 8 (\<lambda>_ _. 50) (\<lambda>_ _. 50) sample_request"
  obtain r w' where op: "?op \<lparr>w_db = fresh, w_redis = empty_redis\<rparr> = (r, w')" by (rule prod.exhaust)
  have no: "ax_verify reader_authx t ''access'' ''headers'' sample_request token = Inr p \<Longrightarrow>
      \<not> ax_has_scopes reader_authx p [''admin:write''] True" for t token p
    by (auto simp: reader_authx_def)
  have "?op \<in> {retry_dead_route reader_authx 8 1 (\<lambda>_ _. 50) (\<lambda>_ _. 50) sample_request, ?op,
      purge_dead_route reader_authx None True (\<lambda>_ _. 50) (\<lambda>_ _. 50) sample_request}" by simp
  from dead_letter_writes_need_scope [where ax = reader_authx and req = sample_request and op = ?op, OF no this op] op
  show ?thesis by (auto simp: sample_tables_def)
qed

text \<open>Ann logs out while the database and Redis are up; Redis then loses its data.\<close>

definition ann_token :: token_ref where
  "ann_token = \<lparr>tr_jti = ''j'', tr_expires_at = 900000\<rparr>"


subsection \<open>Migrations\<close>

lemma first_revision:
  "\<exists>c. upgrade rev_42275bfc1260 [] = (Inr (), c) \<and> map fst c = [''users'']"
proof -
  have "fst (upgrade rev_42275bfc1260 []) = Inr ()" "map fst (snd (upgrade rev_42275bfc1260 [])) = [''users'']"
    by code_simp+
  then show ?thesis by (cases "upgrade rev_42275bfc1260 []") auto
qed

lemma empty_catalog_ok: "catalog_ok []"
  by (simp add: catalog_ok_def index_names_def)

lemma downgrade_undoes_upgrade_witness:
  "\<exists>c. upgrade rev_42275bfc1260 [] = (Inr (), c) \<and> c \<noteq> [] \<and> downgrade rev_42275bfc1260 c = (Inr (), [])"
proof -
  obtain c where c: "upgrade rev_42275bfc1260 [] = (Inr (), c)" "map fst c = [''users'']"
    using first_revision by (elim exE conjE) (rule that)
  have "rev_42275bfc1260 \<in> set history" "rev_42275bfc1260 \<notin> {rev_1f41e9d3550c, rev_d223a0cb723d}"
    by (simp_all add: history_def) (simp_all add: revision_defs)
  from downgrade_undoes_upgrade [OF empty_catalog_ok this c(1)] c show ?thesis by auto
qed

lemma migrations_keep_catalog_witness:
  "\<exists>c. upgrade rev_42275bfc1260 [] = (Inr (), c) \<and> catalog_ok c \<and> map fst c = [''users'']"
  using first_revision migrations_keep_catalog [OF empty_catalog_ok, of rev_42275bfc1260] by auto

definition scoped_users :: catalog where
  "scoped_users =
     [(''users'', (new_table [required ''id'' SqlUUID, required ''scopes'' (SqlString None)] [] [])
        \<lparr>st_rows := [[(''id'', Some ''1''), (''scopes'', Some ''users:read admin:read'')],
                      [(''id'', Some ''2''), (''scopes'', Some ''users:read users:write'')]]\<rparr>)]"

lemma scopes_migrated_witness:
  "\<exists>c tb. upgrade rev_d223a0cb723d scoped_users = (Inr (), c) \<and> map_of c ''users'' = Some tb
     \<and> map scopes_held (st_rows tb) = [Some [''admin:read'', ''admin:write''], Some []]"
proof -
  have "fst (upgrade rev_d223a0cb723d scoped_users) = Inr ()" by code_simp
  then obtain c where c: "upgrade rev_d223a0cb723d scoped_users = (Inr (), c)"
    by (cases "upgrade rev_d223a0cb723d scoped_users") simp
  define tb where "tb = the (map_of scoped_users ''users'')"
  have tb: "map_of scoped_users ''users'' = Some tb" by (simp add: tb_def scoped_users_def)
  have sc: "map (map_option migrated_scopes \<circ> scopes_held) (st_rows tb) = [Some [''admin:read'', ''admin:write''], Some []]"
    unfolding tb_def by code_simp
  obtain tb' where tb': "map_of c ''users'' = Some tb'"
    "map scopes_held (st_rows tb') = map (map_option migrated_scopes \<circ> scopes_held) (st_rows tb)"
    using scopes_migrated [OF c tb] by (elim exE conjE) (rule that)
  show ?thesis using c tb'(1) tb'(2) [unfolded sc] by (intro exI conjI)
qed

lemma migrations_exclude_each_other_witness:
  "\<exists>m. lock_step\<^sup>*\<^sup>* fresh_database m \<and> mg_phase m 0 = Running 0 [] \<and> mg_phase m 1 = Waiting
     \<and> \<not> holding (mg_phase m 1)"
proof -
  let ?a = "at_phase 0 Locked (fresh_database\<lparr>mg_holder := Some 0\<rparr>)"
  let ?b = "at_phase 1 Waiting ?a"
  let ?c = "at_phase 0 (Running (mg_version ?b) (mg_catalog ?b)) ?b"
  have "lock_step fresh_database ?a" by (rule try_free) (simp_all add: fresh_database_def)
  moreover have "lock_step ?a ?b" by (rule try_busy) (simp_all add: at_phase_def fresh_database_def)
  moreover have "lock_step ?b ?c" by (rule begin_run) (simp add: at_phase_def)
  ultimately have run: "lock_step\<^sup>*\<^sup>* fresh_database ?c" 
    by (meson converse_rtranclp_into_rtranclp r_into_rtranclp)
  moreover have h: "mg_phase ?c 0 = Running 0 []" "mg_phase ?c 1 = Waiting"
    by (simp_all add: at_phase_def fresh_database_def)
  moreover have "\<not> holding (mg_phase ?c 1)"
    using migrations_exclude_each_other [OF run, of 1 0] h by simp
  ultimately show ?thesis by blast
qed

subsection \<open>The cache, the cron jobs and the sockets\<close>

abbreviation cache_world :: world where
  "cache_world \<equiv> \<lparr>w_db = fresh, w_redis = empty_redis\<rparr>"

lemma cache_round_trip_witness:
  "\<exists>w. cached_call sample_settings (Some 60) [''t''] ''k'' Inr (\<lambda>x. x) 10 20 (ret ''v'') cache_world = (Inr ''v'', w)
     \<and> cached_call sample_settings (Some 60) [''t''] ''k'' Inr (\<lambda>x. x) 30 40 (ret ''other'') w = (Inr ''v'', w)"
proof -
  have k: "''k'' \<notin> range (tag_key sample_settings)"
    by (auto simp: tag_key_def sample_settings_def default_settings_def)
  obtain w where w: "cached_call sample_settings (Some 60) [''t''] ''k'' Inr (\<lambda>x. x) 10 20 (ret ''v'') cache_world
      = (Inr ''v'', w)" "answers (w_redis w) = None"
    by (simp add: cached_call_def on_redis_def redis_get_def transaction_pipeline_def command_def empty_redis_def
        live_entry_def store_commands_def sadd_member_def expire_key_def put_entry_def set_string_def)
  have "live_entry (w_redis cache_world) 10 ''k'' = None" by (simp add: live_entry_def empty_redis_def)
  from cache_round_trip [OF w(1) this _ _ k _ w(2), of 30 40 "ret ''other''"] w(1)
  show ?thesis by (auto simp: actual_ttl_def)
qed


lemma cron_jobs_spare_live_rows_witness:
  "\<exists>r t. run_cron_job sample_settings ''cleanup_refresh_sessions_task'' 500 fresh = (r, t)
     \<and> filter (\<lambda>r. rs_expires_at r > 500) (refresh_sessions (committed t)) = [ann_session]"
proof -
  obtain r t where op: "run_cron_job sample_settings ''cleanup_refresh_sessions_task'' 500 fresh = (r, t)"
    by (rule prod.exhaust)
  have "''cleanup_refresh_sessions_task'' \<in> fst ` set cron_jobs" by (simp add: cron_jobs_def)
  from cron_jobs_spare_live_rows [OF this op] have "spares sample_settings 500 sample_tables (committed t)" by simp
  then have "filter (\<lambda>r. rs_expires_at r > 500) (refresh_sessions (committed t)) = [ann_session]"
    by (simp add: spares_def sample_tables_def ann_session_def new_refresh_def)
  with op show ?thesis by blast
qed

lemma bind_sockets_leaks_nothing_witness:
  "\<exists>k < 2. fst (bind_sockets (\<lambda>fam host. if host = ''::1'' then BindError 98 else Bound) [''127.0.0.1'', ''::1''])
      = Inl (Some 98) \<and> set (snd (bind_sockets (\<lambda>fam host. if host = ''::1'' then BindError 98 else Bound)
          [''127.0.0.1'', ''::1''])) = {..k}"
proof -
  let ?b = "\<lambda>fam host. if host = ''::1'' then BindError 98 else Bound"
  have r: "bind_sockets ?b [''127.0.0.1'', ''::1''] = (Inl (Some 98), [1, 0])"
    by (simp add: bind_sockets_def)
  from bind_sockets_leaks_nothing [where bind = ?b and hosts = "[''127.0.0.1'', ''::1'']"] show ?thesis unfolding r by auto
qed

lemma health_report_honest_witness:
  "fst (run_checks [(''redis'', seconds 3, None), (''db'', 10, None)]) = 503"
  using health_report_honest [of "[(''redis'', seconds 3, None), (''db'', 10, None)]"]
  by (auto simp: wait_for_def check_timeout_def)

subsection \<open>The life of a session\<close>

theorem program_refines_session_life_witness:
  "\<exists>tb. program_run (\<lambda>oc. False \<or> oc_session oc \<noteq> Some 7) sample_tables tb
     \<and> life_of 7 sample_tables = Live 4 \<and> life_of 7 tb = Live 5 \<and> (life_step False)\<^sup>*\<^sup>* (Live 4) (Live 5)"
proof -
  let ?op = "chain (session_rotate 7 1 4 50) (\<lambda>_. ret ())"
  let ?tb = "committed (snd (?op fresh))"
  have "program_op \<lparr>oc_session = None, oc_job = None, oc_clock = 0\<rparr> ?op" by (rule op_rotate)
  then have "program_step \<lparr>oc_session = None, oc_job = None, oc_clock = 0\<rparr> sample_tables ?tb"
    unfolding program_step_def using fresh_simps(1,2) by (metis prod.collapse)
  then have run: "program_run (\<lambda>oc. False \<or> oc_session oc \<noteq> Some 7) sample_tables ?tb"
    unfolding program_run_def by (intro r_into_rtranclp exI [of _ "\<lparr>oc_session = None, oc_job = None, oc_clock = 0\<rparr>"]) simp
  have "life_of 7 ?tb = Live 5" and "life_of 7 sample_tables = Live 4" by code_simp+
  with program_refines_session_life [OF run sample_tables_ok] run show ?thesis by auto
qed

subsection \<open>The API\<close>

definition refusing_authx :: authx where
  "refusing_authx = reader_authx\<lparr>ax_verify := (\<lambda>_ _ _ _ _. Inl (AuthXError ''Missing JWT in request''))\<rparr>"

definition sample_app :: "authx \<Rightarrow> app_env" where
  "sample_app ax = \<lparr>ae_authx = ax, ae_auth = sample_env, ae_fmt = (\<lambda>_. []), ae_page_users = id, ae_page_dead = id,
                    ae_ready = liveness, ae_workers = (\<lambda>_. liveness), ae_revoked_text = []\<rparr>"

definition sample_call :: call where
  "sample_call = \<lparr>cl_input = Valid, cl_limit = None, cl_email = [], cl_password = [], cl_token = [],
     cl_user = \<lparr>cu_name = [], cu_email = [], cu_password = []\<rparr>,
     cl_changes = \<lparr>uu_full_name = None, uu_email = None, uu_password = None\<rparr>, cl_job_id = 8, cl_unresolved_only = False,
     cl_before = None, cl_only_retried = True, cl_now = (\<lambda>_ _. 50), cl_rnow = (\<lambda>_ _. 50), cl_ids = of_nat, cl_salt = []\<rparr>"

definition api_request :: "string \<Rightarrow> string \<Rightarrow> request" where
  "api_request verb p = \<lparr>scope_type = ''http'', req_method = verb, req_path = p, req_headers = []\<rparr>"

theorem only_public_without_token_witness:
  "\<exists>x w'. handle (sample_app refusing_authx) sample_call (api_request ''DELETE'' ''/api/v1/users/me'') \<lparr>w_db = fresh, w_redis = empty_redis\<rparr>
       = (Inl x, w') \<and> committed (w_db w') = sample_tables"
proof -
  let ?req = "api_request ''DELETE'' ''/api/v1/users/me''"
  have refused: "\<exists>e. ax_verify (ae_authx (sample_app refusing_authx)) t ''access'' ''headers'' ?req token = Inl e" for t token
    by (simp add: sample_app_def refusing_authx_def)
  obtain a w' where run: "handle (sample_app refusing_authx) sample_call ?req \<lparr>w_db = fresh, w_redis = empty_redis\<rparr> = (a, w')"
    by (rule prod.exhaust)
  have "resolve api_routes (req_method ?req) (req_path ?req) = Found (route ''DELETE'' ''/api/v1/users/me'' DeleteUser)"
    by code_simp
  from only_public_without_token [OF refused run this] run show ?thesis by (auto simp: public_endpoints_def route_def)
qed

theorem get_requests_only_read_witness:
  "\<exists>a w'. handle (sample_app reader_authx) sample_call (api_request ''GET'' ''/api/v1/users/me'') \<lparr>w_db = fresh, w_redis = empty_redis\<rparr>
       = (a, w') \<and> committed (w_db w') = sample_tables"
proof -
  let ?req = "api_request ''GET'' ''/api/v1/users/me''"
  obtain a w' where run: "handle (sample_app reader_authx) sample_call ?req \<lparr>w_db = fresh, w_redis = empty_redis\<rparr> = (a, w')"
    by (rule prod.exhaust)
  have "resolve api_routes ''GET'' ''/api/v1/users/me'' = Found (route ''GET'' ''/api/v1/users/me'' GetUser)" by code_simp
  then have "rt_endpoint r \<noteq> VerifyEmail" if "resolve api_routes ''GET'' (req_path ?req) = Found r" for r
    using that by (auto simp: api_request_def route_def)
  from get_requests_only_read [OF _ this run] run show ?thesis by (auto simp: api_request_def)
qed

definition sample_deployment :: deployment where
  "sample_deployment = \<lparr>dp_app = sample_app refusing_authx, dp_environment = ''production'', dp_inject = None,
     dp_render = (\<lambda>_. []), dp_cookies = (\<lambda>_. [])\<rparr>"


theorem online_migration_refines_lock_witness:
  "\<exists>m' cn. run_migrations_online True None ([], 0) = (Inr (), cn) \<and> lock_step\<^sup>*\<^sup>* fresh_database m'
     \<and> cn_committed cn = (mg_catalog m', length history) \<and> mg_phase m' 3 = Finished"
proof -
  obtain x cn where run: "run_migrations_online True None ([], 0) = (x, cn)" by (rule prod.exhaust)
  have "fst (each upgrade history []) = Inr ()" by code_simp
  with online_migration_outcome [OF run] have x: "x = Inr ()" "snd (cn_committed cn) = length history"
    by (auto simp: migrated_from_def)
  have "run_migrations_online True None (mg_catalog fresh_database, mg_version fresh_database) = (x, cn)"
    using run by (simp add: fresh_database_def)
  from online_migration_refines_lock [OF this, of 3] run x show ?thesis by (auto simp: fresh_database_def)
qed

end
