(* ===== verification/Naming.thy ===== *)
theory Naming
  imports PyText
begin

section \<open>Names and fields of the scaffolding tools\<close>

text \<open>
  The first half of \<open>scripts/_boilerplate.py\<close>: how the generators turn what the developer typed
  into names of modules, classes and tables, and into typed fields. An error of these functions is
  a \<open>ValueError\<close>, given as its text.
\<close>

subsection \<open>Characters\<close>

definition char_between :: "char \<Rightarrow> char \<Rightarrow> char \<Rightarrow> bool" where
  "char_between lo hi c \<longleftrightarrow> (of_char lo :: nat) \<le> of_char c \<and> (of_char c :: nat) \<le> of_char hi"

abbreviation is_upper :: "char \<Rightarrow> bool" where "is_upper \<equiv> char_between (CHR ''A'') (CHR ''Z'')"
abbreviation is_lower :: "char \<Rightarrow> bool" where "is_lower \<equiv> char_between (CHR ''a'') (CHR ''z'')"
abbreviation is_digit :: "char \<Rightarrow> bool" where "is_digit \<equiv> char_between (CHR ''0'') (CHR ''9'')"

definition upper_char :: "char \<Rightarrow> char" where
  "upper_char c = (if is_lower c then char_of (of_char c - 32 :: nat) else c)"

subsection \<open>Case\<close>

text \<open>
  Both expressions match between two characters, so the substitution inserts one underscore
  wherever its condition holds in the text it is given.
\<close>

fun acronym_boundary :: "string \<Rightarrow> string" where
  "acronym_boundary (a # b # c # s) =
     (if is_upper a \<and> is_upper b \<and> is_lower c then a # CHR ''_'' # acronym_boundary (b # c # s)
      else a # acronym_boundary (b # c # s))"
| "acronym_boundary s = s"

fun camel_boundary :: "string \<Rightarrow> string" where
  "camel_boundary (a # b # s) =
     (if (is_lower a \<or> is_digit a) \<and> is_upper b then a # CHR ''_'' # camel_boundary (b # s)
      else a # camel_boundary (b # s))"
| "camel_boundary s = s"

definition to_snake_case :: "string \<Rightarrow> string" where
  "to_snake_case name =
     (let normalized = replace (replace name ''-'' ''_'') '' '' ''_'';
          normalized = acronym_boundary normalized;
          normalized = camel_boundary normalized
      in strip_where (\<lambda>c. c = CHR ''_'') (lower normalized))"

definition capitalize :: "string \<Rightarrow> string" where
  "capitalize s = (case s of [] \<Rightarrow> [] | c # cs \<Rightarrow> upper_char c # lower cs)"

definition to_pascal_case :: "string \<Rightarrow> string" where
  "to_pascal_case name = concat (map capitalize (split_on (CHR ''_'') (to_snake_case name)))"

definition pluralize :: "string \<Rightarrow> string" where
  "pluralize word = (if endswith word ''s'' then word else word @ ''s'')"

subsection \<open>Validation\<close>

text \<open>\<open>$\<close> matches at the end and before a newline that ends the text.\<close>

definition identifier_word :: "string \<Rightarrow> bool" where
  "identifier_word s \<longleftrightarrow>
     (case s of [] \<Rightarrow> False
      | c # cs \<Rightarrow> is_lower c \<and> list_all (\<lambda>x. is_lower x \<or> is_digit x \<or> x = CHR ''_'') cs)"

definition identifier_match :: "string \<Rightarrow> bool" where
  "identifier_match s \<longleftrightarrow>
     identifier_word s \<or> (s \<noteq> [] \<and> last s = CHR 0x0A \<and> identifier_word (butlast s))"

definition reserved_domains :: "string list" where
  "reserved_domains = [''alembic'', ''core'', ''docs'', ''main'', ''scripts'', ''tests'']"

abbreviation sq :: string where "sq \<equiv> [CHR 0x27]"
abbreviation dq :: string where "dq \<equiv> [CHR 0x22]"

definition validate_domain :: "string \<Rightarrow> string + unit" where
  "validate_domain domain =
     (if \<not> identifier_match domain
      then Inl (''Domain '' @ sq @ domain @ sq @ '' must be lowercase snake_case ''
                @ ''(letters, digits, underscores), e.g. '' @ sq @ ''inventory'' @ sq @ ''.'')
      else if domain \<in> set reserved_domains
      then Inl (sq @ domain @ sq @ '' is a reserved top-level name, not a domain.'')
      else Inr ())"

definition resolve_names :: "string \<Rightarrow> string \<Rightarrow> string + string \<times> string" where
  "resolve_names domain name =
     (case validate_domain domain of Inl e \<Rightarrow> Inl e
      | Inr _ \<Rightarrow>
          (let snake = to_snake_case name in
           if \<not> identifier_match snake
           then Inl (''Name '' @ sq @ name @ sq @ '' can'' @ sq
                     @ ''t become a Python identifier, e.g. use '' @ sq @ ''order_item'' @ sq @ ''.'')
           else Inr (snake, to_pascal_case name)))"

subsection \<open>Fields\<close>

record type_names =
  tn_py :: string
  tn_sqla :: string
  tn_pydantic :: string

definition type_mapping :: "(string \<times> type_names) list" where
  "type_mapping =
     [(''str'', \<lparr>tn_py = ''str'', tn_sqla = ''String'', tn_pydantic = ''str''\<rparr>),
      (''int'', \<lparr>tn_py = ''int'', tn_sqla = ''Integer'', tn_pydantic = ''int''\<rparr>),
      (''float'', \<lparr>tn_py = ''float'', tn_sqla = ''Float'', tn_pydantic = ''float''\<rparr>),
      (''bool'', \<lparr>tn_py = ''bool'', tn_sqla = ''Boolean'', tn_pydantic = ''bool''\<rparr>),
      (''uuid'', \<lparr>tn_py = ''uuid.UUID'', tn_sqla = ''UUID(as_uuid=True)'', tn_pydantic = ''uuid.UUID''\<rparr>)]"

definition type_names_of :: "string \<Rightarrow> type_names" where
  "type_names_of ty =
     (case map_of type_mapping ty of Some t \<Rightarrow> t
      | None \<Rightarrow> \<lparr>tn_py = ''str'', tn_sqla = ''String'', tn_pydantic = ''str''\<rparr>)"

record field =
  fd_name :: string
  fd_type :: string
  fd_default :: "string option"
  fd_py_type :: string
  fd_sqla_type :: string

text \<open>\<open>item.split("=", 1)\<close>: what comes before the first \<open>=\<close> and, if there is one, after it.\<close>

definition split_default :: "string \<Rightarrow> string \<times> string option" where
  "split_default item =
     (if CHR ''='' \<in> set item
      then (takeWhile (\<lambda>c. c \<noteq> CHR ''='') item, Some (tl (dropWhile (\<lambda>c. c \<noteq> CHR ''='') item)))
      else (item, None))"

definition base_fields :: "string list" where
  "base_fields = [''id'', ''created_at'', ''updated_at'', ''is_active'']"

text \<open>One item; \<open>Inr None\<close> is one that is skipped.\<close>

definition parse_field :: "string \<Rightarrow> string + field option" where
  "parse_field raw =
     (let item = strip raw in
      if item = [] then Inr None
      else case split_default item of (item, default_val) \<Rightarrow>
        (case split_on (CHR '':'') item of
           [name, field_type] \<Rightarrow>
             (let name = strip name; ty = strip field_type in
              if name \<in> set base_fields then Inr None
              else Inr (Some \<lparr>fd_name = name, fd_type = ty,
                     fd_default = (case default_val of None \<Rightarrow> None
                                   | Some d \<Rightarrow> if d \<noteq> [] then Some (strip d) else None),
                     fd_py_type = tn_py (type_names_of ty), fd_sqla_type = tn_sqla (type_names_of ty)\<rparr>))
         | [_] \<Rightarrow> Inl ''not enough values to unpack (expected 2, got 1)''
         | _ \<Rightarrow> Inl ''too many values to unpack (expected 2)''))"

fun parse_items :: "string list \<Rightarrow> string + field list" where
  "parse_items [] = Inr []"
| "parse_items (x # xs) =
     (case parse_field x of Inl e \<Rightarrow> Inl e
      | Inr f \<Rightarrow> (case parse_items xs of Inl e \<Rightarrow> Inl e
                 | Inr fs \<Rightarrow> Inr (case f of None \<Rightarrow> fs | Some d \<Rightarrow> d # fs)))"

definition parse_fields :: "string \<Rightarrow> string + field list" where
  "parse_fields fields_str = (if fields_str = [] then Inr [] else parse_items (split_on (CHR '','') fields_str))"

subsection \<open>Snake case is stable\<close>

lemma replace_char:
  "replace s [c] [d] = map (\<lambda>x. if x = c then d else x) s"
proof (induction s)
  case (Cons x s)
  then show ?case by (subst replace.simps) (simp add: startswith_def)
qed (simp add: replace.simps)

definition settled :: "char \<Rightarrow> bool" where
  "settled c \<longleftrightarrow> \<not> is_upper c \<and> c \<noteq> CHR ''-'' \<and> c \<noteq> CHR '' ''"

lemma acronym_set: "set (acronym_boundary s) \<subseteq> insert (CHR ''_'') (set s)"
  by (induction s rule: acronym_boundary.induct) auto

lemma camel_set: "set (camel_boundary s) \<subseteq> insert (CHR ''_'') (set s)"
  by (induction s rule: camel_boundary.induct) auto

lemma acronym_settled: "\<forall>c \<in> set s. \<not> is_upper c \<Longrightarrow> acronym_boundary s = s"
  by (induction s rule: acronym_boundary.induct) auto

lemma camel_settled: "\<forall>c \<in> set s. \<not> is_upper c \<Longrightarrow> camel_boundary s = s"
  by (induction s rule: camel_boundary.induct) auto

lemma lower_char_code: "char_between (CHR ''A'') (CHR ''Z'') c \<Longrightarrow> is_lower (lower_char c)"
  by (auto simp: char_between_def lower_char_def Let_def of_char_of)

lemma lower_char_settled: "\<not> is_upper c \<Longrightarrow> lower_char c = c"
  by (auto simp: char_between_def lower_char_def Let_def)

lemma lower_char_upper: "\<not> is_upper (lower_char c)"
proof (cases "is_upper c")
  case True
  then show ?thesis using lower_char_code [of c] by (auto simp: char_between_def)
qed (simp add: lower_char_settled)

lemma lower_char_same: "lower_char c = d \<Longrightarrow> \<not> is_lower d \<Longrightarrow> c = d"
  using lower_char_code [of c] lower_char_settled [of c] by (cases "is_upper c") auto

lemma strip_where_set: "set (strip_where p s) \<subseteq> set s"
  unfolding strip_where_def by (metis set_dropWhileD set_rev subsetI)

lemma strip_where_idem [simp]: "strip_where p (strip_where p s) = strip_where p s"
proof -
  define t where "t = dropWhile p s"
  define u where "u = rev (dropWhile p (rev t))"
  have u: "strip_where p s = u" by (simp add: strip_where_def t_def u_def)
  have tu: "t = u @ rev (takeWhile p (rev t))"
    unfolding u_def by (simp flip: rev_append)
  have "dropWhile p u = u"
  proof (cases u)
    case (Cons c cs)
    then have "hd t = c" "t \<noteq> []" using tu by (metis Cons_eq_appendI list.sel(1), metis append_is_Nil_conv list.distinct(1))
    then show ?thesis using hd_dropWhile [of p s] Cons by (simp add: t_def)
  qed simp
  moreover have "dropWhile p (rev u) = rev u" unfolding u_def by (simp add: dropWhile_idem)
  ultimately show ?thesis unfolding u by (simp add: strip_where_def)
qed

lemma snake_settled: "c \<in> set (to_snake_case name) \<Longrightarrow> settled c"
proof -
  let ?r = "map (\<lambda>x. if x = CHR '' '' then CHR ''_'' else x) (map (\<lambda>x. if x = CHR ''-'' then CHR ''_'' else x) name)"
  assume "c \<in> set (to_snake_case name)"
  then have "c \<in> set (lower (camel_boundary (acronym_boundary ?r)))"
    using strip_where_set by (fastforce simp: to_snake_case_def Let_def replace_char)
  then obtain d where d: "d \<in> set (camel_boundary (acronym_boundary ?r))" "c = lower_char d"
    by (auto simp: lower_def)
  have "d \<in> insert (CHR ''_'') (set ?r)" using d(1) acronym_set camel_set by blast
  then have "d \<noteq> CHR ''-'' \<and> d \<noteq> CHR '' ''" by (auto split: if_splits)
  moreover have "\<not> is_lower (CHR ''-'')" "\<not> is_lower (CHR '' '')" by (simp_all add: char_between_def)
  ultimately show ?thesis using d(2) lower_char_upper lower_char_same unfolding settled_def by metis
qed

lemma snake_of_settled:
  assumes "\<And>c. c \<in> set s \<Longrightarrow> settled c"
  shows "to_snake_case s = strip_where (\<lambda>c. c = CHR ''_'') s"
proof -
  have "map (\<lambda>x. if x = CHR '' '' then CHR ''_'' else x) (map (\<lambda>x. if x = CHR ''-'' then CHR ''_'' else x) s) = s"
    using assms by (auto simp: settled_def intro!: map_idI)
  moreover have "acronym_boundary s = s" "camel_boundary s = s" "lower s = s"
    using assms by (auto simp: settled_def lower_def lower_char_settled acronym_settled camel_settled intro!: map_idI)
  ultimately show ?thesis by (simp add: to_snake_case_def Let_def replace_char)
qed

lemma snake_stripped: "strip_where (\<lambda>c. c = CHR ''_'') (to_snake_case name) = to_snake_case name"
  by (simp add: to_snake_case_def Let_def)

lemma snake_idem: "to_snake_case (to_snake_case name) = to_snake_case name"
  using snake_of_settled [of "to_snake_case name"] snake_settled snake_stripped by simp

lemma lower_idem [simp]: "lower (lower s) = lower s"
  by (simp add: lower_def lower_char_settled lower_char_upper)

lemma lower_upper_char [simp]: "lower_char (upper_char c) = lower_char c"
  by (auto simp: upper_char_def lower_char_def char_between_def Let_def of_char_of)

lemma lower_capitalize: "lower (capitalize w) = lower w"
  by (cases w) (simp_all add: capitalize_def, simp_all add: lower_def lower_char_settled lower_char_upper)

lemma concat_split_on: "concat (split_on c s) = filter (\<lambda>x. x \<noteq> c) s"
proof (induction s)
  case (Cons x s)
  obtain w ws where "split_on c s = w # ws" by (cases "split_on c s") auto
  with Cons show ?case by auto
qed simp

lemma pascal_letters: "lower (to_pascal_case name) = filter (\<lambda>c. c \<noteq> CHR ''_'') (to_snake_case name)"
proof -
  have "lower (concat (map capitalize ws)) = lower (concat ws)" for ws
    by (induction ws) (simp_all add: lower_def lower_capitalize [unfolded lower_def])
  then have "lower (to_pascal_case name) = lower (filter (\<lambda>c. c \<noteq> CHR ''_'') (to_snake_case name))"
    by (simp add: to_pascal_case_def concat_split_on)
  moreover have "lower s = s" if "\<And>c. c \<in> set s \<Longrightarrow> settled c" for s
    using that by (auto simp: lower_def settled_def lower_char_settled intro!: map_idI)
  ultimately show ?thesis using snake_settled [of _ name] by (metis (no_types, lifting) filter_is_subset subset_iff)
qed

lemma pascal_head:
  assumes "identifier_match (to_snake_case name)"
  shows "\<exists>c cs. to_pascal_case name = c # cs \<and> is_upper c"
proof -
  obtain c cs where s: "to_snake_case name = c # cs" and c: "is_lower c"
    using assms
    by (cases "to_snake_case name")
       (auto simp: identifier_match_def identifier_word_def split: if_splits list.splits)
  then have "c \<noteq> CHR ''_''" by (auto simp: char_between_def)
  then obtain w ws where "split_on (CHR ''_'') (c # cs) = (c # w) # ws"
    by (cases "split_on (CHR ''_'') cs") auto
  moreover have "is_upper (upper_char c)" using c by (auto simp: upper_char_def char_between_def of_char_of)
  ultimately show ?thesis by (simp add: to_pascal_case_def s capitalize_def)
qed

text \<open>
  The names of a component agree: once a domain and a name are accepted, the domain is an
  unreserved identifier, the module's name is an identifier in snake case that stands for itself
  (typing it gives the same names again), and the class name starts with a capital and is the
  module's name without underscores up to the case of its letters.
\<close>

theorem resolved_names_agree:
  assumes "resolve_names domain name = Inr (snake, pascal)"
  shows "identifier_match domain \<and> domain \<notin> set reserved_domains \<and> identifier_match snake
    \<and> to_snake_case snake = snake \<and> resolve_names domain snake = Inr (snake, pascal)
    \<and> (\<exists>c cs. pascal = c # cs \<and> is_upper c) \<and> lower pascal = filter (\<lambda>c. c \<noteq> CHR ''_'') snake"
proof -
  have d: "validate_domain domain = Inr ()" and i: "identifier_match snake"
    and s: "snake = to_snake_case name" "pascal = to_pascal_case name"
    using assms by (auto simp: resolve_names_def Let_def split: sum.splits if_splits)
  have "to_pascal_case snake = pascal" by (simp add: to_pascal_case_def s snake_idem)
  then have "resolve_names domain snake = Inr (snake, pascal)"
    using d i by (simp add: resolve_names_def s snake_idem)
  moreover have "identifier_match domain \<and> domain \<notin> set reserved_domains"
    using d by (simp add: validate_domain_def split: if_splits)
  ultimately show ?thesis using i s pascal_head pascal_letters snake_idem by metis
qed

subsection \<open>Fields are read back\<close>

text \<open>How a field is written, and the fields that can be.\<close>

definition render_field :: "field \<Rightarrow> string" where
  "render_field f =
     fd_name f @ '':'' @ fd_type f @ (case fd_default f of None \<Rightarrow> [] | Some d \<Rightarrow> ''='' @ d)"

definition trimmed :: "string \<Rightarrow> bool" where
  "trimmed s \<longleftrightarrow> s = [] \<or> (\<not> py_space (hd s) \<and> \<not> py_space (last s))"

definition free_of :: "string \<Rightarrow> string \<Rightarrow> bool" where
  "free_of cs s \<longleftrightarrow> list_all (\<lambda>c. c \<notin> set cs) s \<and> trimmed s"

definition field_ok :: "field \<Rightarrow> bool" where
  "field_ok f \<longleftrightarrow>
     free_of '',:='' (fd_name f) \<and> free_of '',:='' (fd_type f) \<and> fd_name f \<notin> set base_fields
   \<and> (case fd_default f of None \<Rightarrow> True | Some d \<Rightarrow> d \<noteq> [] \<and> free_of '','' d)
   \<and> fd_py_type f = tn_py (type_names_of (fd_type f)) \<and> fd_sqla_type f = tn_sqla (type_names_of (fd_type f))"

lemma strip_trimmed: "trimmed s \<Longrightarrow> strip s = s"
proof -
  assume "trimmed s"
  then have "dropWhile py_space s = s" "dropWhile py_space (rev s) = rev s"
    by (auto simp: trimmed_def dropWhile_eq_self_iff hd_rev)
  then show "strip s = s" by (simp add: strip_def strip_where_def)
qed

lemma trimmed_render: "field_ok f \<Longrightarrow> trimmed (render_field f) \<and> render_field f \<noteq> []"
  by (cases "fd_name f"; cases "fd_type f"; cases "fd_default f")
     (auto simp: field_ok_def free_of_def trimmed_def render_field_def py_space_def)

lemma break_at: "c \<notin> set a \<Longrightarrow> takeWhile (\<lambda>x. x \<noteq> c) (a @ c # b) = a \<and> dropWhile (\<lambda>x. x \<noteq> c) (a @ c # b) = c # b"
  by (induction a) auto

lemma parse_rendered:
  assumes "field_ok f"
  shows "parse_field (render_field f) = Inr (Some f)"
proof -
  let ?nt = "fd_name f @ CHR '':'' # fd_type f"
  have n: "CHR '':'' \<notin> set (fd_name f)" "CHR ''='' \<notin> set (fd_name f)" "strip (fd_name f) = fd_name f"
    and t: "CHR '':'' \<notin> set (fd_type f)" "CHR ''='' \<notin> set (fd_type f)" "strip (fd_type f) = fd_type f"
    using assms by (auto simp: field_ok_def free_of_def list_all_iff strip_trimmed)
  have split: "split_default (render_field f) = (?nt, fd_default f)"
  proof (cases "fd_default f")
    case None
    then show ?thesis using n t by (simp add: render_field_def split_default_def)
  next
    case (Some d)
    have "CHR ''='' \<notin> set ?nt" using n t by simp
    from break_at [OF this, of d] show ?thesis using Some by (simp add: render_field_def split_default_def)
  qed
  have parts: "split_on (CHR '':'') ?nt = [fd_name f, fd_type f]"
    using n t by (simp add: split_on_cons split_on_word)
  have d: "(case fd_default f of None \<Rightarrow> None | Some d \<Rightarrow> if d \<noteq> [] then Some (strip d) else None) = fd_default f"
    using assms by (auto simp: field_ok_def free_of_def strip_trimmed split: option.split)
  have "strip (render_field f) = render_field f" "render_field f \<noteq> []"
    using trimmed_render [OF assms] strip_trimmed by auto
  with split parts d n t assms show ?thesis by (simp add: parse_field_def Let_def field_ok_def)
qed

text \<open>
  Fields are read back as they were written: name, type and default of every field come
  back, in order, from the comma-separated text, with the Python and SQLAlchemy types that belong
  to the type's name.
\<close>

theorem fields_round_trip:
  assumes "list_all field_ok fs"
  shows "parse_fields (join '','' (map render_field fs)) = Inr fs"
proof (cases "fs = []")
  case False
  have items: "parse_items (map render_field fs) = Inr fs"
    using assms by (induction fs) (simp_all add: parse_rendered)
  have "CHR '','' \<notin> set (render_field f)" if "f \<in> set fs" for f
    using that assms
    by (auto simp: list_all_iff field_ok_def free_of_def render_field_def split: option.splits)
  then have "split_on (CHR '','') (join '','' (map render_field fs)) = map render_field fs"
    using False by (intro split_on_join) auto
  moreover have "join '','' (map render_field fs) \<noteq> []"
  proof (cases fs)
    case (Cons f rest)
    then have "render_field f \<noteq> []" using assms trimmed_render by simp
    with Cons show ?thesis by (cases rest) simp_all
  qed (use False in simp)
  ultimately show ?thesis using items by (simp add: parse_fields_def)
qed (simp add: parse_fields_def)

end
