(* ===== verification/Files.thy ===== *)
theory Files
  imports Naming
begin

section \<open>Files, and the text edits of the scaffolding tools\<close>

text \<open>
  The working directory as a map from relative paths to nodes, with the calls of \<open>pathlib.Path\<close> the
  tools use, and the functions of \<open>scripts/_boilerplate.py\<close> that edit a source file. Python's own
  parser (\<open>ast.parse\<close>) and \<open>tomllib.loads\<close> are parameters; what the code reads of a parsed module is
  \<open>stmt\<close>, each with the line its statement ends on. What the tools print is left out.
\<close>

subsection \<open>Paths\<close>

type_synonym path = "string list"

datatype node = Dir | File string

type_synonym tree = "path \<Rightarrow> node option"

datatype tool_error =
  ValueErr string | OSErr string | SyntaxErr string | AttributeErr string | TypeErr string

type_synonym 'a tool = "(tree, tool_error, 'a) act"

definition path_exists :: "path \<Rightarrow> tree \<Rightarrow> bool" where
  "path_exists p t \<longleftrightarrow> t p \<noteq> None"

definition is_dir :: "path \<Rightarrow> tree \<Rightarrow> bool" where
  "is_dir p t \<longleftrightarrow> t p = Some Dir"

definition reading :: "(tree \<Rightarrow> 'a) \<Rightarrow> 'a tool" where
  "reading f = (\<lambda>t. (Inr (f t), t))"

definition read_text :: "path \<Rightarrow> string tool" where
  "read_text p =
     (\<lambda>t. case t p of None \<Rightarrow> (Inl (OSErr ''FileNotFoundError''), t)
          | Some Dir \<Rightarrow> (Inl (OSErr ''IsADirectoryError''), t)
          | Some (File c) \<Rightarrow> (Inr c, t))"

definition write_text :: "path \<Rightarrow> string \<Rightarrow> unit tool" where
  "write_text p c =
     (\<lambda>t. if t p = Some Dir then (Inl (OSErr ''IsADirectoryError''), t)
          else (case t (butlast p) of
                  Some Dir \<Rightarrow> (Inr (), t(p \<mapsto> File c))
                | Some (File _) \<Rightarrow> (Inl (OSErr ''NotADirectoryError''), t)
                | None \<Rightarrow> (Inl (OSErr ''FileNotFoundError''), t)))"

text \<open>\<open>touch()\<close> of a file that is there changes its times only.\<close>

definition touch :: "path \<Rightarrow> unit tool" where
  "touch p = (\<lambda>t. if t p \<noteq> None then (Inr (), t) else write_text p [] t)"

text \<open>\<open>mkdir(parents=True, exist_ok=True)\<close>.\<close>

definition prefixes_of :: "path \<Rightarrow> path list" where
  "prefixes_of p = map (\<lambda>k. take k p) [0..<Suc (length p)]"

definition make_dirs :: "path \<Rightarrow> unit tool" where
  "make_dirs p =
     (\<lambda>t. if list_all (\<lambda>q. t q = None \<or> t q = Some Dir) (prefixes_of p)
          then (Inr (), \<lambda>q. if t q = None \<and> q \<in> set (prefixes_of p) then Some Dir else t q)
          else (Inl (OSErr ''FileExistsError''), t))"

definition lift_error :: "string + 'a \<Rightarrow> 'a tool" where
  "lift_error x = (case x of Inl e \<Rightarrow> raise (ValueErr e) | Inr v \<Rightarrow> ret v)"

definition of_result :: "tool_error + 'a \<Rightarrow> 'a tool" where
  "of_result x = (case x of Inl e \<Rightarrow> raise e | Inr v \<Rightarrow> ret v)"

subsection \<open>Lines\<close>

abbreviation nl :: string where "nl \<equiv> [CHR 0x0A]"

definition unlines :: "string list \<Rightarrow> string" where
  "unlines ls = concat (map (\<lambda>l. l @ nl) ls)"

definition line_break :: "char \<Rightarrow> bool" where
  "line_break c \<longleftrightarrow> c \<in> set [CHR 0x0A, CHR 0x0B, CHR 0x0C, CHR 0x0D, CHR 0x1C, CHR 0x1D, CHR 0x1E]"

text \<open>\<open>str.splitlines()\<close>; a carriage return and the line feed after it are one break.\<close>

fun lines_from :: "string \<Rightarrow> string \<Rightarrow> string list" where
  "lines_from acc [] = (if acc = [] then [] else [rev acc])"
| "lines_from acc [c] = (if line_break c then [rev acc] else [rev (c # acc)])"
| "lines_from acc (c # d # s) =
     (if c = CHR 0x0D \<and> d = CHR 0x0A then rev acc # lines_from [] s
      else if line_break c then rev acc # lines_from [] (d # s)
      else lines_from (c # acc) (d # s))"

definition splitlines :: "string \<Rightarrow> string list" where
  "splitlines s = lines_from [] s"

definition strip_nl :: "string \<Rightarrow> string" where
  "strip_nl s = strip_where (\<lambda>c. c = CHR 0x0A) s"

definition rstrip_nl :: "string \<Rightarrow> string" where
  "rstrip_nl s = rev (dropWhile (\<lambda>c. c = CHR 0x0A) (rev s))"

subsection \<open>Imports and exports of a module\<close>

text \<open>
  \<open>ImportFrom\<close> has the module (\<open>None\<close> in \<open>from . import x\<close>), the number of dots and the names;
  \<open>Assign\<close> the names among its targets and, when the value is a list or tuple, its elements, of
  which \<open>None\<close> are those that are no text constants.
\<close>

datatype stmt =
  ImportFrom "string option" nat "string list"
| Import "string list"
| Assign "string list" "string option list option"
| ConstantExpr
| OtherStmt

type_synonym py_module = "(stmt \<times> nat) list"

type_synonym py_parser = "string \<Rightarrow> tool_error + py_module"

text \<open>\<open>imports.setdefault(m, []).extend(names)\<close> on a dictionary in insertion order.\<close>

definition extend_import :: "string \<Rightarrow> string list \<Rightarrow> (string \<times> string list) list \<Rightarrow> (string \<times> string list) list" where
  "extend_import m names imports =
     (if m \<in> fst ` set imports then map (\<lambda>(k, ns). (k, if k = m then ns @ names else ns)) imports
      else imports @ [(m, names)])"

definition read_stmt :: "stmt \<Rightarrow> (string \<times> string list) list \<times> string list \<Rightarrow> (string \<times> string list) list \<times> string list" where
  "read_stmt st acc =
     (case st of
        ImportFrom (Some m) level names \<Rightarrow>
          (if level = 1 \<and> m \<noteq> [] then (extend_import m names (fst acc), snd acc) else acc)
      | Assign targets (Some elts) \<Rightarrow>
          (if ''__all__'' \<in> set targets then (fst acc, List.map_filter id elts) else acc)
      | _ \<Rightarrow> acc)"

definition module_names :: "py_module \<Rightarrow> (string \<times> string list) list \<times> string list" where
  "module_names body = fold read_stmt (map fst body) ([], [])"

definition add_missing :: "string \<Rightarrow> string list \<Rightarrow> string list" where
  "add_missing x xs = (if x \<in> set xs then xs else xs @ [x])"

definition merge_symbols ::
  "string \<Rightarrow> string list \<Rightarrow> (string \<times> string list) list \<times> string list \<Rightarrow> (string \<times> string list) list \<times> string list" where
  "merge_symbols m symbols acc =
     (map (\<lambda>(k, ns). (k, if k = m then fold add_missing symbols ns else ns)) (extend_import m [] (fst acc)),
      fold add_missing symbols (snd acc))"

definition render_init :: "(string \<times> string list) list \<times> string list \<Rightarrow> string" where
  "render_init acc =
     (let ls = map (\<lambda>(m, names). ''from .'' @ m @ '' import '' @ join '', '' names)
                   (filter (\<lambda>(m, names). names \<noteq> []) (fst acc));
          content = join nl ls @ nl
      in if snd acc \<noteq> []
         then content @ nl @ ''__all__ = ['' @ join '', '' (map py_repr (snd acc)) @ '']'' @ nl
         else content)"

definition update_init :: "py_parser \<Rightarrow> path \<Rightarrow> string \<Rightarrow> string list \<Rightarrow> path tool" where
  "update_init ast_parse init_path m symbols =
     chain (make_dirs (butlast init_path)) (\<lambda>_.
     chain (reading (path_exists init_path)) (\<lambda>there.
     chain (if there
            then chain (read_text init_path) (\<lambda>c.
                 chain (of_result (ast_parse c)) (\<lambda>body. ret (module_names body)))
            else ret ([], [])) (\<lambda>acc.
     chain (write_text init_path (render_init (merge_symbols m symbols acc))) (\<lambda>_.
     ret init_path))))"

definition write_new_file :: "path \<Rightarrow> string \<Rightarrow> bool tool" where
  "write_new_file p content =
     chain (make_dirs (butlast p)) (\<lambda>_.
     chain (reading (path_exists p)) (\<lambda>there.
       if there then ret False else chain (write_text p content) (\<lambda>_. ret True)))"

subsection \<open>Imports of a file\<close>

definition imported :: "py_module \<Rightarrow> (string option \<times> string) set" where
  "imported body =
     (\<Union>st \<in> set (map fst body). case st of
        ImportFrom m _ names \<Rightarrow> (\<lambda>n. (m, n)) ` set names
      | Import names \<Rightarrow> (\<lambda>n. (None, n)) ` set names
      | _ \<Rightarrow> {})"

definition is_import :: "stmt \<Rightarrow> bool" where
  "is_import st \<longleftrightarrow> (case st of ImportFrom _ _ _ \<Rightarrow> True | Import _ \<Rightarrow> True | _ \<Rightarrow> False)"

fun missing_imports :: "py_parser \<Rightarrow> (string option \<times> string) set \<Rightarrow> string list \<Rightarrow> tool_error + string list" where
  "missing_imports ast_parse present [] = Inr []"
| "missing_imports ast_parse present (line # rest) =
     (case ast_parse line of Inl e \<Rightarrow> Inl e
      | Inr body \<Rightarrow>
          (case missing_imports ast_parse present rest of Inl e \<Rightarrow> Inl e
           | Inr ms \<Rightarrow> Inr (if imported body \<subseteq> present then ms else line # ms)))"

definition merge_imports :: "py_parser \<Rightarrow> string \<Rightarrow> string list \<Rightarrow> tool_error + string" where
  "merge_imports ast_parse content imports =
     (case ast_parse content of Inl e \<Rightarrow> Inl e
      | Inr body \<Rightarrow>
          (case missing_imports ast_parse (imported body) imports of Inl e \<Rightarrow> Inl e
           | Inr missing \<Rightarrow>
               if missing = [] then Inr content
               else
                 (let ls = splitlines content;
                      nodes = filter (\<lambda>(st, l). is_import st) body;
                      (insert_at, missing) =
                        (if nodes \<noteq> [] then (snd (last nodes), missing)
                         else case body of
                                (ConstantExpr, l) # _ \<Rightarrow> (l, [] # missing)
                              | _ \<Rightarrow> (0, missing));
                      new_lines = take insert_at ls @ missing @ drop insert_at ls
                  in Inr (strip_nl (join nl new_lines) @ nl))))"

end
