(* ===== verification/Wiring.thy ===== *)
theory Wiring
  imports Files Errors "HOL-Library.Sublist"
begin

section \<open>Wiring a component into the application\<close>

text \<open>
  \<open>register_model\<close>, \<open>register_router\<close> and \<open>register_pyproject\<close> of \<open>scripts/_boilerplate.py\<close>: a line
  in the models' manifest, an import and a mount in \<open>core/api_versions.py\<close>, and an entry in seven
  lists of \<open>pyproject.toml\<close>. When a file does not have the expected shape the developer is told what
  to add, and it is left alone.
\<close>

definition models_manifest :: path where "models_manifest = [''core'', ''models.py'']"
definition api_versions :: path where "api_versions = [''core'', ''api_versions.py'']"
definition pyproject :: path where "pyproject = [''pyproject.toml'']"

subsection \<open>Models\<close>

definition register_model :: "py_parser \<Rightarrow> string \<Rightarrow> string \<Rightarrow> path list tool" where
  "register_model ast_parse domain model_class =
     chain (reading (path_exists models_manifest)) (\<lambda>there.
       if \<not> there then ret []
       else
         chain (read_text models_manifest) (\<lambda>content.
         chain (of_result (ast_parse content)) (\<lambda>body.
           if list_ex (\<lambda>st. case st of ImportFrom m _ names \<Rightarrow>
                          m = Some (domain @ ''.models'') \<and> model_class \<in> set names | _ \<Rightarrow> False) (map fst body)
           then ret []
           else
             (let line = ''from '' @ domain @ ''.models import '' @ model_class @ ''  # noqa: F401'' in
              chain (write_text models_manifest (rstrip_nl content @ nl @ line @ nl)) (\<lambda>_.
              ret [models_manifest])))))"

subsection \<open>Routers\<close>

definition import_line :: "string \<Rightarrow> string \<Rightarrow> string" where
  "import_line domain router_var = ''from '' @ domain @ ''.routes import '' @ router_var"

definition include_line :: "string \<Rightarrow> string" where
  "include_line router_var = ''v1_router.include_router('' @ router_var @ '')''"

text \<open>The indices of the lines that start with one of some texts.\<close>

definition line_indices :: "string list \<Rightarrow> string list \<Rightarrow> nat list" where
  "line_indices starts_with ls = filter (\<lambda>i. list_ex (startswith (ls ! i)) starts_with) [0..<length ls]"

text \<open>\<open>list.insert\<close>: an index past the end appends.\<close>

definition insert_at :: "nat \<Rightarrow> 'a \<Rightarrow> 'a list \<Rightarrow> 'a list" where
  "insert_at i x xs = take i xs @ x # drop i xs"

text \<open>\<open>None\<close>: the lines cannot be wired.\<close>

definition wire_router :: "string \<Rightarrow> string \<Rightarrow> string list \<Rightarrow> string list option" where
  "wire_router imp inc ls =
     (let import_idx = line_indices [''from '', ''import ''] ls;
          include_idx = line_indices [''v1_router.include_router(''] ls
      in if import_idx = [] \<or> line_indices [''v1_router =''] ls = [] then None
         else
           (let ls1 = (if inc \<notin> set ls
                       then insert_at (if include_idx \<noteq> [] then last include_idx + 1 else length ls) inc ls
                       else ls)
            in Some (if imp \<notin> set ls1 then insert_at (last import_idx + 1) imp ls1 else ls1)))"

definition register_router :: "string \<Rightarrow> string \<Rightarrow> path list tool" where
  "register_router domain router_var =
     (let imp = import_line domain router_var; inc = include_line router_var in
      chain (reading (path_exists api_versions)) (\<lambda>there.
        if \<not> there then ret []
        else
          chain (read_text api_versions) (\<lambda>content.
            let ls = splitlines content in
            if imp \<in> set ls \<and> inc \<in> set ls then ret []
            else
              (case wire_router imp inc ls of None \<Rightarrow> ret []
               | Some new \<Rightarrow>
                   chain (write_text api_versions (join nl new @ nl)) (\<lambda>_. ret [api_versions])))))"

subsection \<open>Lists of pyproject.toml\<close>

text \<open>\<open>re.findall\<close> of the texts between double quotes.\<close>

function list_values :: "string \<Rightarrow> string list" where
  "list_values s =
     (let rest = tl (dropWhile (\<lambda>c. c \<noteq> CHR 0x22) s) in
      if CHR 0x22 \<in> set s \<and> CHR 0x22 \<in> set rest
      then takeWhile (\<lambda>c. c \<noteq> CHR 0x22) rest # list_values (tl (dropWhile (\<lambda>c. c \<noteq> CHR 0x22) rest))
      else [])"
  by pat_completeness auto
termination
proof (relation "measure length")
  fix s rest :: string
  assume "rest = tl (dropWhile (\<lambda>c. c \<noteq> CHR 0x22) s)" "CHR 0x22 \<in> set s \<and> CHR 0x22 \<in> set rest"
  moreover from this have "rest \<noteq> []" "s \<noteq> []" by auto
  moreover have "length rest \<le> length s - 1"
    using \<open>rest = _\<close> by (simp add: length_dropWhile_le diff_le_mono)
  moreover have "length (dropWhile (\<lambda>c. c \<noteq> CHR 0x22) rest) \<le> length rest" by (rule length_dropWhile_le)
  ultimately show "(tl (dropWhile (\<lambda>c. c \<noteq> CHR 0x22) rest), s) \<in> measure length"
    by (cases s; cases rest) auto
qed simp

declare list_values.simps [simp del]

text \<open>
  A line \<open>key = [...]\<close> with its list on one line: what is between the brackets and what follows.
\<close>

definition list_line :: "string \<Rightarrow> string \<Rightarrow> (string \<times> string) option" where
  "list_line key l =
     (let p = key @ '' = ['' in
      if startswith l p \<and> CHR '']'' \<in> set (drop (length p) l)
      then Some (takeWhile (\<lambda>c. c \<noteq> CHR '']'') (drop (length p) l),
                 tl (dropWhile (\<lambda>c. c \<noteq> CHR '']'') (drop (length p) l)))
      else None)"

definition render_list :: "string \<Rightarrow> string list \<Rightarrow> string \<Rightarrow> string" where
  "render_list key vals rest = key @ '' = ['' @ join '', '' (map (\<lambda>v. dq @ v @ dq) vals) @ '']'' @ rest"

fun add_to_lines :: "string \<Rightarrow> string \<Rightarrow> string option \<Rightarrow> string list \<Rightarrow> string list" where
  "add_to_lines key value must_contain [] = []"
| "add_to_lines key value must_contain (l # ls) =
     (case list_line key l of None \<Rightarrow> l # add_to_lines key value must_contain ls
      | Some (items, rest) \<Rightarrow>
          (let vals = list_values items in
           if (case must_contain of None \<Rightarrow> False | Some m \<Rightarrow> \<not> list_ex (\<lambda>v. contains v m) vals)
           then l # add_to_lines key value must_contain ls
           else if value \<in> set vals then l # ls
           else render_list key (vals @ [value]) rest # ls))"

definition add_to_list :: "string \<Rightarrow> string \<Rightarrow> string \<Rightarrow> string option \<Rightarrow> string" where
  "add_to_list content key value must_contain =
     join nl (add_to_lines key value must_contain (split_on (CHR 0x0A) content))"

definition pyproject_targets :: "string \<Rightarrow> (string \<times> string \<times> string option) list" where
  "pyproject_targets domain =
     [(''include'', domain @ ''*'', None), (''known-first-party'', domain, None), (''source'', domain, None),
      (''known_first_party'', domain, None), (''root_packages'', domain, None), (''containers'', domain, None),
      (''source_modules'', domain @ ''.entities'', Some ''.entities'')]"

text \<open>
  The parsed document as JSON. \<open>get_or key d v\<close> is \<open>v.get(key, d)\<close>, which only a table has; \<open>in\<close> asks
  a list for an element, a table for a key and a text for a part.
\<close>

definition get_or :: "string \<Rightarrow> json \<Rightarrow> json \<Rightarrow> tool_error + json" where
  "get_or key d v =
     (case v of JObj ms \<Rightarrow> Inr (case map_of ms key of None \<Rightarrow> d | Some x \<Rightarrow> x)
      | _ \<Rightarrow> Inl (AttributeErr ''get''))"

fun dig :: "json \<Rightarrow> string list \<Rightarrow> tool_error + json" where
  "dig v [] = Inr (if v \<in> {JObj [], JList [], JStr [], JNull, JInt 0, JBool False} then JList [] else v)"
| "dig v (k # ks) = (case get_or k (JObj []) v of Inl e \<Rightarrow> Inl e | Inr x \<Rightarrow> dig x ks)"

text \<open>What Python iterates over.\<close>

definition elements :: "json \<Rightarrow> tool_error + json list" where
  "elements v =
     (case v of JList xs \<Rightarrow> Inr xs | JObj ms \<Rightarrow> Inr (map (\<lambda>m. JStr (fst m)) ms)
      | JStr s \<Rightarrow> Inr (map (\<lambda>c. JStr [c]) s) | _ \<Rightarrow> Inl (TypeErr ''not iterable''))"

text \<open>\<open>next((c for c in xs if test(c)), {})\<close> and \<open>any(test(x) for x in xs)\<close>: both stop at the first.\<close>

fun next_where :: "(json \<Rightarrow> tool_error + bool) \<Rightarrow> json list \<Rightarrow> tool_error + json" where
  "next_where test [] = Inr (JObj [])"
| "next_where test (c # cs) =
     (case test c of Inl e \<Rightarrow> Inl e | Inr b \<Rightarrow> if b then Inr c else next_where test cs)"

fun any_of :: "('a \<Rightarrow> tool_error + bool) \<Rightarrow> 'a list \<Rightarrow> tool_error + bool" where
  "any_of test [] = Inr False"
| "any_of test (x # xs) =
     (case test x of Inl e \<Rightarrow> Inl e | Inr b \<Rightarrow> if b then Inr True else any_of test xs)"

definition is_layers :: "json \<Rightarrow> tool_error + bool" where
  "is_layers c = (case get_or ''type'' JNull c of Inl e \<Rightarrow> Inl e | Inr v \<Rightarrow> Inr (v = JStr ''layers''))"

definition is_entities :: "json \<Rightarrow> tool_error + bool" where
  "is_entities c =
     (case get_or ''source_modules'' (JList []) c of Inl e \<Rightarrow> Inl e
      | Inr v \<Rightarrow>
          (case elements v of Inl e \<Rightarrow> Inl e
           | Inr ms \<Rightarrow> any_of (\<lambda>m. case m of JStr s \<Rightarrow> Inr (endswith s ''.entities'')
                                     | _ \<Rightarrow> Inl (AttributeErr ''endswith'')) ms))"

fun all_results :: "('e + 'a) list \<Rightarrow> 'e + 'a list" where
  "all_results [] = Inr []"
| "all_results (x # xs) =
     (case x of Inl e \<Rightarrow> Inl e | Inr v \<Rightarrow> (case all_results xs of Inl e \<Rightarrow> Inl e | Inr vs \<Rightarrow> Inr (v # vs)))"

definition bind_result :: "'e + 'a \<Rightarrow> ('a \<Rightarrow> 'e + 'b) \<Rightarrow> 'e + 'b" where
  "bind_result x f = (case x of Inl e \<Rightarrow> Inl e | Inr v \<Rightarrow> f v)"

definition pyproject_lists :: "json \<Rightarrow> tool_error + json list" where
  "pyproject_lists data =
     bind_result (get_or ''tool'' (JObj []) data) (\<lambda>tool.
     bind_result (dig tool [''importlinter'', ''contracts'']) (\<lambda>found.
     bind_result (elements found) (\<lambda>contracts.
     bind_result (next_where is_layers contracts) (\<lambda>layers.
     bind_result (next_where is_entities contracts) (\<lambda>entities.
       all_results
         [dig tool [''setuptools'', ''packages'', ''find'', ''include''],
          dig tool [''ruff'', ''lint'', ''isort'', ''known-first-party''],
          dig tool [''coverage'', ''run'', ''source''], dig tool [''deptry'', ''known_first_party''],
          dig tool [''importlinter'', ''root_packages''], get_or ''containers'' (JList []) layers,
          get_or ''source_modules'' (JList []) entities])))))"

definition lacks :: "string \<times> json \<Rightarrow> tool_error + bool" where
  "lacks p =
     (case snd p of JList xs \<Rightarrow> Inr (JStr (fst p) \<notin> set xs) | JObj ms \<Rightarrow> Inr (fst p \<notin> fst ` set ms)
      | JStr s \<Rightarrow> Inr (\<not> contains s (fst p)) | _ \<Rightarrow> Inl (TypeErr ''not a container''))"

text \<open>The text with the seven entries added, and whether the parsed document has them all.\<close>

definition with_domain :: "string \<Rightarrow> string \<Rightarrow> string" where
  "with_domain domain content =
     fold (\<lambda>(key, value, must_contain) c. add_to_list c key value must_contain) (pyproject_targets domain) content"

definition domain_missing :: "string \<Rightarrow> json \<Rightarrow> tool_error + bool" where
  "domain_missing domain data =
     bind_result (pyproject_lists data) (\<lambda>lists.
       any_of lacks (zip (map (\<lambda>(key, value, must). value) (pyproject_targets domain)) lists))"

definition register_pyproject :: "(string \<Rightarrow> json option) \<Rightarrow> string \<Rightarrow> path list tool" where
  "register_pyproject loads domain =
     chain (reading (path_exists pyproject)) (\<lambda>there.
       if \<not> there then ret []
       else
         chain (read_text pyproject) (\<lambda>original.
           let content = with_domain domain original in
           (case loads content of None \<Rightarrow> ret []
            | Some data \<Rightarrow>
                chain (of_result (domain_missing domain data)) (\<lambda>missing.
                  if missing then ret []
                  else if content = original then ret []
                  else chain (write_text pyproject content) (\<lambda>_. ret [pyproject])))))"

subsection \<open>Lines are read back\<close>

definition one_line :: "string \<Rightarrow> bool" where
  "one_line l \<longleftrightarrow> list_all (\<lambda>c. \<not> line_break c) l"

lemma one_line_simps [simp]:
  "one_line []" "one_line (c # l) \<longleftrightarrow> \<not> line_break c \<and> one_line l" "one_line (a @ l) \<longleftrightarrow> one_line a \<and> one_line l"
  by (simp_all add: one_line_def)

lemma one_line_rev [simp]: "one_line (rev l) = one_line l"
  by (simp add: one_line_def list_all_iff)

lemma lines_from_one_line: "one_line acc \<Longrightarrow> \<forall>l \<in> set (lines_from acc s). one_line l"
  by (induction acc s rule: lines_from.induct) auto

lemma lines_from_cons:
  assumes "\<not> line_break c"
  shows "lines_from acc (c # CHR 0x0A # s) = rev (c # acc) # lines_from [] s"
    and "lines_from acc (c # d # s) = lines_from (c # acc) (d # s)"
  using assms by (cases s; simp add: line_break_def)+

lemma lines_from_line: "one_line l \<Longrightarrow> lines_from acc (l @ CHR 0x0A # s) = (rev acc @ l) # lines_from [] s"
proof (induction l arbitrary: acc)
  case Nil
  then show ?case by (cases s) (simp_all add: line_break_def)
next
  case (Cons c l)
  then have "\<not> line_break c" "lines_from (c # acc) (l @ CHR 0x0A # s) = (rev acc @ c # l) # lines_from [] s" by simp_all
  then show ?case by (cases l) (auto simp: line_break_def)
qed

lemma splitlines_unlines: "list_all one_line ls \<Longrightarrow> splitlines (unlines ls) = ls"
  by (induction ls) (simp_all add: splitlines_def unlines_def lines_from_line)

lemma join_unlines: "ls \<noteq> [] \<Longrightarrow> join nl ls @ nl = unlines ls"
  by (induction nl ls rule: join.induct) (simp_all add: unlines_def)

lemma split_join_nl: "ls \<noteq> [] \<Longrightarrow> (\<And>l. l \<in> set ls \<Longrightarrow> CHR 0x0A \<notin> set l) \<Longrightarrow> split_on (CHR 0x0A) (join nl ls) = ls"
  by (rule split_on_join)

subsection \<open>The router\<close>

lemma insert_at_set [simp]: "set (insert_at i x xs) = insert x (set xs)"
proof -
  have "set (take i xs) \<union> set (drop i xs) = set xs" by (metis append_take_drop_id set_append)
  then show ?thesis by (auto simp: insert_at_def)
qed

lemma insert_at_length [simp]: "length (insert_at i x xs) = Suc (length xs)"
  by (simp add: insert_at_def)

lemma insert_at_subseq: "subseq xs (insert_at i x xs)"
proof -
  have "subseq (take i xs @ drop i xs) (take i xs @ x # drop i xs)"
    by (intro list_emb_append_mono) auto
  then show ?thesis by (simp add: insert_at_def)
qed

lemma wire_router_effect:
  assumes "wire_router imp inc ls = Some new"
  shows "subseq ls new" and "set new = insert imp (insert inc (set ls))"
    and "length new \<le> length ls + 2"
proof -
  obtain i j where new: "new = (let ls1 = (if inc \<notin> set ls then insert_at i inc ls else ls)
      in if imp \<notin> set ls1 then insert_at j imp ls1 else ls1)"
    using assms by (auto simp: wire_router_def Let_def split: if_splits)
  define ls1 where "ls1 = (if inc \<notin> set ls then insert_at i inc ls else ls)"
  have 1: "subseq ls ls1" "set ls1 = insert inc (set ls)" "length ls1 \<le> length ls + 1"
    by (auto simp: ls1_def insert_at_subseq)
  have new: "new = (if imp \<notin> set ls1 then insert_at j imp ls1 else ls1)" using new by (simp add: ls1_def Let_def)
  show "subseq ls new" using 1(1) insert_at_subseq [of ls1 j imp] subseq_order.trans by (auto simp: new)
  show "set new = insert imp (insert inc (set ls))" using 1(2) by (auto simp: new)
  show "length new \<le> length ls + 2" using 1(3) by (auto simp: new)
qed

text \<open>
  Wiring a router loses nothing and happens once: the file is left alone or rewritten with
  every line it had, in order, and at most the import and the mount added; both are there then, and
  wiring the router again changes nothing.
\<close>

theorem router_wired_once:
  assumes "register_router domain router_var t = (Inr ps, t')" and "one_line domain" and "one_line router_var"
  shows "t' = t \<and> ps = [] \<or>
    (\<exists>old new. t api_versions = Some (File old) \<and> t' = t(api_versions \<mapsto> File (unlines new))
      \<and> subseq (splitlines old) new \<and> length new \<le> length (splitlines old) + 2
      \<and> set new = set (splitlines old) \<union> {import_line domain router_var, include_line router_var}
      \<and> register_router domain router_var t' = (Inr [], t'))"
proof (cases "\<exists>old new. t api_versions = Some (File old)
    \<and> wire_router (import_line domain router_var) (include_line router_var) (splitlines old) = Some new
    \<and> \<not> {import_line domain router_var, include_line router_var} \<subseteq> set (splitlines old)")
  case True
  let ?imp = "import_line domain router_var" and ?inc = "include_line router_var"
  obtain old new where o: "t api_versions = Some (File old)" "wire_router ?imp ?inc (splitlines old) = Some new"
    "\<not> {?imp, ?inc} \<subseteq> set (splitlines old)" using True by blast
  have ne: "new \<noteq> []" using wire_router_effect(2) [OF o(2)] by auto
  have t': "t' = t(api_versions \<mapsto> File (unlines new))"
    using assms(1) o ne
    by (auto simp: register_router_def reading_def path_exists_def chain_def read_text_def write_text_def Let_def
        join_unlines split: node.splits option.splits if_splits)
  have "one_line ?imp" "one_line ?inc"
    using assms(2,3) by (simp_all add: import_line_def include_line_def line_break_def)
  then have "list_all one_line new"
    using wire_router_effect(2) [OF o(2)] lines_from_one_line [of "[]" old] by (auto simp: list_all_iff splitlines_def)
  then have "splitlines (unlines new) = new" by (rule splitlines_unlines)
  then have "register_router domain router_var t' = (Inr [], t')"
    using wire_router_effect(2) [OF o(2)]
    by (simp add: register_router_def reading_def path_exists_def chain_def read_text_def Let_def t')
  then show ?thesis using wire_router_effect [OF o(2)] o(1) t' by auto
next
  case False
  then have "t' = t \<and> ps = []"
    using assms(1)
    by (auto simp: register_router_def reading_def path_exists_def chain_def read_text_def Let_def
        split: node.splits option.splits if_splits)
  then show ?thesis by simp
qed

subsection \<open>pyproject.toml\<close>

text \<open>A rendered list is read back, so adding an entry twice adds it once.\<close>

lemma list_values_Nil [simp]: "list_values [] = []"
  by (subst list_values.simps) simp

lemma list_values_step:
  assumes "CHR 0x22 \<notin> set a" and "CHR 0x22 \<notin> set v"
  shows "list_values (a @ CHR 0x22 # v @ CHR 0x22 # s) = v # list_values s"
proof -
  have "dropWhile (\<lambda>c. c \<noteq> CHR 0x22) (a @ CHR 0x22 # v @ CHR 0x22 # s) = CHR 0x22 # v @ CHR 0x22 # s"
    using break_at [OF assms(1)] by blast
  moreover have "takeWhile (\<lambda>c. c \<noteq> CHR 0x22) (v @ CHR 0x22 # s) = v"
    "dropWhile (\<lambda>c. c \<noteq> CHR 0x22) (v @ CHR 0x22 # s) = CHR 0x22 # s"
    using break_at [OF assms(2)] by blast+
  ultimately show ?thesis by (subst list_values.simps) (simp add: Let_def)
qed

lemma list_values_skip:
  assumes "CHR 0x22 \<notin> set a"
  shows "list_values (a @ r) = list_values r"
proof -
  define body where "body d b = (let rest = tl d in
      if b \<and> CHR 0x22 \<in> set rest
      then takeWhile (\<lambda>c. c \<noteq> CHR 0x22) rest # list_values (tl (dropWhile (\<lambda>c. c \<noteq> CHR 0x22) rest))
      else [])" for d b
  have body: "list_values s = body (dropWhile (\<lambda>c. c \<noteq> CHR 0x22) s) (CHR 0x22 \<in> set s)" for s
    by (subst list_values.simps) (simp only: body_def Let_def)
  have "dropWhile (\<lambda>c. c \<noteq> CHR 0x22) (a @ r) = dropWhile (\<lambda>c. c \<noteq> CHR 0x22) r"
    using assms by (induction a) auto
  moreover have "CHR 0x22 \<in> set (a @ r) \<longleftrightarrow> CHR 0x22 \<in> set r" using assms by simp
  ultimately show ?thesis by (simp only: body)
qed

lemma list_values_join:
  "list_all (\<lambda>v. CHR 0x22 \<notin> set v) vs \<Longrightarrow> list_values (join '', '' (map (\<lambda>v. dq @ v @ dq) vs)) = vs"
proof (induction vs)
  case (Cons v vs)
  have v: "CHR 0x22 \<notin> set v" using Cons.prems by simp
  show ?case
  proof (cases vs)
    case Nil
    then show ?thesis using list_values_step [of "[]" v "[]"] v by simp
  next
    case (Cons w ws)
    let ?more = "join '', '' (map (\<lambda>v. dq @ v @ dq) vs)"
    have "join '', '' (map (\<lambda>v. dq @ v @ dq) (v # vs)) = [] @ CHR 0x22 # v @ CHR 0x22 # ('', '' @ ?more)"
      using Cons by simp
    moreover have "list_values ('', '' @ ?more) = list_values ?more" by (rule list_values_skip) simp
    moreover have "list_values ?more = vs" using Cons.IH Cons.prems by simp
    ultimately show ?thesis using list_values_step [of "[]" v "'', '' @ ?more"] v by simp
  qed
qed simp

lemma list_values_clean: "v \<in> set (list_values s) \<Longrightarrow> set v \<subseteq> set s \<and> CHR 0x22 \<notin> set v"
proof (induction s rule: list_values.induct)
  case (1 s)
  let ?rest = "tl (dropWhile (\<lambda>c. c \<noteq> CHR 0x22) s)"
  have tails: "set (tl (dropWhile (\<lambda>c. c \<noteq> CHR 0x22) x)) \<subseteq> set x" for x
    by (induction x) auto
  note sub = tails [of s] and sub2 = tails [of ?rest]
  have step: "list_values s = (if CHR 0x22 \<in> set s \<and> CHR 0x22 \<in> set ?rest
      then takeWhile (\<lambda>c. c \<noteq> CHR 0x22) ?rest # list_values (tl (dropWhile (\<lambda>c. c \<noteq> CHR 0x22) ?rest)) else [])"
    by (subst list_values.simps) (simp only: Let_def)
  with "1.prems" have q: "CHR 0x22 \<in> set s \<and> CHR 0x22 \<in> set ?rest"
    and v: "v = takeWhile (\<lambda>c. c \<noteq> CHR 0x22) ?rest \<or> v \<in> set (list_values (tl (dropWhile (\<lambda>c. c \<noteq> CHR 0x22) ?rest)))"
    by (auto split: if_splits)
  from v show ?case
  proof
    assume "v = takeWhile (\<lambda>c. c \<noteq> CHR 0x22) ?rest"
    with sub show ?thesis by (auto dest: set_takeWhileD)
  next
    assume "v \<in> set (list_values (tl (dropWhile (\<lambda>c. c \<noteq> CHR 0x22) ?rest)))"
    from "1.IH" [OF refl q this] sub sub2 show ?thesis by blast
  qed
qed

lemma list_line_parts:
  assumes "list_line key l = Some (items, rest)"
  shows "l = key @ '' = ['' @ items @ '']'' @ rest" and "CHR '']'' \<notin> set items"
proof -
  let ?p = "key @ '' = [''"
  define d where "d = drop (length ?p) l"
  have s: "take (length ?p) l = ?p" and m: "CHR '']'' \<in> set d"
    and i: "items = takeWhile (\<lambda>c. c \<noteq> CHR '']'') d" "rest = tl (dropWhile (\<lambda>c. c \<noteq> CHR '']'') d)"
    using assms by (auto simp: list_line_def Let_def startswith_def d_def split: if_splits)
  have "dropWhile (\<lambda>c. c \<noteq> CHR '']'') d \<noteq> []" using m by (auto simp: dropWhile_eq_Nil_conv)
  then have "dropWhile (\<lambda>c. c \<noteq> CHR '']'') d = CHR '']'' # rest"
    using hd_dropWhile [of "\<lambda>c. c \<noteq> CHR '']''" d] i(2) by (metis list.collapse)
  then have "d = items @ '']'' @ rest" using takeWhile_dropWhile_id [of "\<lambda>c. c \<noteq> CHR '']''" d] i(1) by simp
  moreover have "l = ?p @ d" using s append_take_drop_id [of "length ?p" l] by (simp add: d_def)
  ultimately show "l = key @ '' = ['' @ items @ '']'' @ rest" by simp
  show "CHR '']'' \<notin> set items" unfolding i(1) using set_takeWhileD by fastforce
qed

lemma list_line_render:
  "CHR '']'' \<notin> set items \<Longrightarrow> list_line key (key @ '' = ['' @ items @ '']'' @ rest) = Some (items, rest)"
  using break_at [of "CHR '']''" items rest]
  by (simp add: list_line_def Let_def startswith_def)

definition plain_value :: "string \<Rightarrow> bool" where
  "plain_value v \<longleftrightarrow> CHR 0x22 \<notin> set v \<and> CHR '']'' \<notin> set v \<and> CHR 0x0A \<notin> set v"

lemma join_set: "set (join sep ws) \<subseteq> set sep \<union> (\<Union>w \<in> set ws. set w)"
  by (induction sep ws rule: join.induct) auto

lemma list_line_added:
  assumes "list_line key l = Some (items, rest)" and "plain_value value"
  shows "list_line key (render_list key (list_values items @ [value]) rest)
      = Some (join '', '' (map (\<lambda>v. dq @ v @ dq) (list_values items @ [value])), rest)"
    and "list_values (join '', '' (map (\<lambda>v. dq @ v @ dq) (list_values items @ [value]))) = list_values items @ [value]"
proof -
  let ?vs = "list_values items @ [value]"
  have v: "CHR 0x22 \<notin> set v \<and> CHR '']'' \<notin> set v" if "v \<in> set ?vs" for v
    using that assms(2) list_values_clean [of v items] list_line_parts(2) [OF assms(1)] by (auto simp: plain_value_def)
  have "CHR '']'' \<notin> set (join '', '' (map (\<lambda>v. dq @ v @ dq) ?vs))"
  proof
    assume "CHR '']'' \<in> set (join '', '' (map (\<lambda>v. dq @ v @ dq) ?vs))"
    then have "CHR '']'' \<in> set '', '' \<union> (\<Union>w \<in> set (map (\<lambda>v. dq @ v @ dq) ?vs). set w)" using join_set by blast
    then have "CHR '']'' \<in> set '', '' \<or> (\<exists>w \<in> set (map (\<lambda>v. dq @ v @ dq) ?vs). CHR '']'' \<in> set w)"
      by (simp only: Un_iff UN_iff)
    moreover have "CHR '']'' \<notin> set '', ''" by simp
    ultimately obtain v where "v \<in> set ?vs" "CHR '']'' \<in> set (dq @ v @ dq)" unfolding set_map by blast
    with v show False by auto
  qed
  then show "list_line key (render_list key ?vs rest) = Some (join '', '' (map (\<lambda>v. dq @ v @ dq) ?vs), rest)"
    unfolding render_list_def by (rule list_line_render)
  show "list_values (join '', '' (map (\<lambda>v. dq @ v @ dq) ?vs)) = ?vs"
    using v by (intro list_values_join) (auto simp: list_all_iff)
qed

lemma add_to_lines_idem:
  "plain_value value \<Longrightarrow> add_to_lines key value m (add_to_lines key value m ls) = add_to_lines key value m ls"
proof (induction ls)
  case (Cons l ls)
  show ?case
  proof (cases "list_line key l")
    case (Some p)
    obtain items rest where p: "p = (items, rest)" by (rule prod.exhaust)
    note added = list_line_added [OF Some [unfolded p] Cons.prems]
    show ?thesis using Some p Cons added by (auto simp: Let_def list_ex_iff split: option.splits)
  qed (use Cons in simp)
qed simp

text \<open>One target leaves the lines of the others alone.\<close>

type_synonym list_target = "string \<times> string \<times> string option"

definition target_ok :: "list_target \<Rightarrow> bool" where
  "target_ok tg \<longleftrightarrow> CHR '' '' \<notin> set (fst tg) \<and> CHR 0x0A \<notin> set (fst tg) \<and> plain_value (fst (snd tg))"

definition add_target :: "list_target \<Rightarrow> string list \<Rightarrow> string list" where
  "add_target tg = (case tg of (key, value, m) \<Rightarrow> add_to_lines key value m)"

definition extended_by :: "list_target set \<Rightarrow> string \<Rightarrow> string \<Rightarrow> bool" where
  "extended_by tgs a b \<longleftrightarrow> a = b \<or>
     (\<exists>(key, value, m) \<in> tgs. \<exists>items rest. list_line key a = Some (items, rest)
        \<and> b = render_list key (list_values items @ [value]) rest)"

lemma extended_mono: "extended_by A a b \<Longrightarrow> A \<subseteq> B \<Longrightarrow> extended_by B a b"
  unfolding extended_by_def by blast

lemma list_line_key:
  assumes "list_line k l = Some p" and "CHR '' '' \<notin> set k"
  shows "takeWhile (\<lambda>x. x \<noteq> CHR '' '') l = k"
proof -
  have "l = k @ CHR '' '' # (''= ['' @ fst p @ '']'' @ snd p)"
    using list_line_parts(1) [of k l "fst p" "snd p"] assms(1) by simp
  then show ?thesis using break_at [OF assms(2)] by metis
qed

lemma list_line_other:
  assumes "list_line k l = Some p" and "k \<noteq> k'" and "CHR '' '' \<notin> set k" and "CHR '' '' \<notin> set k'"
  shows "list_line k' l = None"
  using list_line_key [OF assms(1,3)] list_line_key [OF _ assms(4), of l] assms(2) by (cases "list_line k' l") auto

lemma list_line_extended:
  assumes "target_ok (key, value, m)" and "list_line key l = Some (items, rest)"
  shows "\<exists>q. list_line key (render_list key (list_values items @ [value]) rest) = Some q"
  using list_line_added(1) [OF assms(2)] assms(1) by (simp add: target_ok_def)

lemma add_target_idem: "target_ok tg \<Longrightarrow> add_target tg (add_target tg ls) = add_target tg ls"
  by (cases tg) (simp add: add_target_def target_ok_def add_to_lines_idem)

lemma add_target_other:
  assumes "target_ok tg" and "target_ok tg'" and "fst tg \<noteq> fst tg'" and "add_target tg ls = ls"
  shows "add_target tg (add_target tg' ls) = add_target tg' ls"
proof -
  obtain k v m k' v' m' where tg: "tg = (k, v, m)" "tg' = (k', v', m')" by (metis prod_cases3)
  have keys: "k \<noteq> k'" "CHR '' '' \<notin> set k" "CHR '' '' \<notin> set k'" using assms(1-3) by (simp_all add: tg target_ok_def)
  have "add_to_lines k v m ls = ls \<Longrightarrow>
      add_to_lines k v m (add_to_lines k' v' m' ls) = add_to_lines k' v' m' ls"
  proof (induction ls)
    case (Cons l ls)
    show ?case
    proof (cases "list_line k' l")
      case None
      then show ?thesis using Cons by (auto simp: Let_def split: option.splits prod.splits if_splits)
    next
      case (Some p)
      obtain items rest where p: "p = (items, rest)" by (rule prod.exhaust)
      have l: "list_line k l = None" using list_line_other [OF Some] keys by metis
      have "list_line k (render_list k' (list_values items @ [v']) rest) = None"
        using list_line_extended [OF assms(2) [unfolded tg] Some [unfolded p]] list_line_other [of k' _ _ k] keys
        by metis
      with Cons l Some p show ?thesis by (auto simp: Let_def)
    qed
  qed simp
  with assms(4) show ?thesis by (simp add: tg add_target_def)
qed

lemma add_target_extends: "list_all2 (extended_by {tg}) ls (add_target tg ls)"
proof -
  obtain k v m where tg: "tg = (k, v, m)" by (metis prod_cases3)
  have same: "list_all2 (extended_by {tg}) xs xs" for xs by (rule list_all2_refl) (simp add: extended_by_def)
  have "list_all2 (extended_by {tg}) ls (add_to_lines k v m ls)"
  proof (induction ls)
    case (Cons l ls)
    show ?case
    proof (cases "list_line k l")
      case (Some p)
      obtain items rest where p: "p = (items, rest)" by (rule prod.exhaust)
      have "extended_by {tg} l (render_list k (list_values items @ [v]) rest)"
        using Some p by (auto simp: extended_by_def tg)
      moreover have "extended_by {tg} l l" by (simp add: extended_by_def)
      ultimately show ?thesis using Some p Cons same by (simp add: Let_def)
    qed (use Cons in \<open>simp add: extended_by_def\<close>)
  qed simp
  then show ?thesis by (simp add: tg add_target_def)
qed

lemma fold_targets:
  assumes "distinct (map fst tgs)" and "list_all target_ok tgs"
  shows "list_all2 (extended_by (set tgs)) ls (fold add_target tgs ls)"
    and "\<forall>tg \<in> set tgs. add_target tg (fold add_target tgs ls) = fold add_target tgs ls"
  using assms
proof (induction tgs rule: rev_induct)
  case Nil
  {
    case 1
    show ?case by (simp add: extended_by_def list_all2_refl)
  next
    case 2
    show ?case by simp
  }
next
  case (snoc tg tgs)
  have pre: "distinct (map fst tgs)" "list_all target_ok tgs" "target_ok tg" "fst tg \<notin> fst ` set tgs"
    if "distinct (map fst (tgs @ [tg]))" "list_all target_ok (tgs @ [tg])"
    using that by auto
  {
    case 1
    note p = pre [OF 1]
    have "extended_by (set (tgs @ [tg])) a c" if ab: "extended_by (set tgs) a b" and bc: "extended_by {tg} b c" for a b c
    proof (cases "a = b")
      case True
      with bc show ?thesis using extended_mono [of "{tg}"] by auto
    next
      case False
      then obtain k v m items rest where k: "(k, v, m) \<in> set tgs" "list_line k a = Some (items, rest)"
        "b = render_list k (list_values items @ [v]) rest"
        using ab by (auto simp: extended_by_def)
      have ok: "target_ok (k, v, m)" using k(1) p(2) by (auto simp: list_all_iff)
      obtain q where q: "list_line k b = Some q" using list_line_extended [OF ok k(2)] k(3) by blast
      have "fst tg \<noteq> k" using k(1) p(4) by (metis fst_conv image_eqI)
      then have "list_line (fst tg) b = None"
        using list_line_other [OF q] ok p(3) by (metis fst_conv target_ok_def)
      then have "c = b" using bc by (cases tg) (auto simp: extended_by_def)
      moreover have "set tgs \<subseteq> set (tgs @ [tg])" by auto
      ultimately show ?thesis using extended_mono [OF ab] by blast
    qed
    then have trans: "\<And>a b c. extended_by (set tgs) a b \<Longrightarrow> extended_by {tg} b c \<Longrightarrow> extended_by (set (tgs @ [tg])) a c" .
    show ?case
      using list_all2_trans [OF trans snoc.IH(1) [OF p(1,2)] add_target_extends]
      by simp
  next
    case 2
    note p = pre [OF 2]
    have "add_target t (add_target tg (fold add_target tgs ls)) = add_target tg (fold add_target tgs ls)" if "t \<in> set tgs" for t
    proof (rule add_target_other)
      show "target_ok t" using that p(2) by (simp add: list_all_iff)
      show "fst t \<noteq> fst tg" using that p(4) by (metis image_eqI)
      show "add_target t (fold add_target tgs ls) = fold add_target tgs ls" using snoc.IH(2) [OF p(1,2)] that by blast
    qed (rule p(3))
    then show ?case using add_target_idem [OF p(3)] by auto
  }
qed

lemma fold_targets_idem:
  assumes "distinct (map fst tgs)" and "list_all target_ok tgs"
  shows "fold add_target tgs (fold add_target tgs ls) = fold add_target tgs ls"
proof -
  let ?l = "fold add_target tgs ls"
  have "fold add_target ts ?l = ?l" if "set ts \<subseteq> set tgs" for ts
    using that fold_targets(2) [OF assms, of ls] by (induction ts) auto
  then show ?thesis by blast
qed

text \<open>From lines to the text.\<close>

definition clean_lines :: "string list \<Rightarrow> bool" where
  "clean_lines ls \<longleftrightarrow> ls \<noteq> [] \<and> list_all (\<lambda>l. CHR 0x0A \<notin> set l) ls"

lemma extended_clean:
  assumes "extended_by tgs a b" and "list_all target_ok (x # xs)" and "tgs \<subseteq> set (x # xs)" and "CHR 0x0A \<notin> set a"
  shows "CHR 0x0A \<notin> set b"
proof (cases "a = b")
  case False
  then obtain k v m items rest where k: "(k, v, m) \<in> tgs" "list_line k a = Some (items, rest)"
    "b = render_list k (list_values items @ [v]) rest"
    using assms(1) by (auto simp: extended_by_def)
  have ok: "target_ok (k, v, m)" using k(1) assms(2,3) by (auto simp: list_all_iff)
  let ?vs = "map (\<lambda>v. dq @ v @ dq) (list_values items @ [v])"
  have parts: "CHR 0x0A \<notin> set items" "CHR 0x0A \<notin> set rest" "CHR 0x0A \<notin> set k"
    using list_line_parts(1) [OF k(2)] assms(4) ok by (auto simp: target_ok_def)
  have "CHR 0x0A \<notin> set w" if "w \<in> set ?vs" for w
  proof -
    from that obtain x where x: "w = dq @ x @ dq" "x = v \<or> x \<in> set (list_values items)" by auto
    then have "CHR 0x0A \<notin> set x" using list_values_clean [of x items] parts(1) ok by (auto simp: target_ok_def plain_value_def)
    with x(1) show ?thesis by simp
  qed
  moreover have "CHR 0x0A \<notin> set '', ''" by simp
  ultimately have "CHR 0x0A \<notin> set (join '', '' ?vs)" using join_set [of "'', ''" ?vs] by blast
  then show ?thesis using parts by (simp add: k(3) render_list_def)
qed (use assms(4) in simp)

lemma add_target_clean:
  assumes "target_ok tg" and "clean_lines ls"
  shows "clean_lines (add_target tg ls)"
proof -
  have "list_all2 (extended_by {tg}) ls (add_target tg ls)" by (rule add_target_extends)
  with assms show ?thesis
    using extended_clean [of "{tg}" _ _ tg "[]"]
    by (fastforce simp: clean_lines_def list_all2_conv_all_nth list_all_length)
qed

lemma with_domain_lines:
  assumes "list_all target_ok (pyproject_targets domain)" and "clean_lines ls"
  shows "with_domain domain (join nl ls) = join nl (fold add_target (pyproject_targets domain) ls)
    \<and> clean_lines (fold add_target (pyproject_targets domain) ls)"
proof -
  have "fold (\<lambda>(key, value, must_contain) c. add_to_list c key value must_contain) tgs (join nl ls)
      = join nl (fold add_target tgs ls) \<and> clean_lines (fold add_target tgs ls)"
    if "list_all target_ok tgs" "clean_lines ls" for tgs ls
    using that
  proof (induction tgs arbitrary: ls)
    case (Cons tg tgs)
    obtain k v m where tg: "tg = (k, v, m)" by (metis prod_cases3)
    have "split_on (CHR 0x0A) (join nl ls) = ls"
      using Cons.prems(2) by (intro split_on_join) (auto simp: clean_lines_def list_all_iff)
    then have "add_to_list (join nl ls) k v m = join nl (add_target tg ls)"
      by (simp add: add_to_list_def add_target_def tg)
    then show ?case using Cons.IH [of "add_target tg ls"] Cons.prems add_target_clean [of tg ls] by (simp add: tg)
  qed simp
  with assms show ?thesis by (simp add: with_domain_def)
qed

lemma targets_ok:
  assumes "identifier_word domain"
  shows "list_all target_ok (pyproject_targets domain)" and "distinct (map fst (pyproject_targets domain))"
proof -
  have "\<forall>c \<in> set domain. is_lower c \<or> is_digit c \<or> c = CHR ''_''"
    using assms by (auto simp: identifier_word_def list_all_iff split: list.splits)
  then have "plain_value domain" by (auto simp: plain_value_def char_between_def)
  then show "list_all target_ok (pyproject_targets domain)"
    by (simp add: pyproject_targets_def target_ok_def plain_value_def)
  show "distinct (map fst (pyproject_targets domain))" by (simp add: pyproject_targets_def)
qed

text \<open>
  C32: Registering a domain in \<open>pyproject.toml\<close> is all or nothing: either the file is as it was,
  or the new text parses and every one of the seven lists has the domain; then only lines that hold
  one of these lists differ, each by the one entry at its end, and registering the domain again
  changes nothing.
\<close>

theorem pyproject_all_or_nothing:
  assumes "register_pyproject loads domain t = (r, t')" and "identifier_word domain"
  shows "t' = t \<and> r \<noteq> Inr [pyproject] \<or>
    r = Inr [pyproject] \<and>
    (\<exists>old new data. t pyproject = Some (File old) \<and> t' = t(pyproject \<mapsto> File new)
      \<and> loads new = Some data \<and> domain_missing domain data = Inr False
      \<and> list_all2 (extended_by (set (pyproject_targets domain))) (split_on (CHR 0x0A) old) (split_on (CHR 0x0A) new)
      \<and> register_pyproject loads domain t' = (Inr [], t'))"
proof (cases "\<exists>old data. t pyproject = Some (File old) \<and> t [] = Some Dir \<and> with_domain domain old \<noteq> old
    \<and> loads (with_domain domain old) = Some data \<and> domain_missing domain data = Inr False")
  case True
  then obtain old data where o: "t pyproject = Some (File old)" "t [] = Some Dir" "with_domain domain old \<noteq> old"
    "loads (with_domain domain old) = Some data" "domain_missing domain data = Inr False" by blast
  let ?ls = "split_on (CHR 0x0A) old" and ?tgs = "pyproject_targets domain"
  let ?new = "with_domain domain old"
  note ok = targets_ok [OF assms(2)]
  have ls: "clean_lines ?ls" "join nl ?ls = old"
    using split_on_absent [of _ "CHR 0x0A" old] join_split_on by (auto simp: clean_lines_def list_all_iff)
  have new: "?new = join nl (fold add_target ?tgs ?ls)" "clean_lines (fold add_target ?tgs ?ls)"
    using with_domain_lines [OF ok(1) ls(1)] ls(2) by simp_all
  then have split: "split_on (CHR 0x0A) ?new = fold add_target ?tgs ?ls"
    by (simp add: new(1) clean_lines_def list_all_iff split_on_join)
  have again: "with_domain domain ?new = ?new"
    using with_domain_lines [OF ok(1) new(2)] fold_targets_idem [OF ok(2,1)] new(1) by simp
  have r: "r = Inr [pyproject] \<and> t' = t(pyproject \<mapsto> File ?new)"
    using assms(1) o
    by (auto simp: register_pyproject_def reading_def path_exists_def chain_def read_text_def write_text_def Let_def
        of_result_def pyproject_def split: if_splits)
  moreover have "register_pyproject loads domain t' = (Inr [], t')"
    using r again o(4,5)
    by (simp add: register_pyproject_def reading_def path_exists_def chain_def read_text_def Let_def of_result_def)
  moreover have "list_all2 (extended_by (set ?tgs)) ?ls (split_on (CHR 0x0A) ?new)"
    unfolding split by (rule fold_targets(1) [OF ok(2,1)])
  ultimately show ?thesis using o by blast
next
  case False
  then have "t' = t \<and> r \<noteq> Inr [pyproject]"
    using assms(1)
    by (auto simp: register_pyproject_def reading_def path_exists_def chain_def read_text_def write_text_def Let_def
        of_result_def pyproject_def split: if_splits node.splits option.splits sum.splits)
  then show ?thesis by simp
qed

end
