(* ===== verification/Generators.thy ===== *)
theory Generators
  imports Wiring "HOL-Library.List_Lexorder" "HOL-Library.Char_ord"
begin

section \<open>The generators\<close>

text \<open>
  \<open>scripts/create_*.py\<close>: what each generator writes, line by line, and where. A generator returns
  the paths it wrote or would have written; the formatter that runs over them afterwards, the
  prompts and the messages are left out. The path of a module is made of the names that
  \<open>resolve_names\<close> accepts.
\<close>

definition layer_file :: "string \<Rightarrow> string \<Rightarrow> string \<Rightarrow> path" where
  "layer_file domain layer m = [domain, layer, m @ ''.py'']"

definition layer_init :: "string \<Rightarrow> string \<Rightarrow> path" where
  "layer_init domain layer = [domain, layer, ''__init__.py'']"

definition dependencies_file :: "string \<Rightarrow> path" where
  "dependencies_file domain = [domain, ''dependencies.py'']"

definition factory_file :: "string \<Rightarrow> path" where
  "factory_file snake = [''core'', ''factories'', snake @ ''_factory.py'']"

text \<open>A new module and its entry in the layer's \<open>__init__.py\<close>.\<close>

definition new_module ::
  "py_parser \<Rightarrow> string \<Rightarrow> string \<Rightarrow> string \<Rightarrow> string \<Rightarrow> string list \<Rightarrow> path list tool" where
  "new_module ast_parse domain layer m template symbols =
     chain (write_new_file (layer_file domain layer m) template) (\<lambda>_.
     chain (update_init ast_parse (layer_init domain layer) m symbols) (\<lambda>init.
     ret [layer_file domain layer m, init]))"

definition field_lines :: "string \<Rightarrow> (field \<Rightarrow> string) \<Rightarrow> field list \<Rightarrow> string" where
  "field_lines sep f fs = join sep (map f fs)"

definition typed :: "field \<Rightarrow> string" where
  "typed f = fd_name f @ '': '' @ fd_py_type f"

subsection \<open>create\_entity.py\<close>

definition entity_template :: "string \<Rightarrow> string \<Rightarrow> string" where
  "entity_template pascal entity_fields =
     unlines
     [''import uuid'',
      ''from dataclasses import dataclass'',
      ''from datetime import datetime'',
      '''',
      '''',
      ''@dataclass'',
      ''class '' @ pascal @ '':'',
      ''    id: uuid.UUID'',
      ''    '' @ entity_fields,
      ''    is_active: bool'',
      ''    created_at: datetime'',
      ''    updated_at: datetime'']"

definition generate_entity :: "py_parser \<Rightarrow> string \<Rightarrow> string \<Rightarrow> string \<Rightarrow> path list tool" where
  "generate_entity ast_parse domain name fields_str =
     chain (lift_error (resolve_names domain name)) (\<lambda>(snake, pascal).
     chain (lift_error (parse_fields fields_str)) (\<lambda>parsed_fields.
       let entity_fields = field_lines (nl @ ''    '') typed parsed_fields;
           entity_fields = (if entity_fields = []
             then ''# TODO: add domain-specific fields here (e.g. name: str)'' else entity_fields)
       in new_module ast_parse domain ''entities'' snake (entity_template pascal entity_fields) [pascal]))"

subsection \<open>create\_model.py\<close>

definition model_template :: "string \<Rightarrow> string list \<Rightarrow> string \<Rightarrow> string \<Rightarrow> string" where
  "model_template pascal column_types table_name model_fields =
     unlines
     [''import uuid'',
      ''from datetime import UTC, datetime'',
      '''',
      ''from sqlalchemy import '' @ join '', '' (sort (remdups column_types)),
      ''from sqlalchemy.dialects.postgresql import UUID'',
      ''from sqlalchemy.orm import Mapped, mapped_column'',
      '''',
      ''from core.database import Base'',
      '''',
      '''',
      ''class '' @ pascal @ ''Model(Base):'',
      ''    __tablename__ = '' @ dq @ table_name @ dq,
      '''',
      ''    id: Mapped[uuid.UUID] = mapped_column('',
      ''        UUID(as_uuid=True), primary_key=True, default=uuid.uuid4'',
      ''    )'',
      ''    '' @ model_fields,
      '''',
      ''    created_at: Mapped[datetime] = mapped_column('',
      ''        DateTime(timezone=True), default=lambda: datetime.now(UTC)'',
      ''    )'',
      ''    updated_at: Mapped[datetime] = mapped_column('',
      ''        DateTime(timezone=True),'',
      ''        default=lambda: datetime.now(UTC),'',
      ''        onupdate=lambda: datetime.now(UTC),'',
      ''    )'',
      ''    is_active: Mapped[bool] = mapped_column(Boolean, default=True)'']"

definition model_field :: "field \<Rightarrow> string" where
  "model_field f =
     fd_name f @ '': Mapped['' @ fd_py_type f @ ''] = mapped_column('' @ fd_sqla_type f
       @ (case fd_default f of None \<Rightarrow> [] | Some d \<Rightarrow> if d \<noteq> [] then '', default='' @ d else []) @ '')''"

definition generate_model :: "py_parser \<Rightarrow> string \<Rightarrow> string \<Rightarrow> string \<Rightarrow> path list tool" where
  "generate_model ast_parse domain name fields_str =
     chain (lift_error (resolve_names domain name)) (\<lambda>(snake, pascal).
     chain (lift_error (parse_fields fields_str)) (\<lambda>parsed_fields.
       let table_name = pluralize snake;
           model_fields = field_lines (nl @ ''    '') model_field parsed_fields;
           model_fields = (if model_fields = [] then ''# TODO: add domain-specific columns here'' else model_fields);
           column_types = [''Boolean'', ''DateTime'']
             @ map fd_sqla_type (filter (\<lambda>f. fd_type f \<noteq> ''uuid'') parsed_fields)
       in new_module ast_parse domain ''models'' (snake @ ''_model'')
            (model_template pascal column_types table_name model_fields) [pascal @ ''Model'']))"

subsection \<open>create\_repository.py\<close>

definition repository_template :: "string \<Rightarrow> string \<Rightarrow> string \<Rightarrow> string \<Rightarrow> string \<Rightarrow> string \<Rightarrow> string \<Rightarrow> string" where
  "repository_template domain snake pascal uuid_import add_signature model_instantiation to_entity_fields =
     unlines
     [uuid_import @ ''from uuid import UUID'',
      '''',
      ''from fastapi_pagination.cursor import CursorPage, CursorParams'',
      ''from fastapi_pagination.ext.sqlalchemy import apaginate'',
      ''from sqlalchemy import select'',
      ''from sqlalchemy.exc import IntegrityError'',
      ''from sqlalchemy.ext.asyncio import AsyncSession'',
      '''',
      ''from core.database import force_primary_var, transaction'',
      ''from core.exception import ConflictError'',
      ''from '' @ domain @ ''.entities.'' @ snake @ '' import '' @ pascal,
      ''from '' @ domain @ ''.models import '' @ pascal @ ''Model'',
      '''',
      '''',
      ''class '' @ pascal @ ''Repository:'',
      ''    def __init__(self, db: AsyncSession) -> None:'',
      ''        self.db: AsyncSession = db'',
      '''',
      ''    async def add('' @ add_signature @ '') -> '' @ pascal @ '':'',
      ''        force_primary_var.set(True)'',
      ''        model = '' @ model_instantiation,
      '''',
      ''        async with transaction(self.db):'',
      ''            await self._flush_or_raise(model)'',
      ''            return self._to_entity(model)'',
      '''',
      ''    async def get(self, id: UUID) -> '' @ pascal @ '' | None:'',
      ''        result = await self.db.scalar(select('' @ pascal @ ''Model).where('' @ pascal
         @ ''Model.id == id))'',
      '''',
      ''        if result is None:'',
      ''            return None'',
      '''',
      ''        return self._to_entity(result)'',
      '''',
      ''    async def update(self, id: UUID, **fields) -> '' @ pascal @ '' | None:'',
      ''        force_primary_var.set(True)'',
      ''        record = await self.db.get('' @ pascal @ ''Model, id)'',
      '''',
      ''        if record is None:'',
      ''            return None'',
      '''',
      ''        async with transaction(self.db):'',
      ''            for key, value in fields.items():'',
      ''                setattr(record, key, value)'',
      ''            await self._flush_or_raise()'',
      ''            return self._to_entity(record)'',
      '''',
      ''    async def delete(self, id: UUID) -> '' @ pascal @ '' | None:'',
      ''        force_primary_var.set(True)'',
      ''        record = await self.db.get('' @ pascal @ ''Model, id)'',
      '''',
      ''        if record is None:'',
      ''            return None'',
      '''',
      ''        async with transaction(self.db):'',
      ''            record.is_active = False'',
      ''            await self.db.flush()'',
      ''            return self._to_entity(record)'',
      '''',
      ''    async def force_delete(self, id: UUID) -> '' @ pascal @ '' | None:'',
      ''        force_primary_var.set(True)'',
      ''        record = await self.db.get('' @ pascal @ ''Model, id)'',
      '''',
      ''        if record is None:'',
      ''            return None'',
      ''        result = self._to_entity(record)'',
      '''',
      ''        async with transaction(self.db):'',
      ''            await self.db.delete(record)'',
      ''            await self.db.flush()'',
      '''',
      ''        return result'',
      '''',
      ''    async def list(self, params: CursorParams | None = None) -> CursorPage['' @ pascal
         @ '']:'',
      ''        return await apaginate('',
      ''            self.db,'',
      ''            select('' @ pascal @ ''Model).order_by('',
      ''                '' @ pascal @ ''Model.created_at.desc(), '' @ pascal @ ''Model.id.desc()'',
      ''            ),'',
      ''            params=params or CursorParams(),'',
      ''            transformer=lambda models: [self._to_entity(model) for model in models],'',
      ''        )'',
      '''',
      ''    async def _flush_or_raise(self, model: '' @ pascal @ ''Model | None = None) -> None:'',
      ''        try:'',
      ''            if model is not None:'',
      ''                self.db.add(model)'',
      ''            await self.db.flush()'',
      ''        except IntegrityError as err:'',
      ''            raise ConflictError('' @ dq @ pascal @ '' violates a uniqueness constraint''
         @ dq @ '') from err'',
      '''',
      ''    @staticmethod'',
      ''    def _to_entity(model: '' @ pascal @ ''Model) -> '' @ pascal @ '':'',
      ''        return '' @ pascal @ ''('',
      ''            id=model.id,'',
      ''            '' @ to_entity_fields @ ''is_active=model.is_active,'',
      ''            created_at=model.created_at,'',
      ''            updated_at=model.updated_at,'',
      ''        )'']"

definition generate_repository :: "py_parser \<Rightarrow> string \<Rightarrow> string \<Rightarrow> string \<Rightarrow> path list tool" where
  "generate_repository ast_parse domain name fields_str =
     chain (lift_error (resolve_names domain name)) (\<lambda>(snake, pascal).
     chain (lift_error (parse_fields fields_str)) (\<lambda>parsed_fields.
       let gap = nl @ ''            '';
           (add_signature, model_instantiation, to_entity_fields) =
             (if parsed_fields \<noteq> []
              then (''self, '' @ field_lines '', '' typed parsed_fields,
                    pascal @ ''Model('' @ field_lines '', '' (\<lambda>f. fd_name f @ ''='' @ fd_name f) parsed_fields @ '')'',
                    field_lines gap (\<lambda>f. fd_name f @ ''=model.'' @ fd_name f @ '','') parsed_fields @ gap)
              else (''self, **fields'', pascal @ ''Model(**fields)'',
                    ''# TODO: map domain-specific fields here (e.g. name=model.name)'' @ gap));
           uuid_import = (if list_ex (\<lambda>f. fd_type f = ''uuid'') parsed_fields then ''import uuid'' @ nl else [])
       in new_module ast_parse domain ''repositories'' (snake @ ''_repository'')
            (repository_template domain snake pascal uuid_import add_signature model_instantiation to_entity_fields)
            [pascal @ ''Repository'']))"

subsection \<open>create\_schema.py\<close>

definition schema_template :: "string \<Rightarrow> string \<Rightarrow> string \<Rightarrow> string \<Rightarrow> string" where
  "schema_template pascal create_fields update_fields response_fields =
     unlines
     [''import uuid'',
      ''from datetime import datetime'',
      '''',
      ''from pydantic import BaseModel'',
      '''',
      '''',
      ''class Create'' @ pascal @ ''Request(BaseModel):'',
      ''    '' @ create_fields,
      '''',
      '''',
      ''class Update'' @ pascal @ ''Request(BaseModel):'',
      ''    '' @ update_fields,
      '''',
      '''',
      ''class '' @ pascal @ ''Response(BaseModel):'',
      ''    id: uuid.UUID'',
      ''    '' @ response_fields @ ''is_active: bool'',
      ''    created_at: datetime'',
      ''    updated_at: datetime'',
      '''',
      ''    model_config = {'' @ dq @ ''from_attributes'' @ dq @ '': True}'']"

definition generate_schema :: "py_parser \<Rightarrow> string \<Rightarrow> string \<Rightarrow> string \<Rightarrow> path list tool" where
  "generate_schema ast_parse domain name fields_str =
     chain (lift_error (resolve_names domain name)) (\<lambda>(snake, pascal).
     chain (lift_error (parse_fields fields_str)) (\<lambda>parsed_fields.
       let gap = nl @ ''    '';
           (create_fields, update_fields, response_fields) =
             (if parsed_fields \<noteq> []
              then (field_lines gap typed parsed_fields,
                    field_lines gap (\<lambda>f. typed f @ '' | None = None'') parsed_fields,
                    field_lines gap typed parsed_fields @ gap)
              else (''# TODO: add domain-specific fields here (e.g. name: str)'' @ gap @ ''pass'',
                    ''# TODO: add domain-specific fields here, all optional'' @ gap @ ''pass'',
                    ''# TODO: add domain-specific fields here (e.g. name: str)'' @ gap))
       in new_module ast_parse domain ''schemas'' (snake @ ''_schema'')
            (schema_template pascal create_fields update_fields response_fields)
            [''Create'' @ pascal @ ''Request'', ''Update'' @ pascal @ ''Request'', pascal @ ''Response'']))"

subsection \<open>create\_service.py\<close>

definition service_template :: "string \<Rightarrow> string \<Rightarrow> string \<Rightarrow> string" where
  "service_template domain snake pascal =
     unlines
     [''from uuid import UUID'',
      '''',
      ''from fastapi_pagination.cursor import CursorPage, CursorParams'',
      '''',
      ''from core.exception import EntityNotFoundError'',
      ''from '' @ domain @ ''.entities.'' @ snake @ '' import '' @ pascal,
      ''from '' @ domain @ ''.repositories.'' @ snake @ ''_repository import '' @ pascal
         @ ''Repository'',
      ''from '' @ domain @ ''.schemas.'' @ snake @ ''_schema import Create'' @ pascal
         @ ''Request, Update'' @ pascal @ ''Request'',
      '''',
      '''',
      ''class '' @ pascal @ ''Service:'',
      ''    def __init__(self, repo: '' @ pascal @ ''Repository) -> None:'',
      ''        self.repo = repo'',
      '''',
      ''    async def create(self, data: Create'' @ pascal @ ''Request) -> '' @ pascal @ '':'',
      ''        return await self.repo.add(**data.model_dump())'',
      '''',
      ''    async def get(self, id: UUID) -> '' @ pascal @ '':'',
      ''        record = await self.repo.get(id)'',
      '''',
      ''        if record is None:'',
      ''            raise EntityNotFoundError('' @ dq @ pascal @ dq @ '', str(id))'',
      '''',
      ''        return record'',
      '''',
      ''    async def update(self, id: UUID, data: Update'' @ pascal @ ''Request) -> '' @ pascal
         @ '':'',
      ''        record = await self.repo.update(id=id, **data.model_dump(exclude_unset=True))'',
      '''',
      ''        if record is None:'',
      ''            raise EntityNotFoundError('' @ dq @ pascal @ dq @ '', str(id))'',
      '''',
      ''        return record'',
      '''',
      ''    async def delete(self, id: UUID, force: bool = False) -> '' @ pascal @ '':'',
      ''        if force:'',
      ''            record = await self.repo.force_delete(id)'',
      ''        else:'',
      ''            record = await self.repo.delete(id)'',
      '''',
      ''        if record is None:'',
      ''            raise EntityNotFoundError('' @ dq @ pascal @ dq @ '', str(id))'',
      '''',
      ''        return record'',
      '''',
      ''    async def list(self, params: CursorParams | None = None) -> CursorPage['' @ pascal
         @ '']:'',
      ''        return await self.repo.list(params)'']"

text \<open>The fields are ignored here and by the routes.\<close>

definition generate_service :: "py_parser \<Rightarrow> string \<Rightarrow> string \<Rightarrow> string \<Rightarrow> path list tool" where
  "generate_service ast_parse domain name fields_str =
     chain (lift_error (resolve_names domain name)) (\<lambda>(snake, pascal).
       new_module ast_parse domain ''services'' (snake @ ''_service'') (service_template domain snake pascal)
         [pascal @ ''Service''])"

subsection \<open>create\_route.py\<close>

definition route_template :: "string \<Rightarrow> string \<Rightarrow> string \<Rightarrow> string \<Rightarrow> string \<Rightarrow> string" where
  "route_template domain snake pascal route_var url_path =
     unlines
     [''from uuid import UUID'',
      '''',
      ''from fastapi import APIRouter, Depends'',
      ''from fastapi_pagination.cursor import CursorPage, CursorParams'',
      '''',
      ''from auth.dependencies import auth'',
      ''from '' @ domain @ ''.dependencies import get_'' @ snake @ ''_service'',
      ''from '' @ domain @ ''.entities.'' @ snake @ '' import '' @ pascal,
      ''from '' @ domain @ ''.schemas.'' @ snake @ ''_schema import ('',
      ''    Create'' @ pascal @ ''Request,'',
      ''    '' @ pascal @ ''Response,'',
      ''    Update'' @ pascal @ ''Request,'',
      '')'',
      ''from '' @ domain @ ''.services.'' @ snake @ ''_service import '' @ pascal @ ''Service'',
      '''',
      route_var @ '' = APIRouter(prefix='' @ dq @ ''/'' @ url_path @ dq @ '', tags=['' @ dq
         @ pascal @ dq @ ''])'',
      '''',
      ''requires_access_token = ['',
      ''    Depends(auth.token_required(type='' @ dq @ ''access'' @ dq @ '', locations=['' @ dq
         @ ''headers'' @ dq @ '']))'',
      '']'',
      '''',
      '''',
      ''@'' @ route_var @ ''.post('',
      ''    '' @ dq @ dq @ '', response_model='' @ pascal
         @ ''Response, dependencies=requires_access_token'',
      '')'',
      ''async def create_'' @ snake @ ''('',
      ''    data: Create'' @ pascal @ ''Request,'',
      ''    service: '' @ pascal @ ''Service = Depends(get_'' @ snake @ ''_service),'',
      '') -> '' @ pascal @ '':'',
      ''    return await service.create(data)'',
      '''',
      '''',
      ''@'' @ route_var @ ''.get('' @ dq @ ''/{id}'' @ dq @ '', response_model='' @ pascal
         @ ''Response)'',
      ''async def get_'' @ snake @ ''('',
      ''    id: UUID,'',
      ''    service: '' @ pascal @ ''Service = Depends(get_'' @ snake @ ''_service),'',
      '') -> '' @ pascal @ '':'',
      ''    return await service.get(id)'',
      '''',
      '''',
      ''@'' @ route_var @ ''.patch('',
      ''    '' @ dq @ ''/{id}'' @ dq @ '', response_model='' @ pascal
         @ ''Response, dependencies=requires_access_token'',
      '')'',
      ''async def update_'' @ snake @ ''('',
      ''    id: UUID,'',
      ''    data: Update'' @ pascal @ ''Request,'',
      ''    service: '' @ pascal @ ''Service = Depends(get_'' @ snake @ ''_service),'',
      '') -> '' @ pascal @ '':'',
      ''    return await service.update(id, data)'',
      '''',
      '''',
      ''@'' @ route_var @ ''.delete('' @ dq @ ''/{id}'' @ dq
         @ '', dependencies=requires_access_token)'',
      ''async def delete_'' @ snake @ ''('',
      ''    id: UUID,'',
      ''    service: '' @ pascal @ ''Service = Depends(get_'' @ snake @ ''_service),'',
      '') -> dict[str, str]:'',
      ''    await service.delete(id)'',
      '''',
      ''    return {'' @ dq @ ''message'' @ dq @ '': '' @ dq @ pascal @ '' deleted'' @ dq @ ''}'',
      '''',
      '''',
      ''@'' @ route_var @ ''.get('' @ dq @ dq @ '', response_model=CursorPage['' @ pascal
         @ ''Response])'',
      ''async def list_'' @ pluralize snake @ ''('',
      ''    params: CursorParams = Depends(),'',
      ''    service: '' @ pascal @ ''Service = Depends(get_'' @ snake @ ''_service),'',
      '') -> CursorPage['' @ pascal @ '']:'',
      ''    return await service.list(params)'']"

definition url_prefix :: "string \<Rightarrow> string" where
  "url_prefix snake = replace (pluralize snake) ''_'' ''-''"

definition generate_route :: "py_parser \<Rightarrow> string \<Rightarrow> string \<Rightarrow> string \<Rightarrow> path list tool" where
  "generate_route ast_parse domain name fields_str =
     chain (lift_error (resolve_names domain name)) (\<lambda>(snake, pascal).
       let route_var = snake @ ''_router'' in
       new_module ast_parse domain ''routes'' route_var
         (route_template domain snake pascal route_var (url_prefix snake)) [route_var])"

subsection \<open>create\_dependencies.py\<close>

definition dependency_imports :: "string \<Rightarrow> string \<Rightarrow> string \<Rightarrow> string list" where
  "dependency_imports domain snake pascal =
     [''from fastapi import Depends'', ''from sqlalchemy.ext.asyncio import AsyncSession'',
      ''from core.database import get_db'',
      ''from '' @ domain @ ''.repositories.'' @ snake @ ''_repository import '' @ pascal @ ''Repository'',
      ''from '' @ domain @ ''.services.'' @ snake @ ''_service import '' @ pascal @ ''Service'']"

definition dependency_block :: "string \<Rightarrow> string \<Rightarrow> string" where
  "dependency_block snake pascal =
     unlines
     [''def get_'' @ snake @ ''_repository(db: AsyncSession = Depends(get_db)) -> '' @ pascal
         @ ''Repository:'',
      ''    return '' @ pascal @ ''Repository(db)'',
      '''',
      '''',
      ''def get_'' @ snake @ ''_service('',
      ''    repo: '' @ pascal @ ''Repository = Depends(get_'' @ snake @ ''_repository),'',
      '') -> '' @ pascal @ ''Service:'',
      ''    return '' @ pascal @ ''Service(repo)'']"

text \<open>The text of a file, or nothing when there is none.\<close>

definition text_or_empty :: "path \<Rightarrow> string tool" where
  "text_or_empty p = chain (reading (path_exists p)) (\<lambda>there. if there then read_text p else ret [])"

definition generate_dependencies :: "py_parser \<Rightarrow> string \<Rightarrow> string \<Rightarrow> path list tool" where
  "generate_dependencies ast_parse domain name =
     chain (lift_error (resolve_names domain name)) (\<lambda>(snake, pascal).
     chain (text_or_empty (dependencies_file domain)) (\<lambda>content.
       if contains content (''def get_'' @ snake @ ''_service('') then ret [dependencies_file domain]
       else
         chain (of_result (merge_imports ast_parse content (dependency_imports domain snake pascal))) (\<lambda>merged.
         chain (make_dirs [domain]) (\<lambda>_.
         chain (write_text (dependencies_file domain)
                  (rstrip_nl merged @ nl @ nl @ nl @ dependency_block snake pascal)) (\<lambda>_.
         ret [dependencies_file domain])))))"

subsection \<open>create\_factory.py and create\_test.py\<close>

definition factory_template :: "string \<Rightarrow> string \<Rightarrow> string \<Rightarrow> string" where
  "factory_template domain snake pascal =
     unlines
     [''from core.factories.base import BasePydanticFactory'',
      ''from '' @ domain @ ''.schemas.'' @ snake @ ''_schema import Create'' @ pascal
         @ ''Request, Update'' @ pascal @ ''Request'',
      '''',
      '''',
      ''class Create'' @ pascal @ ''RequestFactory(BasePydanticFactory[Create'' @ pascal
         @ ''Request]):'',
      ''    __model__ = Create'' @ pascal @ ''Request'',
      ''    __use_defaults__ = True'',
      '''',
      '''',
      ''class Update'' @ pascal @ ''RequestFactory(BasePydanticFactory[Update'' @ pascal
         @ ''Request]):'',
      ''    __model__ = Update'' @ pascal @ ''Request'',
      ''    __allow_none_optionals__ = False'']"

definition generate_factory :: "string \<Rightarrow> string \<Rightarrow> path list tool" where
  "generate_factory domain name =
     chain (lift_error (resolve_names domain name)) (\<lambda>(snake, pascal).
     chain (write_new_file (factory_file snake) (factory_template domain snake pascal)) (\<lambda>_.
     ret [factory_file snake]))"

definition test_imports :: "string \<Rightarrow> string \<Rightarrow> string \<Rightarrow> string list" where
  "test_imports domain snake pascal =
     [''import uuid'', ''import pytest'', ''from auth.dependencies import auth'',
      ''from core.api_versions import API_V1_PREFIX'', ''from core.exception import EntityNotFoundError'',
      ''from '' @ domain @ ''.repositories.'' @ snake @ ''_repository import '' @ pascal @ ''Repository'',
      ''from '' @ domain @ ''.services.'' @ snake @ ''_service import '' @ pascal @ ''Service'',
      ''from core.factories.'' @ snake @ ''_factory import ('' @ nl @ ''    Create'' @ pascal
        @ ''RequestFactory,'' @ nl @ ''    Update'' @ pascal @ ''RequestFactory,'' @ nl @ '')'']"

definition test_marker :: "string \<Rightarrow> string" where
  "test_marker snake = ''async def test_'' @ snake @ ''_repository_add_and_get''"

definition test_block :: "string \<Rightarrow> string \<Rightarrow> string \<Rightarrow> string \<Rightarrow> string" where
  "test_block domain snake pascal url_path =
     unlines
     [''# ---------------------------------------------------------------------------'',
      ''# '' @ pascal @ '' ('' @ snake @ '') - generated by `uv run create-test --domain ''
         @ domain @ '' --name '' @ snake @ ''`'',
      ''# ---------------------------------------------------------------------------'',
      '''',
      '''',
      ''async def test_'' @ snake @ ''_repository_add_and_get(db) -> None:'',
      ''    '' @ dq @ dq @ dq @ ''add() persists a '' @ snake @ ''; get() retrieves it by id.''
         @ dq @ dq @ dq,
      ''    repo = '' @ pascal @ ''Repository(db)'',
      ''    data = Create'' @ pascal @ ''RequestFactory.build()'',
      '''',
      ''    record = await repo.add(**data.model_dump())'',
      ''    assert record.id is not None'',
      ''    assert record.is_active is True'',
      '''',
      ''    fetched = await repo.get(record.id)'',
      ''    assert fetched is not None'',
      ''    assert fetched.id == record.id'',
      '''',
      '''',
      ''async def test_'' @ snake @ ''_repository_get_returns_none_for_missing(db) -> None:'',
      ''    '' @ dq @ dq @ dq @ ''get() with an unknown UUID returns None without raising.'' @ dq
         @ dq @ dq,
      ''    repo = '' @ pascal @ ''Repository(db)'',
      ''    assert await repo.get(uuid.uuid4()) is None'',
      '''',
      '''',
      ''async def test_'' @ snake @ ''_repository_update(db) -> None:'',
      ''    '' @ dq @ dq @ dq @ ''update() applies fields to an existing '' @ snake @ ''.'' @ dq
         @ dq @ dq,
      ''    repo = '' @ pascal @ ''Repository(db)'',
      ''    created = await repo.add(**Create'' @ pascal
         @ ''RequestFactory.build().model_dump())'',
      '''',
      ''    updated = await repo.update('',
      ''        created.id, **Update'' @ pascal @ ''RequestFactory.build().model_dump()'',
      ''    )'',
      ''    assert updated is not None'',
      ''    assert updated.id == created.id'',
      '''',
      '''',
      ''async def test_'' @ snake @ ''_repository_soft_delete(db) -> None:'',
      ''    '' @ dq @ dq @ dq @ ''delete() marks the '' @ snake
         @ '' inactive rather than removing the row.'' @ dq @ dq @ dq,
      ''    repo = '' @ pascal @ ''Repository(db)'',
      ''    created = await repo.add(**Create'' @ pascal
         @ ''RequestFactory.build().model_dump())'',
      '''',
      ''    deleted = await repo.delete(created.id)'',
      ''    assert deleted is not None'',
      ''    assert deleted.is_active is False'',
      '''',
      ''    still_there = await repo.get(created.id)'',
      ''    assert still_there is not None'',
      ''    assert still_there.is_active is False'',
      '''',
      '''',
      ''async def test_'' @ snake @ ''_repository_force_delete(db) -> None:'',
      ''    '' @ dq @ dq @ dq @ ''force_delete() removes the row entirely.'' @ dq @ dq @ dq,
      ''    repo = '' @ pascal @ ''Repository(db)'',
      ''    created = await repo.add(**Create'' @ pascal
         @ ''RequestFactory.build().model_dump())'',
      '''',
      ''    await repo.force_delete(created.id)'',
      ''    assert await repo.get(created.id) is None'',
      '''',
      '''',
      ''async def test_'' @ snake @ ''_service_create(db) -> None:'',
      ''    '' @ dq @ dq @ dq @ ''create() delegates to the repository and returns an entity.''
         @ dq @ dq @ dq,
      ''    service = '' @ pascal @ ''Service('' @ pascal @ ''Repository(db))'',
      ''    record = await service.create(Create'' @ pascal @ ''RequestFactory.build())'',
      ''    assert record.id is not None'',
      '''',
      '''',
      ''async def test_'' @ snake @ ''_service_get_raises_for_missing(db) -> None:'',
      ''    service = '' @ pascal @ ''Service('' @ pascal @ ''Repository(db))'',
      ''    with pytest.raises(EntityNotFoundError):'',
      ''        await service.get(uuid.uuid4())'',
      '''',
      '''',
      ''async def test_'' @ snake @ ''_service_update(db) -> None:'',
      ''    repo = '' @ pascal @ ''Repository(db)'',
      ''    service = '' @ pascal @ ''Service(repo)'',
      ''    created = await service.create(Create'' @ pascal @ ''RequestFactory.build())'',
      '''',
      ''    updated = await service.update(created.id, Update'' @ pascal
         @ ''RequestFactory.build())'',
      ''    assert updated is not None'',
      ''    assert updated.id == created.id'',
      '''',
      '''',
      ''async def test_'' @ snake @ ''_service_delete_soft(db) -> None:'',
      ''    repo = '' @ pascal @ ''Repository(db)'',
      ''    service = '' @ pascal @ ''Service(repo)'',
      ''    created = await service.create(Create'' @ pascal @ ''RequestFactory.build())'',
      '''',
      ''    deleted = await service.delete(created.id)'',
      ''    assert deleted is not None'',
      ''    assert deleted.is_active is False'',
      '''',
      '''',
      ''async def test_'' @ snake @ ''_service_force_delete(db) -> None:'',
      ''    repo = '' @ pascal @ ''Repository(db)'',
      ''    service = '' @ pascal @ ''Service(repo)'',
      ''    created = await service.create(Create'' @ pascal @ ''RequestFactory.build())'',
      '''',
      ''    assert await service.delete(created.id, force=True) is not None'',
      ''    assert await repo.get(created.id) is None'',
      '''',
      '''',
      ''async def test_'' @ snake @ ''_route_create_requires_token(client) -> None:'',
      ''    response = await client.post('',
      ''        f'' @ dq @ ''{API_V1_PREFIX}/'' @ url_path @ dq @ '','',
      ''        json=Create'' @ pascal @ ''RequestFactory.build().model_dump(mode='' @ dq
         @ ''json'' @ dq @ ''),'',
      ''    )'',
      ''    assert response.status_code == 401'',
      '''',
      '''',
      ''async def test_'' @ snake @ ''_route_create_with_token(client) -> None:'',
      ''    token = auth.create_access_token(uid=str(uuid.uuid4()))'',
      ''    response = await client.post('',
      ''        f'' @ dq @ ''{API_V1_PREFIX}/'' @ url_path @ dq @ '','',
      ''        json=Create'' @ pascal @ ''RequestFactory.build().model_dump(mode='' @ dq
         @ ''json'' @ dq @ ''),'',
      ''        headers={'' @ dq @ ''Authorization'' @ dq @ '': f'' @ dq @ ''Bearer {token}'' @ dq
         @ ''},'',
      ''    )'',
      ''    assert response.status_code == 200'',
      ''    assert response.json()['' @ dq @ ''is_active'' @ dq @ ''] is True'',
      '''',
      '''',
      ''async def test_'' @ snake @ ''_route_get_missing_returns_404(client) -> None:'',
      ''    response = await client.get(f'' @ dq @ ''{API_V1_PREFIX}/'' @ url_path
         @ ''/{uuid.uuid4()}'' @ dq @ '')'',
      ''    assert response.status_code == 404'',
      '''',
      '''',
      ''async def test_'' @ snake @ ''_route_list(client) -> None:'',
      ''    response = await client.get(f'' @ dq @ ''{API_V1_PREFIX}/'' @ url_path @ dq @ '')'',
      ''    assert response.status_code == 200'',
      ''    assert '' @ dq @ ''items'' @ dq @ '' in response.json()'']"

definition test_header :: "string \<Rightarrow> string" where
  "test_header domain =
     unlines
     [dq @ dq @ dq,
      ''Integration tests for the '' @ to_pascal_case domain
         @ '' domain: repository, service and routes.'',
      '''',
      ''These tests run inside the transactional db fixture (savepoint rollback),'',
      ''so all writes are automatically discarded after each test.'',
      dq @ dq @ dq,
      '''']"

definition new_test_content :: "string \<Rightarrow> string list \<Rightarrow> string \<Rightarrow> string" where
  "new_test_content domain imports block = test_header domain @ join nl imports @ nl @ nl @ nl @ block"

definition test_file :: "string \<Rightarrow> path" where
  "test_file domain = [''tests'', ''test_'' @ to_snake_case domain @ ''_domain.py'']"

definition generate_test :: "py_parser \<Rightarrow> string \<Rightarrow> string \<Rightarrow> path list tool" where
  "generate_test ast_parse domain name =
     chain (lift_error (resolve_names domain name)) (\<lambda>(snake, pascal).
     chain (generate_factory domain name) (\<lambda>paths.
       let imports = test_imports domain snake pascal;
           block = test_block domain snake pascal (url_prefix snake);
           write = (\<lambda>content. chain (write_text (test_file domain) content) (\<lambda>_. ret (paths @ [test_file domain])))
       in
       chain (reading (path_exists (test_file domain))) (\<lambda>there.
         if there
         then chain (read_text (test_file domain)) (\<lambda>content.
                if contains content (test_marker snake) then ret paths
                else chain (of_result (merge_imports ast_parse content imports)) (\<lambda>merged.
                       write (rstrip_nl merged @ nl @ nl @ nl @ block)))
         else chain (make_dirs [''tests'']) (\<lambda>_. write (new_test_content domain imports block)))))"

subsection \<open>create\_domain.py and create\_all.py\<close>

definition domain_layers :: "string list" where
  "domain_layers = [''entities'', ''models'', ''repositories'', ''schemas'', ''services'', ''routes'']"

definition ensure_file :: "path \<Rightarrow> unit tool" where
  "ensure_file p =
     chain (reading (path_exists p)) (\<lambda>there.
       if there then ret () else chain (make_dirs (butlast p)) (\<lambda>_. touch p))"

definition ensure_touched :: "path \<Rightarrow> unit tool" where
  "ensure_touched p = chain (reading (path_exists p)) (\<lambda>there. if there then ret () else touch p)"

definition generate_domain :: "(string \<Rightarrow> json option) \<Rightarrow> string \<Rightarrow> path list tool" where
  "generate_domain loads domain =
     chain (lift_error (validate_domain domain)) (\<lambda>_.
     chain (each (\<lambda>layer. ensure_file (layer_init domain layer)) domain_layers) (\<lambda>_.
     chain (ensure_touched (dependencies_file domain)) (\<lambda>_.
     chain (register_pyproject loads domain) (\<lambda>ps.
     ret (dependencies_file domain # ps)))))"

text \<open>\<open>for generate in LAYER_GENERATORS: paths += generate(domain, name, fields)\<close>.\<close>

fun collect :: "path list tool list \<Rightarrow> path list tool" where
  "collect [] = ret []"
| "collect (m # ms) = chain m (\<lambda>ps. chain (collect ms) (\<lambda>qs. ret (ps @ qs)))"

definition layer_generators :: "(py_parser \<Rightarrow> string \<Rightarrow> string \<Rightarrow> string \<Rightarrow> path list tool) list" where
  "layer_generators =
     [generate_entity, generate_model, generate_repository, generate_schema, generate_service, generate_route]"

definition generate_all ::
  "py_parser \<Rightarrow> (string \<Rightarrow> json option) \<Rightarrow> string \<Rightarrow> string \<Rightarrow> string \<Rightarrow> path list tool" where
  "generate_all ast_parse loads domain name fields_str =
     chain (lift_error (resolve_names domain name)) (\<lambda>(snake, pascal).
       collect
         (generate_domain loads domain
          # map (\<lambda>generate. generate ast_parse domain name fields_str) layer_generators
          @ [generate_dependencies ast_parse domain name,
             register_model ast_parse domain (pascal @ ''Model''),
             register_router domain (snake @ ''_router'')]))"

text \<open>\<open>require_domain\<close>, the guard of the single generators' commands.\<close>

definition require_domain :: "string \<Rightarrow> unit tool" where
  "require_domain domain =
     chain (reading (is_dir [domain])) (\<lambda>there.
       if there then ret ()
       else raise (ValueErr (''Domain '' @ sq @ domain @ sq @ '' does not exist. Run `uv run create-domain -d ''
                              @ domain @ ''` first.'')))"

end
