(* ===== verification/ScaffoldProps.thy ===== *)
theory ScaffoldProps
  imports Generators
begin

section \<open>What the scaffolding tools promise\<close>

subsection \<open>Files that are there stay\<close>

text \<open>
  A directory stays a directory, a file a file, and one that is not among \<open>edits\<close> keeps its text.
\<close>

definition tree_kept :: "path set \<Rightarrow> tree \<Rightarrow> tree \<Rightarrow> bool" where
  "tree_kept edits t t' \<longleftrightarrow>
     (\<forall>p. (t p = Some Dir \<longrightarrow> t' p = Some Dir)
        \<and> (\<forall>c. t p = Some (File c) \<longrightarrow> (if p \<in> edits then \<exists>c'. t' p = Some (File c') else t' p = Some (File c))))"

interpretation scaffold: frame_relation "tree_kept edits" for edits
proof
  fix s t u
  assume a: "tree_kept edits s t" "tree_kept edits t u"
  show "tree_kept edits s u"
    unfolding tree_kept_def
  proof (intro allI conjI impI)
    fix p c
    show "u p = Some Dir" if "s p = Some Dir" using a that by (simp add: tree_kept_def)
    show "if p \<in> edits then \<exists>c'. u p = Some (File c') else u p = Some (File c)" if "s p = Some (File c)"
      using a that unfolding tree_kept_def by (metis (full_types))
  qed
qed (simp add: tree_kept_def)

lemma reading_kept: "keeps (tree_kept edits) (reading f)" "keeps (tree_kept edits) (read_text p)"
    "keeps (tree_kept edits) (lift_error e)" "keeps (tree_kept edits) (of_result x)"
  by (auto simp: keeps_def reading_def read_text_def lift_error_def of_result_def scaffold.rel_refl
      split: option.split node.split sum.split)

lemma write_kept: "p \<in> edits \<Longrightarrow> keeps (tree_kept edits) (write_text p c)"
  by (auto simp: keeps_def write_text_def tree_kept_def split: option.split node.split)

lemma touch_kept: "keeps (tree_kept edits) (touch p)"
  by (auto simp: keeps_def touch_def write_text_def tree_kept_def split: option.split node.split)

lemma dirs_kept: "keeps (tree_kept edits) (make_dirs p)"
  by (auto simp: keeps_def make_dirs_def tree_kept_def)

lemma new_file_kept: "keeps (tree_kept edits) (write_new_file p c)"
proof -
  have "keeps (tree_kept edits) (chain (reading (path_exists p)) (\<lambda>there.
      if there then ret False else chain (write_text p c) (\<lambda>_. ret True)))"
    by (auto simp: keeps_def reading_def path_exists_def chain_def write_text_def tree_kept_def
        split: option.split node.split)
  then show ?thesis unfolding write_new_file_def by (rule scaffold.keeps_chain [OF dirs_kept])
qed

lemmas tree_intros = scaffold.keeps_ret scaffold.keeps_raise scaffold.keeps_chain reading_kept touch_kept dirs_kept
  new_file_kept

lemma update_init_kept: "p \<in> edits \<Longrightarrow> keeps (tree_kept edits) (update_init ast_parse p m syms)"
  unfolding update_init_def by (auto intro!: tree_intros write_kept)

definition editable :: "string \<Rightarrow> path set" where
  "editable domain =
     layer_init domain ` set domain_layers \<union> {dependencies_file domain, models_manifest, api_versions, pyproject}"

lemma new_module_kept:
  "layer \<in> set domain_layers \<Longrightarrow> keeps (tree_kept (editable domain)) (new_module ast_parse domain layer m c syms)"
  unfolding new_module_def by (auto intro!: tree_intros update_init_kept simp: editable_def)

lemma generators_kept:
  "generate \<in> set layer_generators \<Longrightarrow>
     keeps (tree_kept (editable domain)) (generate ast_parse domain name fields_str)"
  unfolding layer_generators_def
  by (auto simp: generate_entity_def generate_model_def generate_repository_def generate_schema_def generate_service_def
      generate_route_def Let_def split_beta domain_layers_def intro!: tree_intros new_module_kept)

lemma register_kept:
  "keeps (tree_kept (editable domain)) (register_pyproject loads domain)"
  "keeps (tree_kept (editable domain)) (register_model ast_parse domain c)"
  "keeps (tree_kept (editable domain)) (register_router domain v)"
  unfolding register_pyproject_def register_model_def register_router_def Let_def
  by (auto intro!: tree_intros write_kept simp: editable_def split: option.split)

lemma each_kept: "(\<And>x. keeps (tree_kept edits) (f x)) \<Longrightarrow> keeps (tree_kept edits) (each f xs)"
  by (induction xs) (auto intro!: tree_intros)

lemma domain_kept: "keeps (tree_kept (editable domain)) (generate_domain loads domain)"
  unfolding generate_domain_def ensure_file_def ensure_touched_def
  by (auto intro!: tree_intros each_kept register_kept)

lemma dependencies_kept: "keeps (tree_kept (editable domain)) (generate_dependencies ast_parse domain name)"
  unfolding generate_dependencies_def text_or_empty_def split_beta
  by (auto intro!: tree_intros write_kept simp: editable_def)

lemma collect_kept: "(\<And>m. m \<in> set ms \<Longrightarrow> keeps (tree_kept edits) m) \<Longrightarrow> keeps (tree_kept edits) (collect ms)"
  by (induction ms) (auto intro!: tree_intros)

lemma all_kept: "keeps (tree_kept (editable domain)) (generate_all ast_parse loads domain name fields_str)"
  unfolding generate_all_def split_beta
  by (intro tree_intros collect_kept)
     (auto intro: generators_kept domain_kept dependencies_kept register_kept)

text \<open>Every path a generator returns is there when it returns.\<close>

definition delivers :: "path list tool \<Rightarrow> bool" where
  "delivers m \<longleftrightarrow> (\<forall>t ps t'. m t = (Inr ps, t') \<longrightarrow> (\<forall>p \<in> set ps. t' p \<noteq> None))"

lemma still_there: "tree_kept edits t t' \<Longrightarrow> t p \<noteq> None \<Longrightarrow> t' p \<noteq> None"
proof -
  assume k: "tree_kept edits t t'" "t p \<noteq> None"
  then obtain n where "t p = Some n" by blast
  with k(1) show ?thesis unfolding tree_kept_def by (cases n) (metis option.distinct(1))+
qed

lemma delivers_ret [simp]: "delivers (ret [])"
  by (simp add: delivers_def)

lemma delivers_after: "(\<And>x. delivers (f x)) \<Longrightarrow> delivers (chain m f)"
  by (auto simp: delivers_def chain_eq_Inr_iff)

lemma delivers_raise: "delivers (raise e)" "delivers (of_result (Inl e))"
  by (simp_all add: delivers_def of_result_def)

lemma write_there: "write_text p c t = (Inr u, t') \<Longrightarrow> t' p \<noteq> None"
  by (auto simp: write_text_def split: if_splits option.splits node.splits)

lemma touch_there: "touch p t = (Inr u, t') \<Longrightarrow> t' p \<noteq> None"
  using write_there by (auto simp: touch_def split: if_splits)

lemma write_delivers: "delivers (chain (write_text p c) (\<lambda>_. ret [p]))"
  using write_there by (auto simp: delivers_def chain_eq_Inr_iff)

lemma reading_exists: "reading (path_exists p) t = (Inr b, t') \<Longrightarrow> t' = t \<and> (b \<longleftrightarrow> t p \<noteq> None)"
  by (auto simp: reading_def path_exists_def)

lemma new_file_there: "write_new_file p c t = (Inr b, t') \<Longrightarrow> t' p \<noteq> None"
  unfolding write_new_file_def chain_eq_Inr_iff
  using write_there by (auto simp: reading_def path_exists_def chain_eq_Inr_iff split: if_splits)

lemma update_init_there: "update_init ast_parse p m syms t = (Inr q, t') \<Longrightarrow> q = p \<and> t' p \<noteq> None"
  unfolding update_init_def chain_eq_Inr_iff using write_there by auto

lemma new_module_delivers:
  assumes "layer \<in> set domain_layers"
  shows "delivers (new_module ast_parse domain layer m c syms)"
  unfolding delivers_def
proof (intro allI impI ballI)
  fix t ps t' p
  assume op: "new_module ast_parse domain layer m c syms t = (Inr ps, t')" and p: "p \<in> set ps"
  obtain b t1 where w: "write_new_file (layer_file domain layer m) c t = (Inr b, t1)"
    and u: "update_init ast_parse (layer_init domain layer) m syms t1 = (Inr (layer_init domain layer), t')"
    and ps: "ps = [layer_file domain layer m, layer_init domain layer]"
    using op update_init_there by (auto simp: new_module_def chain_eq_Inr_iff)
  have "tree_kept {layer_init domain layer} t1 t'" using keepsD [OF update_init_kept u] by simp
  then have "t' (layer_file domain layer m) \<noteq> None" using still_there new_file_there [OF w] by blast
  with p ps update_init_there [OF u] show "t' p \<noteq> None" by auto
qed

lemma generators_deliver:
  "generate \<in> set layer_generators \<Longrightarrow> delivers (generate ast_parse domain name fields_str)"
  unfolding layer_generators_def
  by (auto simp: generate_entity_def generate_model_def generate_repository_def generate_schema_def generate_service_def
      generate_route_def Let_def split_beta domain_layers_def intro!: delivers_after new_module_delivers)

lemma register_delivers:
  "delivers (register_pyproject loads domain)" "delivers (register_model ast_parse domain c)"
  "delivers (register_router domain v)"
  unfolding register_pyproject_def register_model_def register_router_def Let_def
  by (auto intro!: delivers_after delivers_raise write_delivers split: option.split)

lemma domain_delivers: "delivers (generate_domain loads domain)"
  unfolding delivers_def
proof (intro allI impI ballI)
  fix t ps t' p
  assume op: "generate_domain loads domain t = (Inr ps, t')" and p: "p \<in> set ps"
  then obtain u t1 qs where d: "ensure_touched (dependencies_file domain) t1 = (Inr (), u)"
    and r: "register_pyproject loads domain u = (Inr qs, t')" and ps: "ps = dependencies_file domain # qs"
    by (auto simp: generate_domain_def chain_eq_Inr_iff)
  have "u (dependencies_file domain) \<noteq> None"
    using d touch_there by (auto simp: ensure_touched_def chain_eq_Inr_iff reading_def path_exists_def split: if_splits)
  then have "t' (dependencies_file domain) \<noteq> None" using still_there keepsD [OF register_kept(1) r] by blast
  with p ps r register_delivers(1) show "t' p \<noteq> None" by (auto simp: delivers_def)
qed

lemma text_there:
  assumes "text_or_empty p s = (Inr c, t)" and "c \<noteq> []"
  shows "t p \<noteq> None"
proof (cases "s p = None")
  case True
  with assms show ?thesis by (simp add: text_or_empty_def chain_def reading_def path_exists_def)
next
  case False
  with assms(1) show ?thesis
    by (auto simp: text_or_empty_def chain_def reading_def path_exists_def read_text_def
        split: option.splits node.splits)
qed

lemma dependencies_deliver: "delivers (generate_dependencies ast_parse domain name)"
  unfolding delivers_def
proof (intro allI impI ballI)
  let ?p = "dependencies_file domain"
  fix t ps t' p
  assume op: "generate_dependencies ast_parse domain name t = (Inr ps, t')" and p: "p \<in> set ps"
  obtain snake pascal where n: "resolve_names domain name = Inr (snake, pascal)"
    using op by (auto simp: generate_dependencies_def chain_def lift_error_def split: sum.splits)
  let ?rest = "\<lambda>content. chain (of_result (merge_imports ast_parse content (dependency_imports domain snake pascal)))
      (\<lambda>merged. chain (make_dirs [domain]) (\<lambda>_. chain (write_text ?p
        (rstrip_nl merged @ nl @ nl @ nl @ dependency_block snake pascal)) (\<lambda>_. ret [?p])))"
  have "chain (text_or_empty ?p) (\<lambda>content. if contains content (''def get_'' @ snake @ ''_service('') then ret [?p]
      else ?rest content) t = (Inr ps, t')"
    using op by (simp only: generate_dependencies_def n lift_error_def sum.case chain_ret prod.case)
  then obtain c t1 where c: "text_or_empty ?p t = (Inr c, t1)"
    and r: "(if contains c (''def get_'' @ snake @ ''_service('') then ret [?p] else ?rest c) t1 = (Inr ps, t')"
    unfolding chain_eq_Inr_iff by blast
  show "t' p \<noteq> None"
  proof (cases "contains c (''def get_'' @ snake @ ''_service('')")
    case True
    then have "c \<noteq> []" by auto
    from text_there [OF c this] True r p show ?thesis by auto
  next
    case False
    have "delivers (?rest c)" by (intro delivers_after write_delivers)
    with False r p show ?thesis unfolding delivers_def by (simp only: if_False) blast
  qed
qed

definition module_files :: "string \<Rightarrow> string \<Rightarrow> path list" where
  "module_files domain snake =
     [layer_file domain ''entities'' snake, layer_file domain ''models'' (snake @ ''_model''),
      layer_file domain ''repositories'' (snake @ ''_repository''), layer_file domain ''schemas'' (snake @ ''_schema''),
      layer_file domain ''services'' (snake @ ''_service''), layer_file domain ''routes'' (snake @ ''_router''),
      dependencies_file domain]"

lemma collect_delivers:
  "(\<And>m. m \<in> set ms \<Longrightarrow> delivers m \<and> keeps (tree_kept edits) m) \<Longrightarrow> delivers (collect ms)"
proof (induction ms)
  case (Cons m ms)
  show ?case unfolding delivers_def
  proof (intro allI impI ballI)
    fix t ps t' p
    assume op: "collect (m # ms) t = (Inr ps, t')" and p: "p \<in> set ps"
    then obtain qs t1 rs where m: "m t = (Inr qs, t1)" and ms: "collect ms t1 = (Inr rs, t')" and ps: "ps = qs @ rs"
      by (auto simp: chain_eq_Inr_iff)
    have "t' p \<noteq> None" if "p \<in> set qs"
      using that m Cons.prems [of m] still_there keepsD [OF collect_kept ms, of edits] Cons.prems
      by (auto simp: delivers_def)
    moreover have "delivers (collect ms)" using Cons.IH Cons.prems by simp
    then have "t' p \<noteq> None" if "p \<in> set rs" using that ms unfolding delivers_def by blast
    ultimately show "t' p \<noteq> None" using p ps by auto
  qed
qed simp

lemma collect_step:
  assumes "\<And>m. m \<in> set ms \<Longrightarrow> keeps (tree_kept edits) m"
  shows "collect ms t = (Inr ps, t') \<Longrightarrow> m \<in> set ms \<Longrightarrow>
    \<exists>s qs s'. tree_kept edits t s \<and> m s = (Inr qs, s') \<and> set qs \<subseteq> set ps"
  using assms
proof (induction ms arbitrary: t ps)
  case (Cons x xs)
  then obtain qs t1 rs where x: "x t = (Inr qs, t1)" "collect xs t1 = (Inr rs, t')" "ps = qs @ rs"
    by (auto simp: chain_eq_Inr_iff)
  show ?case
  proof (cases "m = x")
    case True
    with x scaffold.rel_refl [of edits t] show ?thesis by (intro exI [of _ t]) auto
  next
    case False
    then obtain s us s' where "tree_kept edits t1 s" "m s = (Inr us, s')" "set us \<subseteq> set rs"
      using Cons x by fastforce
    moreover have k: "keeps (tree_kept edits) x" using Cons.prems by simp
    moreover have "tree_kept edits t t1" by (rule keepsD [OF k x(1)])
    ultimately show ?thesis using x(3) scaffold.rel_trans by fastforce
  qed
qed simp

lemma new_module_paths: "new_module ast_parse domain layer m c syms t = (Inr ps, t') \<Longrightarrow> layer_file domain layer m \<in> set ps"
  by (auto simp: new_module_def chain_eq_Inr_iff)

lemma generator_paths:
  assumes "resolve_names domain name = Inr (snake, pascal)"
  shows "generate_entity ast_parse domain name fields_str t = (Inr ps, t') \<Longrightarrow> layer_file domain ''entities'' snake \<in> set ps"
    and "generate_model ast_parse domain name fields_str t = (Inr ps, t') \<Longrightarrow>
      layer_file domain ''models'' (snake @ ''_model'') \<in> set ps"
    and "generate_repository ast_parse domain name fields_str t = (Inr ps, t') \<Longrightarrow>
      layer_file domain ''repositories'' (snake @ ''_repository'') \<in> set ps"
    and "generate_schema ast_parse domain name fields_str t = (Inr ps, t') \<Longrightarrow>
      layer_file domain ''schemas'' (snake @ ''_schema'') \<in> set ps"
    and "generate_service ast_parse domain name fields_str t = (Inr ps, t') \<Longrightarrow>
      layer_file domain ''services'' (snake @ ''_service'') \<in> set ps"
    and "generate_route ast_parse domain name fields_str t = (Inr ps, t') \<Longrightarrow>
      layer_file domain ''routes'' (snake @ ''_router'') \<in> set ps"
  by (auto simp: generate_entity_def generate_model_def generate_repository_def generate_schema_def
      generate_service_def generate_route_def assms lift_error_def chain_eq_Inr_iff Let_def split_beta
      dest: new_module_paths)


subsection \<open>Exports\<close>

lemma add_missing_set [simp]: "set (fold add_missing xs ys) = set xs \<union> set ys"
  by (induction xs arbitrary: ys) (auto simp: add_missing_def)

lemma add_missing_id: "set xs \<subseteq> set ys \<Longrightarrow> fold add_missing xs ys = ys"
  by (induction xs) (simp_all add: add_missing_def)

lemma import_known: "m \<in> fst ` set (extend_import m names xs)"
  by (cases "m \<in> fst ` set xs") (force simp: extend_import_def)+

lemma merge_symbols_idem: "merge_symbols m syms (merge_symbols m syms acc) = merge_symbols m syms acc"
proof -
  let ?add = "\<lambda>(k, ns). (k, if k = m then fold add_missing syms ns else ns)"
  have keys: "fst ` set (map ?add xs) = fst ` set xs" for xs by force
  have same: "extend_import m [] xs = xs" if "m \<in> fst ` set xs" for xs :: "(string \<times> string list) list"
  proof -
    have "map (\<lambda>(k, ns). (k, if k = m then ns @ [] else ns)) xs = xs" by (rule map_idI) auto
    with that show ?thesis by (simp only: extend_import_def if_True)
  qed
  have "extend_import m [] (map ?add (extend_import m [] (fst acc))) = map ?add (extend_import m [] (fst acc))"
    using import_known by (intro same) (simp only: keys)
  then show ?thesis by (auto simp: merge_symbols_def add_missing_id)
qed

definition old_names :: "py_parser \<Rightarrow> path \<Rightarrow> tree \<Rightarrow> (string \<times> string list) list \<times> string list" where
  "old_names ast_parse p t =
     (case t p of
        Some (File c) \<Rightarrow> (case ast_parse c of Inr body \<Rightarrow> module_names body | Inl _ \<Rightarrow> ([], []))
      | _ \<Rightarrow> ([], []))"

definition reads_back :: "py_parser \<Rightarrow> (string \<times> string list) list \<times> string list \<Rightarrow> bool" where
  "reads_back ast_parse acc \<longleftrightarrow> (case ast_parse (render_init acc) of Inr body \<Rightarrow> module_names body = acc | Inl _ \<Rightarrow> False)"

lemma update_init_run:
  assumes "update_init ast_parse p m syms t = (Inr q, t')"
  obtains "t' p = Some (File (render_init (merge_symbols m syms (old_names ast_parse p t))))"
    and "t' (butlast p) = Some Dir" and "list_all (\<lambda>q. t' q = Some Dir) (prefixes_of (butlast p))"
proof -
  obtain t1 acc where d: "make_dirs (butlast p) t = (Inr (), t1)"
    and acc: "(if t1 p \<noteq> None then chain (read_text p) (\<lambda>c. chain (of_result (ast_parse c)) (\<lambda>body. ret (module_names body)))
        else ret ([], [])) t1 = (Inr acc, t1)"
    and w: "write_text p (render_init (merge_symbols m syms acc)) t1 = (Inr (), t')"
    using assms
    by (auto simp: update_init_def chain_eq_Inr_iff reading_def path_exists_def read_text_def of_result_def
        split: if_splits option.splits node.splits sum.splits)
  have written: "t1 p \<noteq> Some Dir" and parent: "t1 (butlast p) = Some Dir"
    and t': "t' = t1(p \<mapsto> File (render_init (merge_symbols m syms acc)))"
    using w by (auto simp: write_text_def split: if_splits option.splits node.splits)
  have dirs: "list_all (\<lambda>q. t1 q = Some Dir) (prefixes_of (butlast p))"
    using d by (auto simp: make_dirs_def list_all_iff split: if_splits)
  have same: "t1 p = t p" using d written by (auto simp: make_dirs_def split: if_splits)
  then have "acc = old_names ast_parse p t"
    using acc written by (auto simp: old_names_def chain_def read_text_def of_result_def split: option.splits node.splits sum.splits)
  moreover have "butlast p \<noteq> p" using written parent by auto
  moreover have "list_all (\<lambda>q. t' q = Some Dir) (prefixes_of (butlast p))"
    using dirs written t' by (auto simp: list_all_iff)
  ultimately show thesis using that t' parent by auto
qed

text \<open>
  A layer's exports only grow, and are added once: after \<open>update_init\<close> the layer's
  \<open>__init__.py\<close> is the rendering of its old imports and exports with the new symbols among
  them, everything exported before still is, and, provided Python's parser reads that file as the
  imports and exports it was rendered from, running it again leaves the whole tree as it is.
\<close>

theorem init_keeps_exports:
  assumes "update_init ast_parse p m syms t = (Inr q, t')"
    and "new = merge_symbols m syms (old_names ast_parse p t)" and "reads_back ast_parse new"
  shows "t' p = Some (File (render_init new))
    \<and> set (snd new) = set (snd (old_names ast_parse p t)) \<union> set syms
    \<and> (\<exists>names. (m, names) \<in> set (fst new) \<and> set syms \<subseteq> set names)
    \<and> update_init ast_parse p m syms t' = (Inr p, t')"
proof -
  from assms(1) obtain written: "t' p = Some (File (render_init new))" and parent: "t' (butlast p) = Some Dir"
    and dirs: "list_all (\<lambda>q. t' q = Some Dir) (prefixes_of (butlast p))"
    unfolding assms(2) by (rule update_init_run)
  have "make_dirs (butlast p) t' = (Inr (), t')"
    using dirs by (fastforce simp: make_dirs_def list_all_iff)
  moreover obtain body where "ast_parse (render_init new) = Inr body" "module_names body = new"
    using assms(3) by (auto simp: reads_back_def split: sum.splits)
  moreover have "merge_symbols m syms new = new" using merge_symbols_idem assms(2) by simp
  ultimately have "update_init ast_parse p m syms t' = (Inr p, t')"
    using written parent by (auto simp: update_init_def chain_def reading_def path_exists_def read_text_def of_result_def
        write_text_def)
  moreover obtain ns where "(m, ns) \<in> set (fst new)" "set syms \<subseteq> set ns"
  proof -
    obtain ns where "(m, ns) \<in> set (extend_import m [] (fst (old_names ast_parse p t)))"
      using import_known [of m "[]"] by fastforce
    then have "(m, fold add_missing syms ns) \<in> set (fst new)" by (force simp: assms(2) merge_symbols_def)
    then show thesis by (rule that) simp
  qed
  ultimately show ?thesis using written by (auto simp: assms(2) merge_symbols_def)
qed

end
