(* ===== verification/ScaffoldWitnesses.thy ===== *)
theory ScaffoldWitnesses
  imports ScaffoldProps
begin

section \<open>The scaffolding tools on a small project\<close>

text \<open>
  A project with a manifest of API versions and a \<open>pyproject.toml\<close>, on which the properties of the
  scaffolding tools are applied and a whole component is generated.
\<close>

definition small_versions :: "string list" where
  "small_versions =
     [''from fastapi import APIRouter'', ''v1_router = APIRouter()'', ''v1_router.include_router(auth_router)'']"

definition small_lists :: "string list" where
  "small_lists =
     [''include = ['' @ dq @ ''core*'' @ dq @ '']'', ''root_packages = [] # layers'',
      ''source_modules = ['' @ dq @ ''user.entities'' @ dq @ '']'']"

definition small_project :: tree where
  "small_project =
     Map.empty([] \<mapsto> Dir, [''core''] \<mapsto> Dir, [''shop''] \<mapsto> Dir, [''shop'', ''entities''] \<mapsto> Dir,
               layer_init ''shop'' ''entities'' \<mapsto> File (render_init ([(''item'', [''Item''])], [''Item''])),
               api_versions \<mapsto> File (unlines small_versions), pyproject \<mapsto> File (unlines small_lists))"

text \<open>The parsed \<open>pyproject.toml\<close>, as far as the tools read it, with the domain \<open>shop\<close> in it.\<close>

definition small_document :: json where
  "small_document =
     (let shop = JList [JStr ''shop''] in
      JObj [(''tool'', JObj
        [(''setuptools'', JObj [(''packages'', JObj [(''find'', JObj [(''include'', JList [JStr ''core*'', JStr ''shop*''])])])]),
         (''ruff'', JObj [(''lint'', JObj [(''isort'', JObj [(''known-first-party'', shop)])])]),
         (''coverage'', JObj [(''run'', JObj [(''source'', shop)])]), (''deptry'', JObj [(''known_first_party'', shop)]),
         (''importlinter'', JObj
            [(''root_packages'', shop),
             (''contracts'', JList
               [JObj [(''type'', JStr ''layers''), (''containers'', shop)],
                JObj [(''source_modules'', JList [JStr ''user.entities'', JStr ''shop.entities''])]])])])])"

definition small_parser :: py_parser where
  "small_parser c =
     (let names = (if contains c ''Order'' then [''Item'', ''Order''] else [''Item'']) in
      Inr ((ImportFrom (Some ''item'') 1 [''Item''], 1)
           # (if contains c ''Order'' then [(ImportFrom (Some ''order'') 1 [''Order''], 2)] else [])
           @ [(Assign [''__all__''] (Some (map Some names)), 3)]))"

theorem resolved_names_agree_witness:
  "\<exists>snake pascal. resolve_names ''shop'' ''HTTPOrder-item'' = Inr (snake, pascal)
     \<and> snake = ''http_order_item'' \<and> resolve_names ''shop'' snake = Inr (snake, pascal) \<and> lower pascal = ''httporderitem''"
proof -
  have "resolve_names ''shop'' ''HTTPOrder-item'' = Inr (''http_order_item'', ''HttpOrderItem'')" by code_simp
  with resolved_names_agree [OF this] show ?thesis by simp
qed

definition small_fields :: "field list" where
  "small_fields =
     [\<lparr>fd_name = ''title'', fd_type = ''str'', fd_default = None, fd_py_type = ''str'', fd_sqla_type = ''String''\<rparr>,
      \<lparr>fd_name = ''owner'', fd_type = ''uuid'', fd_default = Some ''a=b:c'', fd_py_type = ''uuid.UUID'',
       fd_sqla_type = ''UUID(as_uuid=True)''\<rparr>]"

theorem fields_round_trip_witness:
  "join '','' (map render_field small_fields) = ''title:str,owner:uuid=a=b:c''
   \<and> parse_fields (join '','' (map render_field small_fields)) = Inr small_fields"
proof -
  have "list_all field_ok small_fields" by code_simp
  moreover have "join '','' (map render_field small_fields) = ''title:str,owner:uuid=a=b:c''" by code_simp
  ultimately show ?thesis using fields_round_trip by blast
qed

theorem router_wired_once_witness:
  "\<exists>new t'. register_router ''shop'' ''order_router'' small_project = (Inr [api_versions], t')
     \<and> t' api_versions = Some (File (unlines new)) \<and> subseq small_versions new
     \<and> register_router ''shop'' ''order_router'' t' = (Inr [], t')"
proof -
  obtain r t' where op: "register_router ''shop'' ''order_router'' small_project = (r, t')" by (rule prod.exhaust)
  have "fst (register_router ''shop'' ''order_router'' small_project) = Inr [api_versions]" by code_simp
  then have r: "register_router ''shop'' ''order_router'' small_project = (Inr [api_versions], t')" using op by simp
  have old: "small_project api_versions = Some (File (unlines small_versions))" by code_simp
  have ls: "splitlines (unlines small_versions) = small_versions" by code_simp
  have "one_line ''shop''" "one_line ''order_router''" by code_simp+
  from router_wired_once [OF r this] obtain new where "t' = small_project(api_versions \<mapsto> File (unlines new))"
    "subseq small_versions new" "register_router ''shop'' ''order_router'' t' = (Inr [], t')"
    using old ls by auto
  with r show ?thesis by auto
qed

theorem pyproject_all_or_nothing_witness:
  "\<exists>new t'. register_pyproject (\<lambda>_. Some small_document) ''shop'' small_project = (Inr [pyproject], t')
     \<and> t' pyproject = Some (File new)
     \<and> list_all2 (extended_by (set (pyproject_targets ''shop''))) (split_on (CHR 0x0A) (unlines small_lists)) (split_on (CHR 0x0A) new)
     \<and> register_pyproject (\<lambda>_. Some small_document) ''shop'' t' = (Inr [], t')"
proof -
  let ?op = "register_pyproject (\<lambda>_. Some small_document) ''shop''"
  obtain r t' where op: "?op small_project = (r, t')" by (rule prod.exhaust)
  have "fst (?op small_project) = Inr [pyproject]" by code_simp
  then have r: "?op small_project = (Inr [pyproject], t')" using op by simp
  have old: "small_project pyproject = Some (File (unlines small_lists))" by code_simp
  have "identifier_word ''shop''" by code_simp
  from pyproject_all_or_nothing [OF r this] old show ?thesis using r by auto
qed

theorem init_keeps_exports_witness:
  "\<exists>t'. update_init small_parser (layer_init ''shop'' ''entities'') ''order'' [''Order''] small_project
         = (Inr (layer_init ''shop'' ''entities''), t')
     \<and> t' (layer_init ''shop'' ''entities'')
         = Some (File (render_init ([(''item'', [''Item'']), (''order'', [''Order''])], [''Item'', ''Order''])))
     \<and> update_init small_parser (layer_init ''shop'' ''entities'') ''order'' [''Order''] t' = (Inr (layer_init ''shop'' ''entities''), t')"
proof -
  let ?p = "layer_init ''shop'' ''entities''"
  let ?op = "update_init small_parser ?p ''order'' [''Order'']"
  let ?new = "([(''item'', [''Item'']), (''order'', [''Order''])], [''Item'', ''Order''])"
  obtain r t' where op: "?op small_project = (r, t')" by (rule prod.exhaust)
  have "fst (?op small_project) = Inr ?p" by code_simp
  then have r: "?op small_project = (Inr ?p, t')" using op by simp
  have "?new = merge_symbols ''order'' [''Order''] (old_names small_parser ?p small_project)" by code_simp
  moreover have "reads_back small_parser ?new" by code_simp
  ultimately show ?thesis using init_keeps_exports [OF r] r by blast
qed

end
