(* ===== verification/Commands.thy ===== *)
theory Commands
  imports ScaffoldProps Operations
begin

section \<open>The commands of the tools\<close>

text \<open>
  The Typer commands around the generators, and \<open>scripts/create_migration.py\<close>. A command ends with
  an exit status, with a usage error or with an exception that nobody caught. What a prompt answers,
  ruff, pytest and Alembic are parameters; messages are left out, but for the warnings about a
  migration.
\<close>

datatype command_end = Exited int | BadParameter string | Uncaught tool_error

type_synonym ('s, 'a) command = "('s, command_end, 'a) act"

subsection \<open>Errors and prompts\<close>

definition cli_errors :: "'a tool \<Rightarrow> (tree, 'a) command" where
  "cli_errors m =
     (\<lambda>t. case m t of
            (Inl (ValueErr e), t') \<Rightarrow> (Inl (Exited 1), t')
          | (Inl e, t') \<Rightarrow> (Inl (Uncaught e), t')
          | (Inr x, t') \<Rightarrow> (Inr x, t'))"

record prompts =
  domain_answer :: string
  name_answer :: string
  fields_answer :: string

definition ask_domain :: "prompts \<Rightarrow> string option \<Rightarrow> string" where
  "ask_domain pr domain = (if domain \<in> {None, Some []} then domain_answer pr else the domain)"

definition ask_name :: "prompts \<Rightarrow> string option \<Rightarrow> string" where
  "ask_name pr name = (if name \<in> {None, Some []} then name_answer pr else the name)"

definition ask_fields :: "prompts \<Rightarrow> string option \<Rightarrow> string" where
  "ask_fields pr fields_arg = (case fields_arg of None \<Rightarrow> fields_answer pr | Some f \<Rightarrow> f)"

subsection \<open>Formatting\<close>

text \<open>How a run of ruff ends: it cannot be started, or it has a status and an error output.\<close>

datatype run_outcome = NotStarted | Finished int string

type_synonym runner = "string list \<Rightarrow> tree \<Rightarrow> run_outcome \<times> tree"

definition path_text :: "path \<Rightarrow> string" where
  "path_text p = join ''/'' p"

definition python_file :: "path \<Rightarrow> bool" where
  "python_file p \<longleftrightarrow> p \<noteq> [] \<and> endswith (last p) ''.py'' \<and> 3 < length (last p)"

definition run_program :: "runner \<Rightarrow> string list \<Rightarrow> (tree, run_outcome) command" where
  "run_program run args = (\<lambda>t. case run args t of (r, t') \<Rightarrow> (Inr r, t'))"

fun run_ruff :: "runner \<Rightarrow> string list \<Rightarrow> string list list \<Rightarrow> (tree, unit) command" where
  "run_ruff ruff targets [] = ret ()"
| "run_ruff ruff targets (args # rest) =
     chain (run_program ruff (args @ targets)) (\<lambda>r.
       case r of NotStarted \<Rightarrow> ret ()
       | Finished status stderr \<Rightarrow>
           if contains stderr ''No module named ruff'' then ret () else run_ruff ruff targets rest)"

definition format_paths :: "runner \<Rightarrow> path list \<Rightarrow> (tree, unit) command" where
  "format_paths ruff paths =
     (\<lambda>t. let targets = sort (remdups (map path_text (filter (\<lambda>p. python_file p \<and> path_exists p t) paths)))
          in if targets = [] then (Inr (), t)
             else run_ruff ruff targets [[''check'', ''--fix'', ''--quiet''], [''format'', ''--quiet'']] t)"

subsection \<open>The generators' commands\<close>

definition in_domain :: "string \<Rightarrow> 'a tool \<Rightarrow> (tree, 'a) command" where
  "in_domain domain m = cli_errors (chain (require_domain domain) (\<lambda>_. m))"

type_synonym layer_command = "string option \<Rightarrow> string option \<Rightarrow> string option \<Rightarrow> (tree, unit) command"

definition create_entity :: "py_parser \<Rightarrow> runner \<Rightarrow> prompts \<Rightarrow> layer_command" where
  "create_entity ast_parse ruff pr domain name fields_arg =
     (let domain = ask_domain pr domain; name = ask_name pr name; fields_str = ask_fields pr fields_arg
      in chain (in_domain domain (generate_entity ast_parse domain name fields_str)) (format_paths ruff))"

definition create_model :: "py_parser \<Rightarrow> runner \<Rightarrow> prompts \<Rightarrow> layer_command" where
  "create_model ast_parse ruff pr domain name fields_arg =
     (let domain = ask_domain pr domain; name = ask_name pr name; fields_str = ask_fields pr fields_arg
      in chain (in_domain domain (generate_model ast_parse domain name fields_str)) (format_paths ruff))"

definition create_repository :: "py_parser \<Rightarrow> runner \<Rightarrow> prompts \<Rightarrow> layer_command" where
  "create_repository ast_parse ruff pr domain name fields_arg =
     (let domain = ask_domain pr domain; name = ask_name pr name; fields_str = ask_fields pr fields_arg
      in chain (in_domain domain (generate_repository ast_parse domain name fields_str)) (format_paths ruff))"

definition create_schema :: "py_parser \<Rightarrow> runner \<Rightarrow> prompts \<Rightarrow> layer_command" where
  "create_schema ast_parse ruff pr domain name fields_arg =
     (let domain = ask_domain pr domain; name = ask_name pr name; fields_str = ask_fields pr fields_arg
      in chain (in_domain domain (generate_schema ast_parse domain name fields_str)) (format_paths ruff))"

text \<open>Services and routes take the fields only to look like the others.\<close>

definition create_service :: "py_parser \<Rightarrow> runner \<Rightarrow> prompts \<Rightarrow> layer_command" where
  "create_service ast_parse ruff pr domain name fields_arg =
     (let domain = ask_domain pr domain; name = ask_name pr name
      in chain (in_domain domain (generate_service ast_parse domain name [])) (format_paths ruff))"

definition create_route :: "py_parser \<Rightarrow> runner \<Rightarrow> prompts \<Rightarrow> layer_command" where
  "create_route ast_parse ruff pr domain name fields_arg =
     (let domain = ask_domain pr domain; name = ask_name pr name
      in chain (in_domain domain (generate_route ast_parse domain name [])) (format_paths ruff))"

definition create_dependencies :: "py_parser \<Rightarrow> runner \<Rightarrow> prompts \<Rightarrow> string option \<Rightarrow> string option \<Rightarrow> (tree, unit) command"
  where
  "create_dependencies ast_parse ruff pr domain name =
     (let domain = ask_domain pr domain; name = ask_name pr name
      in chain (in_domain domain (generate_dependencies ast_parse domain name)) (format_paths ruff))"

definition create_factory :: "runner \<Rightarrow> prompts \<Rightarrow> layer_command" where
  "create_factory ruff pr domain name fields_arg =
     (let domain = ask_domain pr domain; name = ask_name pr name
      in chain (cli_errors (generate_factory domain name)) (format_paths ruff))"

definition create_domain :: "(string \<Rightarrow> json option) \<Rightarrow> prompts \<Rightarrow> string option \<Rightarrow> (tree, unit) command" where
  "create_domain loads pr domain =
     chain (cli_errors (generate_domain loads (ask_domain pr domain))) (\<lambda>_. ret ())"

definition create_all :: "py_parser \<Rightarrow> (string \<Rightarrow> json option) \<Rightarrow> runner \<Rightarrow> prompts \<Rightarrow> layer_command" where
  "create_all ast_parse loads ruff pr domain name fields_arg =
     (let domain = ask_domain pr domain; name = ask_name pr name; fields_str = ask_fields pr fields_arg
      in chain (cli_errors (generate_all ast_parse loads domain name fields_str)) (format_paths ruff))"

text \<open>The tests are run when they are written; tests that fail are the command's status.\<close>

definition create_test ::
  "py_parser \<Rightarrow> runner \<Rightarrow> runner \<Rightarrow> prompts \<Rightarrow> string option \<Rightarrow> string option \<Rightarrow> (tree, unit) command" where
  "create_test ast_parse ruff pytest pr domain name =
     (let domain = ask_domain pr domain; name = ask_name pr name in
      chain (in_domain domain (generate_test ast_parse domain name)) (\<lambda>paths.
      chain (format_paths ruff paths) (\<lambda>_.
      chain (run_program pytest [path_text (test_file domain), ''-v'']) (\<lambda>r.
        case r of NotStarted \<Rightarrow> ret ()
        | Finished status stderr \<Rightarrow> if status \<noteq> 0 then raise (Exited status) else ret ()))))"

definition layer_commands :: "py_parser \<Rightarrow> runner \<Rightarrow> prompts \<Rightarrow> layer_command list" where
  "layer_commands ast_parse ruff pr =
     [create_entity ast_parse ruff pr, create_model ast_parse ruff pr, create_repository ast_parse ruff pr,
      create_schema ast_parse ruff pr, create_service ast_parse ruff pr, create_route ast_parse ruff pr]"

subsection \<open>create\_migration.py\<close>

definition check_domain_registered :: "string \<Rightarrow> string \<Rightarrow> ('s, unit) command" where
  "check_domain_registered domain manifest_source =
     (if \<not> contains manifest_source (''from '' @ domain @ ''.models import'')
      then raise (BadParameter (''core/models.py doesn'' @ sq @ ''t import '' @ domain @ ''.models ''
             @ em_dash @ '' Alembic won'' @ sq @ ''t see its tables. Add a line like ''
             @ sq @ ''from '' @ domain @ ''.models import '' @ capitalize domain @ ''Model'' @ sq
             @ '' to core/models.py first, then re-run.''))
      else ret ())"

definition lint_migration_file :: "string \<Rightarrow> string list" where
  "lint_migration_file content =
     (if \<not> contains content ''op.''
      then [''No schema changes detected '' @ em_dash @ '' check the domain is registered in core/models.py.''] else [])
     @ (if contains content ''op.drop_column''
        then [''Dropping a column '' @ em_dash @ '' make sure any data worth keeping has been migrated out first.''] else [])
     @ (if contains content ''op.drop_table''
        then [''Dropping a table '' @ em_dash @ '' this is irreversible once applied; double check downgrade() ''
              @ ''restores it if you need a safety net.''] else [])
     @ (if contains content ''nullable=False'' \<and> \<not> contains content ''server_default''
        then [''Adding/altering a column to nullable=False with no server_default '' @ em_dash
              @ '' existing rows may fail to backfill.''] else [])"

text \<open>What \<open>alembic.command.revision\<close> returns, with the path of each script.\<close>

datatype script = SingleScript "path option" | ScriptList "path option list"

definition first_script :: "script \<Rightarrow> path option" where
  "first_script s = (case s of SingleScript p \<Rightarrow> p | ScriptList [] \<Rightarrow> None | ScriptList (p # ps) \<Rightarrow> p)"

text \<open>
  The state is the tree and the database Alembic works on, which only Alembic reads and writes.
  \<open>import_models\<close> is the exception the import of \<open>core.models\<close> ends with, if any.
\<close>

type_synonym ('d, 'a) alembic = "(tree \<times> 'd, tool_error, 'a) act"

definition uncaught :: "('s, tool_error, 'a) act \<Rightarrow> ('s, 'a) command" where
  "uncaught m = (\<lambda>s. case m s of (Inl e, t) \<Rightarrow> (Inl (Uncaught e), t) | (Inr x, t) \<Rightarrow> (Inr x, t))"

definition on_tree :: "'a tool \<Rightarrow> ('d, 'a) alembic" where
  "on_tree m = (\<lambda>(t, d). case m t of (r, t') \<Rightarrow> (r, (t', d)))"

definition migration_preflight ::
  "(tree \<Rightarrow> string option) \<Rightarrow> string option \<Rightarrow> (tree \<times> 'd, unit) command" where
  "migration_preflight import_models domain =
     chain (if domain \<in> {None, Some []} then ret ()
            else chain (uncaught (on_tree (read_text models_manifest))) (check_domain_registered (the domain))) (\<lambda>_ s.
       if import_models (fst s) \<noteq> None then (Inl (Exited 1), s) else (Inr (), s))"

definition generate_migration ::
  "(string \<Rightarrow> ('d, script) alembic) \<Rightarrow> ('d, unit) alembic \<Rightarrow> string \<Rightarrow> bool \<Rightarrow> (tree \<times> 'd, string list option) command"
  where
  "generate_migration revision upgrade_head message apply_it =
     chain (uncaught (revision message)) (\<lambda>script.
       case first_script script of None \<Rightarrow> ret None
       | Some p \<Rightarrow>
           chain (uncaught (on_tree (read_text p))) (\<lambda>content.
           chain (if apply_it then uncaught upgrade_head else ret ()) (\<lambda>_.
           ret (Some (lint_migration_file content)))))"

definition create_migration ::
  "(string \<Rightarrow> string option) \<Rightarrow> settings \<Rightarrow> (tree \<Rightarrow> string option) \<Rightarrow> (string \<Rightarrow> ('d, script) alembic)
     \<Rightarrow> ('d, unit) alembic \<Rightarrow> string \<Rightarrow> string option \<Rightarrow> bool \<Rightarrow> bool
     \<Rightarrow> (tree \<times> 'd, string list option) command" where
  "create_migration host_of st import_models revision upgrade_head message domain allow_production apply_it =
     (case ensure_safe_operation host_of st ''create-migration'' allow_production None None of
        Inl _ \<Rightarrow> raise (Exited 1)
      | Inr _ \<Rightarrow>
          chain (migration_preflight import_models domain) (\<lambda>_.
          generate_migration revision upgrade_head message apply_it))"

subsection \<open>Commands that refuse change nothing\<close>

lemma in_domain_refused:
  assumes "t [domain] \<noteq> Some Dir \<or> (\<exists>e. m t = (Inl (ValueErr e), t))"
  shows "in_domain domain m t = (Inl (Exited 1), t)"
  using assms by (auto simp: in_domain_def cli_errors_def require_domain_def chain_def reading_def is_dir_def)

lemma generators_refuse:
  assumes "generate \<in> set layer_generators" and "resolve_names domain name = Inl e"
  shows "generate ast_parse domain name fields_str t = (Inl (ValueErr e), t)"
  using assms
  by (auto simp: layer_generators_def generate_entity_def generate_model_def generate_repository_def
      generate_schema_def generate_service_def generate_route_def lift_error_def)

lemma generators_refuse_fields:
  assumes "generate \<in> set (take 4 layer_generators)" and "parse_fields fields_str = Inl e"
  shows "\<exists>e. generate ast_parse domain name fields_str t = (Inl (ValueErr e), t)"
proof (cases "resolve_names domain name")
  case (Inl a)
  then show ?thesis using generators_refuse assms(1) in_set_takeD by metis
next
  case (Inr p)
  have "generate \<in> {generate_entity, generate_model, generate_repository, generate_schema}"
    using assms(1) by (simp add: layer_generators_def)
  then show ?thesis
    by (elim insertE emptyE; cases p; hypsubst)
       (simp_all add: Inr assms(2) lift_error_def generate_entity_def generate_model_def
         generate_repository_def generate_schema_def)
qed

lemma layer_command_runs:
  assumes "(cmd, has_fields) \<in> set (zip (layer_commands ast_parse ruff pr) [True, True, True, True, False, False])"
  obtains generate fields_str where "generate \<in> set layer_generators"
    and "cmd domain name fields_arg =
      chain (in_domain (ask_domain pr domain) (generate ast_parse (ask_domain pr domain) (ask_name pr name) fields_str))
            (format_paths ruff)"
    and "has_fields \<longrightarrow> generate \<in> set (take 4 layer_generators) \<and> fields_str = ask_fields pr fields_arg"
proof -
  consider "cmd = create_entity ast_parse ruff pr" | "cmd = create_model ast_parse ruff pr"
    | "cmd = create_repository ast_parse ruff pr" | "cmd = create_schema ast_parse ruff pr"
    | "cmd = create_service ast_parse ruff pr \<and> \<not> has_fields" | "cmd = create_route ast_parse ruff pr \<and> \<not> has_fields"
    using assms by (simp only: layer_commands_def zip_Cons_Cons zip_Nil list.set insert_iff empty_iff prod.inject) metis
  then show thesis
  proof cases
    case 1
    show thesis by (rule that [of generate_entity "ask_fields pr fields_arg"])
      (simp_all add: 1 create_entity_def Let_def layer_generators_def)
  next
    case 2
    show thesis by (rule that [of generate_model "ask_fields pr fields_arg"])
      (simp_all add: 2 create_model_def Let_def layer_generators_def)
  next
    case 3
    show thesis by (rule that [of generate_repository "ask_fields pr fields_arg"])
      (simp_all add: 3 create_repository_def Let_def layer_generators_def)
  next
    case 4
    show thesis by (rule that [of generate_schema "ask_fields pr fields_arg"])
      (simp_all add: 4 create_schema_def Let_def layer_generators_def)
  next
    case 5
    show thesis by (rule that [of generate_service "[]"])
      (simp_all add: 5 create_service_def Let_def layer_generators_def)
  next
    case 6
    show thesis by (rule that [of generate_route "[]"])
      (simp_all add: 6 create_route_def Let_def layer_generators_def)
  qed
qed


subsection \<open>Migrations are guarded\<close>

lemma preflight_passes:
  assumes "migration_preflight import_models (Some domain) s = (x, s')" and "domain \<noteq> []"
  shows "s' = s" and "x = Inr u \<Longrightarrow> import_models (fst s) = None
    \<and> (\<exists>c. fst s models_manifest = Some (File c) \<and> contains c (''from '' @ domain @ ''.models import''))"
  using assms
  by (cases s; auto simp: migration_preflight_def chain_def uncaught_def on_tree_def read_text_def check_domain_registered_def
      split: option.splits node.splits if_splits prod.splits sum.splits)+

lemma read_on_tree: "uncaught (on_tree (read_text p)) s = (x, s') \<Longrightarrow> s' = s"
  by (cases s) (auto simp: uncaught_def on_tree_def read_text_def split: prod.splits option.splits node.splits sum.splits)

lemma uncaught_state: "snd (uncaught m s) = snd (m s)"
  by (auto simp: uncaught_def split: prod.split sum.split)

lemma generate_migration_db:
  assumes "generate_migration revision upgrade_head message apply_it s = (r, s')"
  shows "s' = snd (revision message s) \<or> apply_it \<and> s' = snd (upgrade_head (snd (revision message s)))"
proof -
  obtain x s1 where rev: "uncaught (revision message) s = (x, s1)" by (rule prod.exhaust)
  then have s1: "s1 = snd (revision message s)" using uncaught_state [of "revision message" s] by simp
  show ?thesis
  proof (cases "\<exists>script p. x = Inr script \<and> first_script script = Some p")
    case True
    then obtain script p where x: "x = Inr script" "first_script script = Some p" by blast
    obtain y s2 where read: "uncaught (on_tree (read_text p)) s1 = (y, s2)" by (rule prod.exhaust)
    note s2 = read_on_tree [OF read]
    have "s' = s1 \<or> apply_it \<and> s' = snd (uncaught upgrade_head s1)"
      using assms rev x read unfolding s2
      by (auto simp: generate_migration_def chain_def split: prod.splits sum.splits if_splits)
    then show ?thesis using s1 uncaught_state by auto
  next
    case False
    then have "s' = s1" using assms rev by (auto simp: generate_migration_def chain_def split: sum.splits option.splits)
    then show ?thesis using s1 by simp
  qed
qed

text \<open>
  C33: \<open>create-migration\<close> is guarded: as soon as it changes anything or succeeds, production was
  confirmed, the models' manifest imports the domain, and the models could be imported. The
  database changes only when it was asked to apply the migration and there is one, and then only
  by the upgrade, given that autogenerating a revision only reads it.
\<close>

theorem migration_is_guarded:
  assumes "create_migration host_of st import_models revision upgrade_head message (Some domain) allow_production apply_it s
             = (r, s')"
    and "s' \<noteq> s \<or> r = Inr warnings" and "domain \<noteq> []" and "\<And>m s. snd (snd (revision m s)) = snd s"
  shows "(environment st = ''production'' \<longrightarrow> allow_production)
    \<and> (\<exists>c. fst s models_manifest = Some (File c) \<and> contains c (''from '' @ domain @ ''.models import''))
    \<and> import_models (fst s) = None
    \<and> (snd s' \<noteq> snd s \<longrightarrow> apply_it \<and> s' = snd (upgrade_head (snd (revision message s))))"
proof -
  obtain host where safe: "ensure_safe_operation host_of st ''create-migration'' allow_production None None = Inr host"
    using assms(1,2) by (auto simp: create_migration_def split: sum.splits)
  obtain x s1 where pre: "migration_preflight import_models (Some domain) s = (x, s1)" by (rule prod.exhaust)
  then have run: "chain (migration_preflight import_models (Some domain)) (\<lambda>_.
      generate_migration revision upgrade_head message apply_it) s = (r, s')"
    using assms(1) safe by (simp add: create_migration_def)
  note passes = preflight_passes [OF pre assms(3)]
  obtain u where x: "x = Inr u" using run pre assms(2) passes(1) by (cases x) auto
  then have "generate_migration revision upgrade_head message apply_it s = (r, s')" using run pre passes(1) by simp
  from generate_migration_db [OF this] have "snd s' \<noteq> snd s \<longrightarrow> apply_it \<and> s' = snd (upgrade_head (snd (revision message s)))"
    using assms(4) [of message s] by auto
  then show ?thesis
    using safe passes(2) [OF x] by (auto simp: ensure_safe_operation_def or_empty_def Let_def split: if_splits)
qed

subsection \<open>From scaffolding to a migration\<close>

text \<open>Only \<open>register_model\<close> returns the manifest among its paths.\<close>

definition returns_in :: "path set \<Rightarrow> path list tool \<Rightarrow> bool" where
  "returns_in ps m \<longleftrightarrow> (\<forall>s xs s'. m s = (Inr xs, s') \<longrightarrow> set xs \<subseteq> ps)"

lemma returns_after: "(\<And>x. returns_in ps (f x)) \<Longrightarrow> returns_in ps (chain m f)"
  by (auto simp: returns_in_def chain_eq_Inr_iff)

lemma returns_ret [simp]: "returns_in ps (ret xs) \<longleftrightarrow> set xs \<subseteq> ps"
  by (auto simp: returns_in_def)

lemma returns_error [simp]: "returns_in ps (raise e)" "returns_in ps (of_result (Inl e))"
  by (simp_all add: returns_in_def of_result_def)

lemma returns_register: "returns_in {pyproject} (register_pyproject loads domain)"
  unfolding register_pyproject_def Let_def by (auto intro!: returns_after split: option.split)

lemma returns_inD: "returns_in ps m \<Longrightarrow> m s = (Inr xs, s') \<Longrightarrow> set xs \<subseteq> ps"
  by (auto simp: returns_in_def)

lemma returns_collect: "(\<And>m. m \<in> set ms \<Longrightarrow> returns_in ps m) \<Longrightarrow> returns_in ps (collect ms)"
proof (induction ms)
  case (Cons m ms)
  then have parts: "returns_in ps m" "returns_in ps (collect ms)" by simp_all
  show ?case
    unfolding returns_in_def
  proof (intro allI impI)
    fix s xs s'
    assume "collect (m # ms) s = (Inr xs, s')"
    then obtain as t bs where "m s = (Inr as, t)" "collect ms t = (Inr bs, s')" "xs = as @ bs"
      by (auto simp: chain_eq_Inr_iff)
    then show "set xs \<subseteq> ps" using returns_inD parts by fastforce
  qed
qed simp

lemma manifest_apart [simp]:
  "models_manifest \<noteq> layer_file domain layer m" "models_manifest \<noteq> layer_init domain layer"
  "models_manifest \<noteq> dependencies_file domain" "models_manifest \<noteq> pyproject" "models_manifest \<noteq> api_versions"
  by (simp_all add: layer_file_def layer_init_def dependencies_file_def pyproject_def models_manifest_def api_versions_def)

lemma module_returns: "returns_in (- {models_manifest}) (new_module ast_parse domain layer m c syms)"
  unfolding returns_in_def
proof (intro allI impI)
  fix s xs s'
  assume "new_module ast_parse domain layer m c syms s = (Inr xs, s')"
  then have "xs = [layer_file domain layer m, layer_init domain layer]"
    by (auto simp: new_module_def chain_eq_Inr_iff dest: update_init_there)
  then show "set xs \<subseteq> - {models_manifest}" by simp
qed

lemma generators_return:
  "generate \<in> set layer_generators \<Longrightarrow> returns_in (- {models_manifest}) (generate ast_parse domain name fields_str)"
  unfolding layer_generators_def
  by (auto simp: generate_entity_def generate_model_def generate_repository_def generate_schema_def generate_service_def
      generate_route_def Let_def split_beta intro!: returns_after module_returns)

lemma others_return:
  "returns_in (- {models_manifest}) (generate_domain loads domain)"
  "returns_in (- {models_manifest}) (generate_dependencies ast_parse domain name)"
proof -
  show "returns_in (- {models_manifest}) (generate_domain loads domain)"
    unfolding returns_in_def
  proof (intro allI impI)
    fix s xs s'
    assume "generate_domain loads domain s = (Inr xs, s')"
    then obtain u ps where "register_pyproject loads domain u = (Inr ps, s')" "xs = dependencies_file domain # ps"
      by (auto simp: generate_domain_def chain_eq_Inr_iff)
    moreover from this have "set ps \<subseteq> {pyproject}" using returns_inD [OF returns_register] by blast
    ultimately show "set xs \<subseteq> - {models_manifest}" by auto
  qed
  show "returns_in (- {models_manifest}) (generate_dependencies ast_parse domain name)"
    unfolding generate_dependencies_def split_beta by (intro returns_after) (auto intro!: returns_after)
qed

lemma collect_append:
  "collect (ms @ ns) t = (Inr ps, t') \<Longrightarrow> \<exists>qs u rs. collect ms t = (Inr qs, u) \<and> collect ns u = (Inr rs, t') \<and> ps = qs @ rs"
  by (induction ms arbitrary: t ps) (fastforce simp: chain_eq_Inr_iff)+


end
