(* ===== verification/ScaffoldRuns.thy ===== *)
theory ScaffoldRuns
  imports Commands
begin

section \<open>Scaffolding succeeds\<close>

text \<open>
  When nothing stands in the way of the directories and files of a component, and the parsers
  answer, the generators run to their end.
\<close>

subsection \<open>Trees nothing is in the way in\<close>

definition sound :: "path set \<Rightarrow> path set \<Rightarrow> tree \<Rightarrow> bool" where
  "sound dirs files t \<longleftrightarrow>
     t [] = Some Dir \<and> (\<forall>p. p = [] \<or> t p = None \<or> t (butlast p) = Some Dir)
   \<and> (\<forall>p \<in> dirs. t p = None \<or> t p = Some Dir) \<and> (\<forall>p \<in> files. t p \<noteq> Some Dir)"

definition succeeds :: "('s \<Rightarrow> bool) \<Rightarrow> ('s, 'e, 'a) act \<Rightarrow> bool" where
  "succeeds ok m \<longleftrightarrow> (\<forall>s. ok s \<longrightarrow> (\<exists>x s'. m s = (Inr x, s') \<and> ok s'))"

lemma succeeds_ret [simp]: "succeeds ok (ret x)"
  by (simp add: succeeds_def)

lemma succeeds_chain: "succeeds ok m \<Longrightarrow> (\<And>x. succeeds ok (f x)) \<Longrightarrow> succeeds ok (chain m f)"
  unfolding succeeds_def by (metis chain_Inr)

lemma succeeds_if: "(b \<Longrightarrow> succeeds ok m) \<Longrightarrow> (\<not> b \<Longrightarrow> succeeds ok n) \<Longrightarrow> succeeds ok (if b then m else n)"
  by simp

lemma succeeds_each: "(\<And>x. x \<in> set xs \<Longrightarrow> succeeds ok (f x)) \<Longrightarrow> succeeds ok (each f xs)"
  by (induction xs) (auto intro!: succeeds_chain)

lemma succeeds_collect: "(\<And>m. m \<in> set ms \<Longrightarrow> succeeds ok m) \<Longrightarrow> succeeds ok (collect ms)"
  by (induction ms) (auto intro!: succeeds_chain)

lemma succeeds_reading [simp]: "succeeds ok (reading f)"
  by (simp add: succeeds_def reading_def)

lemma succeeds_result: "x = Inr v \<Longrightarrow> succeeds ok (of_result x)"
  by (simp add: succeeds_def of_result_def)

lemma prefixes_iff: "q \<in> set (prefixes_of p) \<longleftrightarrow> (\<exists>r. p = q @ r)"
proof
  assume "q \<in> set (prefixes_of p)"
  then obtain k where "q = take k p" unfolding prefixes_of_def set_map by (rule imageE)
  then show "\<exists>r. p = q @ r" using append_take_drop_id by metis
next
  assume "\<exists>r. p = q @ r"
  then obtain r where p: "p = q @ r" ..
  then have "q = take (length q) p" "length q \<in> set [0..<Suc (length p)]" by auto
  then show "q \<in> set (prefixes_of p)" unfolding prefixes_of_def set_map by (rule image_eqI)
qed

lemma make_dirs_sound:
  assumes "sound dirs files t" and "set (prefixes_of p) \<subseteq> dirs" and "dirs \<inter> files = {}"
  shows "\<exists>t'. make_dirs p t = (Inr (), t') \<and> sound dirs files t' \<and> t' p = Some Dir"
proof -
  let ?t = "\<lambda>q. if t q = None \<and> q \<in> set (prefixes_of p) then Some Dir else t q"
  have prefix: "butlast q \<in> set (prefixes_of p)" if "q \<in> set (prefixes_of p)" for q
    using that by (cases q rule: rev_cases) (auto simp: prefixes_iff)
  have dir: "?t q = Some Dir" if "q \<in> set (prefixes_of p)" for q
  proof -
    have "q \<in> dirs" using that assms(2) by blast
    then have "t q = None \<or> t q = Some Dir" using assms(1) by (simp add: sound_def)
    with that show ?thesis by auto
  qed
  have "sound dirs files ?t"
    unfolding sound_def
  proof (intro conjI allI impI ballI)
    show "?t [] = Some Dir" using assms(1) by (simp add: sound_def)
    show "q = [] \<or> ?t q = None \<or> ?t (butlast q) = Some Dir" for q
    proof (cases "q \<in> set (prefixes_of p)")
      case True
      then show ?thesis using dir prefix by blast
    next
      case False
      moreover have "q = [] \<or> t q = None \<or> t (butlast q) = Some Dir" using assms(1) by (simp add: sound_def)
      ultimately show ?thesis by auto
    qed
    show "?t q = None \<or> ?t q = Some Dir" if "q \<in> dirs" for q using that assms(1) by (auto simp: sound_def)
    show "?t q \<noteq> Some Dir" if "q \<in> files" for q using that assms by (auto simp: sound_def)
  qed
  moreover have "p \<in> set (prefixes_of p)" by (simp add: prefixes_iff)
  moreover have "make_dirs p t = (Inr (), ?t)" using assms(1,2) by (auto simp: make_dirs_def sound_def list_all_iff)
  ultimately show ?thesis using dir by blast
qed

lemma write_sound:
  assumes "sound dirs files t" and "p \<in> files" and "t (butlast p) = Some Dir" and "dirs \<inter> files = {}"
  shows "\<exists>t'. write_text p c t = (Inr (), t') \<and> sound dirs files t'"
proof -
  have "sound dirs files (t(p \<mapsto> File c))"
    using assms by (auto simp: sound_def)
  moreover have "t p \<noteq> Some Dir" using assms(1,2) by (simp add: sound_def)
  ultimately show ?thesis using assms(3) by (auto simp: write_text_def)
qed

lemma new_file_succeeds:
  assumes "dirs \<inter> files = {}" and "p \<in> files" and "set (prefixes_of (butlast p)) \<subseteq> dirs"
  shows "succeeds (sound dirs files) (write_new_file p c)"
  unfolding succeeds_def
proof (intro allI impI)
  fix t
  assume "sound dirs files t"
  from make_dirs_sound [OF this assms(3,1)] obtain u where u: "make_dirs (butlast p) t = (Inr (), u)" "sound dirs files u"
    "u (butlast p) = Some Dir" by blast
  from write_sound [OF u(2) assms(2) u(3) assms(1)] obtain v where "write_text p c u = (Inr (), v)" "sound dirs files v" by blast
  then show "\<exists>x t'. write_new_file p c t = (Inr x, t') \<and> sound dirs files t'"
    using u by (auto simp: write_new_file_def chain_def reading_def)
qed

lemma read_sound:
  assumes "sound dirs files t" and "p \<in> files" and "t p \<noteq> None"
  obtains c where "t p = Some (File c)" and "read_text p t = (Inr c, t)"
proof -
  obtain n where n: "t p = Some n" using assms(3) by blast
  moreover have "n \<noteq> Dir" using assms(1,2) n by (auto simp: sound_def)
  ultimately show thesis using that by (cases n) (simp_all add: read_text_def)
qed

lemma update_init_succeeds:
  assumes "dirs \<inter> files = {}" and "p \<in> files" and "set (prefixes_of (butlast p)) \<subseteq> dirs"
    and "\<And>c. \<exists>body. ast_parse c = Inr body"
  shows "succeeds (sound dirs files) (update_init ast_parse p m syms)"
  unfolding succeeds_def
proof (intro allI impI)
  fix t
  assume "sound dirs files t"
  from make_dirs_sound [OF this assms(3,1)] obtain u where u: "make_dirs (butlast p) t = (Inr (), u)" "sound dirs files u"
    "u (butlast p) = Some Dir" by blast
  have "\<exists>acc. (if u p \<noteq> None then chain (read_text p) (\<lambda>c. chain (of_result (ast_parse c)) (\<lambda>body. ret (module_names body)))
      else ret ([], [])) u = (Inr acc, u)"
  proof (cases "u p = None")
    case False
    then obtain c where "read_text p u = (Inr c, u)" using read_sound [OF u(2) assms(2)] by blast
    moreover obtain body where "ast_parse c = Inr body" using assms(4) by blast
    ultimately show ?thesis using False by (simp add: of_result_def)
  qed simp
  then obtain acc where acc: "(if u p \<noteq> None then chain (read_text p) (\<lambda>c. chain (of_result (ast_parse c)) (\<lambda>body. ret (module_names body)))
      else ret ([], [])) u = (Inr acc, u)" ..
  obtain v where "write_text p (render_init (merge_symbols m syms acc)) u = (Inr (), v)" "sound dirs files v"
    using write_sound [OF u(2) assms(2) u(3) assms(1)] by blast
  with u acc show "\<exists>x t'. update_init ast_parse p m syms t = (Inr x, t') \<and> sound dirs files t'"
    by (auto simp: update_init_def chain_eq_Inr_iff reading_def path_exists_def)
qed

text \<open>A file that is there can be edited.\<close>

lemma write_existing:
  assumes "dirs \<inter> files = {}" and "p \<in> files" and "p \<noteq> []"
  shows "succeeds (\<lambda>t. sound dirs files t \<and> t p \<noteq> None) (write_text p c)"
  unfolding succeeds_def
proof (intro allI impI)
  fix t
  assume t: "sound dirs files t \<and> t p \<noteq> None"
  then have "t (butlast p) = Some Dir" using assms(3) by (auto simp: sound_def)
  with t obtain u where "write_text p c t = (Inr (), u)" "sound dirs files u" using write_sound assms(1,2) by blast
  moreover from this have "u p \<noteq> None" using write_there by blast
  ultimately show "\<exists>x t'. write_text p c t = (Inr x, t') \<and> sound dirs files t' \<and> t' p \<noteq> None" by blast
qed

lemma edit_succeeds:
  assumes "p \<in> files" and "\<And>c. succeeds (\<lambda>t. sound dirs files t \<and> t p \<noteq> None) (body c)"
  shows "succeeds (sound dirs files)
    (chain (reading (path_exists p)) (\<lambda>there. if \<not> there then ret [] else chain (read_text p) body))"
  unfolding succeeds_def
proof (intro allI impI)
  fix t
  assume t: "sound dirs files t"
  show "\<exists>x t'. chain (reading (path_exists p)) (\<lambda>there. if \<not> there then ret [] else chain (read_text p) body) t = (Inr x, t')
      \<and> sound dirs files t'"
  proof (cases "t p = None")
    case True
    with t show ?thesis by (simp add: chain_def reading_def path_exists_def)
  next
    case False
    obtain c where "read_text p t = (Inr c, t)" using read_sound [OF t assms(1) False] .
    moreover obtain x t' where "body c t = (Inr x, t')" "sound dirs files t'"
      using assms(2) [of c] t False by (auto simp: succeeds_def)
    ultimately have "chain (reading (path_exists p)) (\<lambda>there. if \<not> there then ret [] else chain (read_text p) body) t = (Inr x, t')"
      using False by (cases "t p") (simp_all add: chain_def reading_def path_exists_def)
    with \<open>sound dirs files t'\<close> show ?thesis by blast
  qed
qed

lemmas succeeds_rules = succeeds_ret succeeds_chain succeeds_if

lemma register_model_succeeds:
  assumes "dirs \<inter> files = {}" and "models_manifest \<in> files" and "\<And>c. \<exists>body. ast_parse c = Inr body"
  shows "succeeds (sound dirs files) (register_model ast_parse domain model_class)"
proof -
  have parse: "succeeds ok (of_result (ast_parse c))" for ok :: "tree \<Rightarrow> bool" and c
  proof -
    obtain body where "ast_parse c = Inr body" using assms(3) by blast
    then show ?thesis by (rule succeeds_result)
  qed
  have "models_manifest \<noteq> []" by (simp add: models_manifest_def)
  note wr = write_existing [OF assms(1,2) this]
  show ?thesis
    unfolding register_model_def Let_def by (rule edit_succeeds [OF assms(2)]) (intro succeeds_rules parse wr)
qed

lemma register_router_succeeds:
  assumes "dirs \<inter> files = {}" and "api_versions \<in> files"
  shows "succeeds (sound dirs files) (register_router domain router_var)"
proof -
  have "api_versions \<noteq> []" by (simp add: api_versions_def)
  note wr = write_existing [OF assms this]
  have wired: "succeeds (\<lambda>t. sound dirs files t \<and> t api_versions \<noteq> None)
      (case wire_router imp inc ls of None \<Rightarrow> ret []
       | Some new \<Rightarrow> chain (write_text api_versions (join nl new @ nl)) (\<lambda>_. ret [api_versions]))" for imp inc ls
    by (cases "wire_router imp inc ls"; simp only: option.case) (intro succeeds_rules wr)+
  show ?thesis
    unfolding register_router_def Let_def by (rule edit_succeeds [OF assms(2)]) (intro succeeds_if succeeds_ret wired)
qed

lemma register_pyproject_succeeds:
  assumes "dirs \<inter> files = {}" and "pyproject \<in> files"
    and "\<And>c data. loads c = Some data \<Longrightarrow> \<exists>b. domain_missing domain data = Inr b"
  shows "succeeds (sound dirs files) (register_pyproject loads domain)"
proof -
  have "pyproject \<noteq> []" by (simp add: pyproject_def)
  note wr = write_existing [OF assms(1,2) this]
  have edited: "succeeds (\<lambda>t. sound dirs files t \<and> t pyproject \<noteq> None)
      (case loads c of None \<Rightarrow> ret []
       | Some data \<Rightarrow>
           chain (of_result (domain_missing domain data)) (\<lambda>missing.
             if missing then ret [] else if c = original then ret []
             else chain (write_text pyproject c) (\<lambda>_. ret [pyproject])))" for c original
  proof (cases "loads c")
    case (Some data)
    then obtain b where "domain_missing domain data = Inr b" using assms(3) by blast
    then have "succeeds (\<lambda>t. sound dirs files t \<and> t pyproject \<noteq> None) (of_result (domain_missing domain data))"
      by (rule succeeds_result)
    then show ?thesis unfolding Some option.case by (intro succeeds_rules wr)
  qed simp
  show ?thesis
    unfolding register_pyproject_def Let_def by (rule edit_succeeds [OF assms(2)], rule edited)
qed

subsection \<open>The generators\<close>

definition project_dirs :: "string \<Rightarrow> path set" where
  "project_dirs domain = insert [] (insert [domain] ((\<lambda>layer. [domain, layer]) ` set domain_layers))"

definition project_files :: "string \<Rightarrow> string \<Rightarrow> path set" where
  "project_files domain snake =
     set (module_files domain snake) \<union> layer_init domain ` set domain_layers \<union> {models_manifest, api_versions, pyproject}"

lemma project_apart:
  assumes "identifier_match domain"
  shows "project_dirs domain \<inter> project_files domain snake = {}"
proof -
  have "\<not> identifier_match ''pyproject.toml''" by code_simp
  then have "domain \<noteq> ''pyproject.toml''" using assms by blast
  then show ?thesis
    by (auto simp: project_dirs_def project_files_def module_files_def layer_file_def layer_init_def dependencies_file_def
        models_manifest_def api_versions_def pyproject_def domain_layers_def)
qed

lemma prefixes_of_short: "prefixes_of [] = [[]]" "prefixes_of [a] = [[], [a]]" "prefixes_of [a, b] = [[], [a], [a, b]]"
  by (simp_all add: prefixes_of_def upt_rec)

lemma resolved_ok: "resolve_names domain name = Inr p \<Longrightarrow> identifier_match domain \<and> validate_domain domain = Inr ()"
  by (auto simp: resolve_names_def validate_domain_def split: sum.splits if_splits)

lemma module_succeeds:
  assumes "identifier_match domain" and "layer \<in> set domain_layers" and "layer_file domain layer m \<in> project_files domain snake"
    and "\<And>c. \<exists>body. ast_parse c = Inr body"
  shows "succeeds (sound (project_dirs domain) (project_files domain snake)) (new_module ast_parse domain layer m c syms)"
proof -
  note apart = project_apart [OF assms(1)]
  have "layer_init domain layer \<in> project_files domain snake" using assms(2) by (simp add: project_files_def)
  moreover have "set (prefixes_of (butlast (layer_file domain layer m))) \<subseteq> project_dirs domain"
    "set (prefixes_of (butlast (layer_init domain layer))) \<subseteq> project_dirs domain"
    using assms(2) by (simp_all add: layer_file_def layer_init_def prefixes_of_short project_dirs_def)
  ultimately show ?thesis
    unfolding new_module_def
    by (intro succeeds_rules new_file_succeeds update_init_succeeds) (use apart assms(3,4) in auto)
qed

lemma generators_succeed:
  assumes "generate \<in> set layer_generators" and "resolve_names domain name = Inr (snake, pascal)"
    and "parse_fields fields_str = Inr fs" and "\<And>c. \<exists>body. ast_parse c = Inr body"
  shows "succeeds (sound (project_dirs domain) (project_files domain snake)) (generate ast_parse domain name fields_str)"
proof -
  have id: "identifier_match domain" using resolved_ok [OF assms(2)] by simp
  have files: "layer_file domain ''entities'' snake \<in> project_files domain snake"
    "layer_file domain ''models'' (snake @ ''_model'') \<in> project_files domain snake"
    "layer_file domain ''repositories'' (snake @ ''_repository'') \<in> project_files domain snake"
    "layer_file domain ''schemas'' (snake @ ''_schema'') \<in> project_files domain snake"
    "layer_file domain ''services'' (snake @ ''_service'') \<in> project_files domain snake"
    "layer_file domain ''routes'' (snake @ ''_router'') \<in> project_files domain snake"
    by (simp_all add: project_files_def module_files_def)
  have modules: "succeeds (sound (project_dirs domain) (project_files domain snake)) (new_module ast_parse domain layer m c syms)"
    if "layer \<in> set domain_layers" "layer_file domain layer m \<in> project_files domain snake" for layer m c syms
    using that by (intro module_succeeds id assms(4))
  from assms(1) show ?thesis
    unfolding layer_generators_def
    by (auto simp: generate_entity_def generate_model_def generate_repository_def generate_schema_def generate_service_def
        generate_route_def assms(2,3) lift_error_def Let_def split_beta intro!: modules files) (simp_all add: domain_layers_def)
qed

lemma dependencies_succeed:
  assumes "resolve_names domain name = Inr (snake, pascal)" and "\<And>c. \<exists>body. ast_parse c = Inr body"
  shows "succeeds (sound (project_dirs domain) (project_files domain snake)) (generate_dependencies ast_parse domain name)"
  unfolding succeeds_def
proof (intro allI impI)
  let ?p = "dependencies_file domain" and ?ok = "sound (project_dirs domain) (project_files domain snake)"
  fix t
  assume t: "?ok t"
  have p: "?p \<in> project_files domain snake" "butlast ?p = [domain]"
    by (simp_all add: project_files_def module_files_def dependencies_file_def)
  have apart: "project_dirs domain \<inter> project_files domain snake = {}" using resolved_ok [OF assms(1)] project_apart by blast
  have "\<exists>c. text_or_empty ?p t = (Inr c, t)"
  proof (cases "t ?p = None")
    case True
    then show ?thesis by (simp add: text_or_empty_def chain_def reading_def path_exists_def)
  next
    case False
    then obtain c where "read_text ?p t = (Inr c, t)" using read_sound [OF t p(1)] by blast
    with False show ?thesis by (cases "t ?p") (simp_all add: text_or_empty_def chain_def reading_def path_exists_def)
  qed
  then obtain c where c: "text_or_empty ?p t = (Inr c, t)" ..
  have missing: "\<exists>ms. missing_imports ast_parse present lines = Inr ms" for present lines
  proof (induction lines)
    case (Cons l ls)
    obtain body where "ast_parse l = Inr body" using assms(2) by blast
    with Cons show ?case by auto
  qed simp
  have "\<exists>merged. merge_imports ast_parse c needed = Inr merged" for needed
  proof -
    obtain body where "ast_parse c = Inr body" using assms(2) by blast
    moreover obtain ms where "missing_imports ast_parse (imported body) needed = Inr ms" using missing by blast
    ultimately show ?thesis by (simp add: merge_imports_def Let_def split: prod.split)
  qed
  then obtain merged where merged: "merge_imports ast_parse c (dependency_imports domain snake pascal) = Inr merged" by blast
  have "set (prefixes_of [domain]) \<subseteq> project_dirs domain" by (simp add: prefixes_of_short project_dirs_def)
  from make_dirs_sound [OF t this apart] obtain u where u: "make_dirs [domain] t = (Inr (), u)" "?ok u" "u [domain] = Some Dir"
    by blast
  obtain v where "write_text ?p (rstrip_nl merged @ nl @ nl @ nl @ dependency_block snake pascal) u = (Inr (), v)" "?ok v"
    using write_sound [OF u(2) p(1) _ apart] u(3) p(2) by metis
  then show "\<exists>x t'. generate_dependencies ast_parse domain name t = (Inr x, t') \<and> ?ok t'"
    using c u(1) merged t by (auto simp: generate_dependencies_def assms(1) lift_error_def of_result_def)
qed

lemma ensure_file_there: "ensure_file p s = (Inr u, s') \<Longrightarrow> s' p \<noteq> None"
  using touch_there by (auto simp: ensure_file_def chain_eq_Inr_iff reading_def path_exists_def split: if_splits)

lemma domain_succeeds:
  assumes "resolve_names domain name = Inr (snake, pascal)"
    and "\<And>c data. loads c = Some data \<Longrightarrow> \<exists>b. domain_missing domain data = Inr b"
  shows "succeeds (sound (project_dirs domain) (project_files domain snake)) (generate_domain loads domain)"
  unfolding succeeds_def
proof (intro allI impI)
  let ?p = "dependencies_file domain" and ?ok = "sound (project_dirs domain) (project_files domain snake)"
  fix t
  assume t: "?ok t"
  have apart: "project_dirs domain \<inter> project_files domain snake = {}" using resolved_ok [OF assms(1)] project_apart by blast
  have ensure: "succeeds ?ok (ensure_file (layer_init domain layer))" if "layer \<in> set domain_layers" for layer
    unfolding succeeds_def
  proof (intro allI impI)
    fix s
    assume s: "?ok s"
    let ?i = "layer_init domain layer"
    have i: "?i \<in> project_files domain snake" "set (prefixes_of (butlast ?i)) \<subseteq> project_dirs domain"
      using that by (simp_all add: project_files_def project_dirs_def layer_init_def prefixes_of_short)
    show "\<exists>x s'. ensure_file ?i s = (Inr x, s') \<and> ?ok s'"
    proof (cases "s ?i")
      case None
      from make_dirs_sound [OF s i(2) apart] obtain u where u: "make_dirs (butlast ?i) s = (Inr (), u)" "?ok u"
        "u (butlast ?i) = Some Dir" by blast
      obtain v where "write_text ?i [] u = (Inr (), v)" "?ok v" using write_sound [OF u(2) i(1) u(3) apart] by blast
      with u None show ?thesis
        by (cases "u ?i") (auto simp: ensure_file_def chain_def reading_def path_exists_def touch_def)
    next
      case (Some n)
      with s show ?thesis by (simp add: ensure_file_def chain_def reading_def path_exists_def)
    qed
  qed
  let ?each = "each (\<lambda>layer. ensure_file (layer_init domain layer))"
  obtain u where u: "?each domain_layers t = (Inr (), u)" "?ok u"
  proof -
    have "succeeds ?ok (?each domain_layers)" by (intro succeeds_each ensure)
    with t show thesis using that by (auto simp: succeeds_def)
  qed
  obtain ls where ls: "domain_layers = ls @ [''routes'']"
    by (rule that [of "butlast domain_layers"]) (simp add: domain_layers_def)
  have "chain (?each ls) (\<lambda>_. ?each [''routes'']) t = (Inr (), u)"
    using u(1) unfolding ls each_append .
  then obtain w where "?each [''routes''] w = (Inr (), u)" unfolding chain_eq_Inr_iff by blast
  then have "ensure_file (layer_init domain ''routes'') w = (Inr (), u)" by (auto simp: chain_eq_Inr_iff)
  then have routes: "u [domain, ''routes'', ''__init__.py''] \<noteq> None" using ensure_file_there unfolding layer_init_def by blast
  have parent: "q = [] \<or> u q = None \<or> u (butlast q) = Some Dir" for q using u(2) by (simp add: sound_def)
  from routes have "u [domain, ''routes''] = Some Dir"
    using parent [of "[domain, ''routes'', ''__init__.py'']"] by auto
  then have "u [domain] = Some Dir" using parent [of "[domain, ''routes'']"] by simp
  moreover have "?p \<in> project_files domain snake" "butlast ?p = [domain]"
    by (simp_all add: project_files_def module_files_def dependencies_file_def)
  ultimately obtain v where v: "ensure_touched ?p u = (Inr (), v)" "?ok v"
    using write_sound [OF u(2) _ _ apart, of ?p "[]"] u(2)
    by (cases "u ?p") (auto simp: ensure_touched_def chain_def reading_def path_exists_def touch_def)
  obtain ps w where "register_pyproject loads domain v = (Inr ps, w)" "?ok w"
  proof -
    have "pyproject \<in> project_files domain snake" by (simp add: project_files_def)
    then have "succeeds ?ok (register_pyproject loads domain)"
      using apart assms(2) by (intro register_pyproject_succeeds)
    with v(2) show thesis using that by (auto simp: succeeds_def)
  qed
  with u v show "\<exists>x t'. generate_domain loads domain t = (Inr x, t') \<and> ?ok t'"
    using resolved_ok [OF assms(1)] by (auto simp: generate_domain_def lift_error_def)
qed

lemma all_succeeds:
  assumes "resolve_names domain name = Inr (snake, pascal)" and "parse_fields fields_str = Inr fs"
    and "\<And>c. \<exists>body. ast_parse c = Inr body"
    and "\<And>c data. loads c = Some data \<Longrightarrow> \<exists>b. domain_missing domain data = Inr b"
  shows "succeeds (sound (project_dirs domain) (project_files domain snake)) (generate_all ast_parse loads domain name fields_str)"
proof -
  let ?ok = "sound (project_dirs domain) (project_files domain snake)"
  have apart: "project_dirs domain \<inter> project_files domain snake = {}" using resolved_ok [OF assms(1)] project_apart by blast
  have known: "models_manifest \<in> project_files domain snake" "api_versions \<in> project_files domain snake"
    by (simp_all add: project_files_def)
  have "succeeds ?ok m" if "m \<in> set (generate_domain loads domain
      # map (\<lambda>generate. generate ast_parse domain name fields_str) layer_generators
      @ [generate_dependencies ast_parse domain name, register_model ast_parse domain (pascal @ ''Model''),
         register_router domain (snake @ ''_router'')])" for m
  proof -
    from that consider "m = generate_domain loads domain"
      | generate where "generate \<in> set layer_generators" "m = generate ast_parse domain name fields_str"
      | "m = generate_dependencies ast_parse domain name" | "m = register_model ast_parse domain (pascal @ ''Model'')"
      | "m = register_router domain (snake @ ''_router'')" by auto
    then show ?thesis
    proof cases
      case 1
      then show ?thesis using domain_succeeds [OF assms(1,4)] by simp
    next
      case 2
      then show ?thesis using generators_succeed [OF _ assms(1,2,3)] by simp
    next
      case 3
      then show ?thesis using dependencies_succeed [OF assms(1,3)] by simp
    next
      case 4
      then show ?thesis using register_model_succeeds [OF apart known(1) assms(3)] by simp
    next
      case 5
      then show ?thesis using register_router_succeeds [OF apart known(2)] by simp
    qed
  qed
  then show ?thesis
    unfolding generate_all_def assms(1) lift_error_def sum.case chain_ret prod.case by (rule succeeds_collect)
qed


end
