(* ===== verification/Seed.thy ===== *)
theory Seed
  imports Routes Operations
begin

section \<open>scripts/seed.py\<close>

text \<open>
  Filling a database with demonstration users. The factory's values, salts, UUIDs and clock
  readings are sequences, taken in the order of the calls: the \<open>n\<close>-th request the factory builds,
  and for the \<open>k\<close>-th user its salt, its id and three times. \<open>typer.Exit(1)\<close> is a \<open>RuntimeError\<close>.
\<close>

subsection \<open>core/factories/user\_factory.py\<close>

text \<open>Every request has a fresh address; the other members are the factory library's choice.\<close>

definition make_email :: "uuid \<Rightarrow> string" where
  "make_email u = ''test_'' @ take 8 (uuid_hex u) @ ''@example.com''"

definition build_create_request :: "create_user_request \<Rightarrow> uuid \<Rightarrow> create_user_request" where
  "build_create_request other u = other\<lparr>cu_email := make_email u\<rparr>"

subsection \<open>Users\<close>

record seed_env =
  seed_auth :: auth_env
  seed_request :: "nat \<Rightarrow> create_user_request"
  seed_salt :: "nat \<Rightarrow> string"
  seed_id :: "nat \<Rightarrow> uuid"
  seed_clock :: "nat \<Rightarrow> time"

text \<open>
  The loop that draws requests until the address is new, with the number of requests drawn so
  far. \<open>None\<close> is a loop that never ends.
\<close>

partial_function (option) build_unique_user ::
  "(nat \<Rightarrow> create_user_request) \<Rightarrow> string set \<Rightarrow> nat \<Rightarrow> (create_user_request \<times> string set \<times> nat) option" where
  "build_unique_user build used_emails n =
     (let request = build n in
      if cu_email request \<in> used_emails then build_unique_user build used_emails (Suc n)
      else Some (request, insert (cu_email request) used_emails, Suc n))"

declare build_unique_user.simps [code]

definition admin_scopes :: string where "admin_scopes = ''admin:read admin:write''"

definition seed_user ::
  "seed_env \<Rightarrow> nat \<Rightarrow> string \<Rightarrow> string \<Rightarrow> string \<Rightarrow> user_field list \<Rightarrow> unit db" where
  "seed_user env k full_name email password changes =
     chain (hash_password (seed_auth env) password (seed_salt env k)) (\<lambda>password_hash.
     chain (user_add (orig_text (seed_auth env)) full_name email password_hash (seed_id env k)
              (seed_clock env (3 * k)) (seed_clock env (3 * k + 1))) (\<lambda>u.
       if changes = [] then ret ()
       else chain (user_update (orig_text (seed_auth env)) (user_id u) changes (seed_clock env (3 * k + 2))) (\<lambda>_. ret ())))"

text \<open>A loop over \<open>range(count)\<close>: the addresses used, the requests drawn and the users made so far.\<close>

primrec seed_users ::
  "seed_env \<Rightarrow> user_field list \<Rightarrow> nat \<Rightarrow> string set \<times> nat \<times> nat \<Rightarrow> (string set \<times> nat \<times> nat) option db" where
  "seed_users env changes 0 progress = ret (Some progress)"
| "seed_users env changes (Suc count) progress =
     (case progress of (used_emails, n, k) \<Rightarrow>
        (case build_unique_user (seed_request env) used_emails n of None \<Rightarrow> ret None
         | Some (request, used_emails, n) \<Rightarrow>
             chain (seed_user env k (cu_name request) (cu_email request) (cu_password request) changes) (\<lambda>_.
             seed_users env changes count (used_emails, n, Suc k))))"

definition delete_all_users :: "tables \<Rightarrow> (exc + unit) \<times> tables" where
  "delete_all_users tb = (Inr (), tb\<lparr>users := [], refresh_sessions := []\<rparr>)"

definition seed_admin :: "seed_env \<Rightarrow> string \<Rightarrow> string \<Rightarrow> unit db" where
  "seed_admin env admin_email admin_password =
     attempt (seed_user env 0 ''Seed Admin'' admin_email admin_password
                [SetIsVerified True, SetIsActive True, SetScopes admin_scopes])
       (\<lambda>e. if is_conflict_error e then ret () else raise e)"

definition seed_tables ::
  "seed_env \<Rightarrow> int \<Rightarrow> string \<Rightarrow> string \<Rightarrow> int \<Rightarrow> bool \<Rightarrow> bool \<Rightarrow> unit option db" where
  "seed_tables env count admin_email admin_password unverified_count reset force =
     chain (if reset then chain (db_execute Delete delete_all_users) (\<lambda>_. commit) else ret ()) (\<lambda>_.
     chain (db_scalar (\<lambda>tb. length (users tb))) (\<lambda>user_count.
       if user_count \<noteq> 0 \<and> \<not> reset \<and> \<not> force then raise (RuntimeError ''Exit 1'')
       else
         chain (seed_admin env admin_email admin_password) (\<lambda>_.
         chain (seed_users env [SetIsVerified True, SetIsActive True] (nat count) ({admin_email}, 0, 1)) (\<lambda>progress.
           case progress of None \<Rightarrow> ret None
           | Some progress \<Rightarrow>
               chain (seed_users env [] (nat unverified_count) progress) (\<lambda>progress.
               ret (map_option (\<lambda>_. ()) progress))))))"

text \<open>\<open>owned\<close>: no session was passed, and the seeding opens its own.\<close>

definition seed_database ::
  "bool \<Rightarrow> seed_env \<Rightarrow> int \<Rightarrow> string \<Rightarrow> string \<Rightarrow> int \<Rightarrow> bool \<Rightarrow> bool \<Rightarrow> unit option db" where
  "seed_database owned env count admin_email admin_password unverified_count reset force =
     (let run = seed_tables env count admin_email admin_password unverified_count reset force
      in if owned then local_session run else run)"

definition seed ::
  "(string \<Rightarrow> string option) \<Rightarrow> settings \<Rightarrow> seed_env \<Rightarrow> int \<Rightarrow> string \<Rightarrow> string \<Rightarrow> int \<Rightarrow> bool \<Rightarrow> bool \<Rightarrow> bool
     \<Rightarrow> unit option db" where
  "seed host_of st env count admin_email admin_password unverified_count reset force allow_production =
     (case ensure_safe_operation host_of st ''seed'' allow_production None None of
        Inl _ \<Rightarrow> raise (RuntimeError ''Exit 1'')
      | Inr _ \<Rightarrow> seed_database True env count admin_email admin_password unverified_count reset force)"

subsection \<open>The loop ends\<close>

lemma unique_user_found:
  assumes "cu_email (build m) \<notin> used" and "n \<le> m"
    and "\<And>i. n \<le> i \<Longrightarrow> i < m \<Longrightarrow> cu_email (build i) \<in> used"
  shows "build_unique_user build used n = Some (build m, insert (cu_email (build m)) used, Suc m)"
  using assms(2,3)
proof (induction "m - n" arbitrary: n)
  case 0
  then have "n = m" by simp
  then show ?case using assms(1) by (subst build_unique_user.simps) (simp add: Let_def)
next
  case (Suc d)
  then have "cu_email (build n) \<in> used" by simp
  moreover have "build_unique_user build used (Suc n) = Some (build m, insert (cu_email (build m)) used, Suc m)"
    using Suc by simp
  ultimately show ?case by (subst build_unique_user.simps) (simp add: Let_def)
qed

text \<open>
  C37: Drawing a new user ends: if the next addresses the factory makes are different, as many as
  there are used ones and one more, the loop returns after at most as many rejected draws as there
  are used addresses, with the first request whose address is new, and records that address.
\<close>

theorem unique_user_terminates:
  assumes "finite used" and "inj_on (\<lambda>i. cu_email (build i)) {n..n + card used}"
  shows "\<exists>m. n \<le> m \<and> m \<le> n + card used \<and> cu_email (build m) \<notin> used
    \<and> {cu_email (build i) |i. n \<le> i \<and> i < m} \<subseteq> used
    \<and> build_unique_user build used n = Some (build m, insert (cu_email (build m)) used, Suc m)"
proof -
  let ?e = "\<lambda>i. cu_email (build i)"
  have "card (?e ` {n..n + card used}) = Suc (card used)" using assms(2) by (simp add: card_image)
  then have "\<not> ?e ` {n..n + card used} \<subseteq> used" using card_mono [OF assms(1)] by (metis Suc_n_not_le_n)
  then have "\<exists>i. n \<le> i \<and> i \<le> n + card used \<and> ?e i \<notin> used" by auto
  then obtain m where m: "n \<le> m" "m \<le> n + card used" "?e m \<notin> used"
    and least: "\<And>i. i < m \<Longrightarrow> \<not> (n \<le> i \<and> i \<le> n + card used \<and> ?e i \<notin> used)"
    using exists_least_iff [of "\<lambda>i. n \<le> i \<and> i \<le> n + card used \<and> ?e i \<notin> used"] by blast
  have before: "?e i \<in> used" if "n \<le> i" "i < m" for i
    using least [OF that(2)] that m(2) by auto
  have "build_unique_user build used n = Some (build m, insert (?e m) used, Suc m)"
    using m before by (intro unique_user_found) auto
  with m before show ?thesis by blast
qed

lemma unique_user_new:
  assumes "build_unique_user build used n = Some y"
  shows "cu_email (fst y) \<notin> used \<and> fst (snd y) = insert (cu_email (fst y)) used"
proof (rule build_unique_user.raw_induct [of "\<lambda>b u n y. cu_email (fst y) \<notin> u \<and> fst (snd y) = insert (cu_email (fst y)) u",
      OF _ assms])
  fix loop and b :: "nat \<Rightarrow> create_user_request" and u n y
  assume "\<And>b u n y. loop b u n = Some y \<Longrightarrow> cu_email (fst y) \<notin> u \<and> fst (snd y) = insert (cu_email (fst y)) u"
    and "(let request = b n in if cu_email request \<in> u then loop b u (Suc n)
          else Some (request, insert (cu_email request) u, Suc n)) = Some y"
  then show "cu_email (fst y) \<notin> u \<and> fst (snd y) = insert (cu_email (fst y)) u"
    by (auto simp: Let_def split: if_splits)
qed

subsection \<open>What a seeding stores\<close>

lemma user_add_Inr:
  assumes "user_add ot name email hash i c u s = (Inr x, t)"
  defines "row \<equiv> new_user_row i name email hash None c u"
  shows "x = user_to_entity row \<and> committed t = working t \<and> working t = (working s)\<lparr>users := users (working s) @ [row]\<rparr>
    \<and> i \<notin> u_id ` set (users (working s)) \<and> email \<notin> u_email ` set (users (working s))"
proof -
  obtain v where "user_stage_add ot name email hash None None i c u s = (Inr x, v)"
    "committed t = working v" "working t = working v"
    using assms(1) unfolding user_add_def by (rule transaction_Inr)
  then show ?thesis by (auto dest!: user_stage_add_Inr simp: insert_Inr row_def new_user_row_def)
qed

lemma update_added:
  assumes "i \<notin> u_id ` set xs" and "u_id r = i"
  shows "update_where (\<lambda>q. u_id q = i) g (xs @ [r]) = xs @ [g r]"
proof -
  have "map (\<lambda>q. if u_id q = i then g q else q) xs = xs" using assms(1) by (intro map_idI) auto
  then show ?thesis by (simp add: update_where_def assms(2))
qed

text \<open>Two rows that are equal but for the time of the last change.\<close>

definition same_row :: "user_row \<Rightarrow> user_row \<Rightarrow> bool" where
  "same_row r q \<longleftrightarrow> r\<lparr>u_updated_at := u_updated_at q\<rparr> = q"

lemma same_rowD:
  assumes "same_row r q"
  shows "u_id r = u_id q" "u_email r = u_email q" "u_is_verified r = u_is_verified q" "u_is_active r = u_is_active q"
    "u_scopes r = u_scopes q" "u_full_name r = u_full_name q"
  using assms by (cases r; cases q; simp add: same_row_def)+

lemma find_last: "(\<And>q. q \<in> set xs \<Longrightarrow> \<not> P q) \<Longrightarrow> P r \<Longrightarrow> find P (xs @ [r]) = Some r"
  by (induction xs) auto

lemma find_added:
  assumes "i \<notin> u_id ` set (users tb)" and "u_id r = i"
  shows "find_user i (tb\<lparr>users := users tb @ [r]\<rparr>) = Some r"
proof -
  have "find (\<lambda>q. u_id q = i) (users tb @ [r]) = Some r" using assms(1)
    by (intro find_last) (auto simp: image_iff assms(2))
  then show ?thesis by (simp add: find_user_def)
qed

lemma user_update_added:
  assumes "user_update ot i changes now s = (Inr x, t)" and "working s = tb\<lparr>users := users tb @ [row]\<rparr>"
    and "i \<notin> u_id ` set (users tb)" and "u_id row = i"
  obtains row' where "committed t = working t" and "working t = tb\<lparr>users := users tb @ [row']\<rparr>"
    and "same_row row' (set_fields changes row)"
proof -
  obtain v where v: "user_stage_update ot i changes now s = (Inr x, v)" "committed t = working v" "working t = working v"
    using assms(1) unfolding user_update_def by (rule transaction_Inr)
  have found: "find_user i (working s) = Some row"
    unfolding assms(2) using assms(3,4) by (rule find_added)
  then obtain r' where flush: "flush_user_update i changes now (working s) = (Inr r', working v)"
    using user_stage_update_Inr [OF v(1)] by (auto split: option.splits)
  from flush_user_update_Inr [OF this] found
  consider "working v = working s" "set_fields changes row = row"
    | "working v = (working s)\<lparr>users := update_where (\<lambda>q. u_id q = i)
         (\<lambda>q. (set_fields changes q)\<lparr>u_updated_at := now\<rparr>) (users (working s))\<rparr>" by auto
  then show thesis
  proof cases
    case 1
    show thesis by (rule that [of row]) (simp_all add: v 1 assms(2) same_row_def)
  next
    case 2
    show thesis
      by (rule that [of "(set_fields changes row)\<lparr>u_updated_at := now\<rparr>"])
         (simp_all add: v 2 assms(2) update_added assms(3,4) same_row_def)
  qed
qed

lemma seed_user_Inr:
  assumes "seed_user env k name email password changes s = (Inr (), t)"
  obtains row hash where "committed t = working t" and "working t = (working s)\<lparr>users := users (working s) @ [row]\<rparr>"
    and "same_row row (set_fields changes (new_user_row (seed_id env k) name email hash None
           (seed_clock env (3 * k)) (seed_clock env (3 * k + 1))))"
    and "email \<notin> u_email ` set (users (working s))"
proof -
  obtain hash x v where add: "user_add (orig_text (seed_auth env)) name email hash (seed_id env k)
      (seed_clock env (3 * k)) (seed_clock env (3 * k + 1)) s = (Inr x, v)"
    and upd: "(if changes = [] then ret ()
       else chain (user_update (orig_text (seed_auth env)) (user_id x) changes (seed_clock env (3 * k + 2))) (\<lambda>_. ret ())) v
       = (Inr (), t)"
    using assms by (auto simp: seed_user_def chain_eq_Inr_iff hash_password_def of_sum_def)
  let ?row = "new_user_row (seed_id env k) name email hash None (seed_clock env (3 * k)) (seed_clock env (3 * k + 1))"
  note added = user_add_Inr [OF add]
  have id: "user_id x = seed_id env k" "u_id ?row = seed_id env k"
    using added by (simp_all add: user_to_entity_def new_user_row_def)
  show thesis
  proof (cases "changes = []")
    case True
    then have "t = v" using upd by simp
    then show thesis using that [of ?row hash] added True by (simp add: set_fields_def same_row_def)
  next
    case False
    then obtain y where "user_update (orig_text (seed_auth env)) (seed_id env k) changes (seed_clock env (3 * k + 2)) v = (Inr y, t)"
      using upd id by (auto simp: chain_eq_Inr_iff)
    then obtain row where "committed t = working t" "working t = (working s)\<lparr>users := users (working s) @ [row]\<rparr>"
      "same_row row (set_fields changes ?row)"
      using added id by (elim user_update_added [where tb = "working s" and row = ?row]) auto
    then show thesis using that added by blast
  qed
qed

lemma seed_users_Inr:
  assumes "seed_users env changes count (used, n, k) s = (Inr (Some (used', n', k')), t)" and "committed s = working s"
    and "changes \<in> {[], [SetIsVerified True, SetIsActive True]}"
  shows "\<exists>new. committed t = working t \<and> working t = (working s)\<lparr>users := users (working s) @ new\<rparr> \<and> length new = count
    \<and> list_all (\<lambda>r. u_is_active r \<and> u_is_verified r = (changes \<noteq> []) \<and> u_scopes r = [] \<and> u_email r \<notin> used) new
    \<and> used' = used \<union> u_email ` set new \<and> distinct (map u_email new)"
  using assms(1,2)
proof (induction count arbitrary: used n k s)
  case 0
  then show ?case by (intro exI [of _ "[]"]) auto
next
  case (Suc count)
  obtain request used1 n1 where draw: "build_unique_user (seed_request env) used n = Some (request, used1, n1)"
    using Suc.prems(1) by (auto split: option.splits)
  obtain u where user: "seed_user env k (cu_name request) (cu_email request) (cu_password request) changes s = (Inr (), u)"
    and rest: "seed_users env changes count (used1, n1, Suc k) u = (Inr (Some (used', n', k')), t)"
    using Suc.prems(1) by (auto simp: draw chain_eq_Inr_iff)
  obtain row hash where row: "committed u = working u" "working u = (working s)\<lparr>users := users (working s) @ [row]\<rparr>"
    "same_row row (set_fields changes (new_user_row (seed_id env k) (cu_name request) (cu_email request) hash None
           (seed_clock env (3 * k)) (seed_clock env (3 * k + 1))))"
    using user by (rule seed_user_Inr)
  obtain new where new: "committed t = working t" "working t = (working u)\<lparr>users := users (working u) @ new\<rparr>" "length new = count"
    "list_all (\<lambda>r. u_is_active r \<and> u_is_verified r = (changes \<noteq> []) \<and> u_scopes r = [] \<and> u_email r \<notin> used1) new"
    "used' = used1 \<union> u_email ` set new" "distinct (map u_email new)"
    using Suc.IH [OF rest row(1)] by blast
  have drawn: "cu_email request \<notin> used" "used1 = insert (cu_email request) used"
    using unique_user_new [OF draw] by simp_all
  have r: "u_email row = cu_email request" "u_is_active row" "u_is_verified row = (changes \<noteq> [])" "u_scopes row = []"
    using same_rowD [OF row(3)] assms(3) by (auto simp: set_fields_def set_field_def new_user_row_def)
  show ?case
    by (rule exI [of _ "row # new"]) (use new row r drawn in \<open>auto simp: list_all_iff\<close>)
qed

text \<open>Nothing staged stays nothing staged under a read, even one that fails over.\<close>

definition clean_kept :: "session \<Rightarrow> session \<Rightarrow> bool" where
  "clean_kept s t \<longleftrightarrow> committed t = committed s \<and> (committed s = working s \<longrightarrow> committed t = working t)"

interpretation clean: frame_relation clean_kept
  by standard (auto simp: clean_kept_def)

lemma read_clean: "keeps clean_kept (db_scalar q)"
proof -
  let ?run = "run_statement Select (\<lambda>tb. (Inr (q tb), tb))"
  have run: "keeps clean_kept ?run"
    by (auto simp: keeps_def run_statement_def get_bind_def on_primary_def clean_kept_def Let_def split: option.split)
  have again: "keeps clean_kept (chain (set_force_primary True) (\<lambda>_. chain rollback (\<lambda>_. ?run)))"
    by (intro clean.keeps_chain run) (auto simp: keeps_def set_force_primary_def rollback_def clean_kept_def)
  have "keeps clean_kept (\<lambda>s. if \<not> can_fail_over s then raise e s
      else chain (set_force_primary True) (\<lambda>_. chain rollback (\<lambda>_. ?run)) s)" for e
    using again by (auto simp: keeps_def clean.rel_refl)
  then show ?thesis
    unfolding db_scalar_def with_failover_def by (intro clean.keeps_attempt run) (simp add: clean.keeps_raise)
qed

lemma seed_reset_Inr:
  assumes "(if reset then chain (db_execute Delete delete_all_users) (\<lambda>_. commit) else ret ()) s = (Inr (), t)"
    and "committed s = working s"
  shows "committed t = working t
    \<and> working t = (if reset then (working s)\<lparr>users := [], refresh_sessions := []\<rparr> else working s)"
proof (cases reset)
  case True
  then obtain u where "on_primary delete_all_users (s\<lparr>force_primary := True\<rparr>) = (Inr (), u)" "commit u = (Inr (), t)"
    using assms(1) by (auto simp: chain_eq_Inr_iff db_execute_dml)
  moreover from this have "working u = (working s)\<lparr>users := [], refresh_sessions := []\<rparr>"
    by (auto dest!: on_primary_Inr simp: delete_all_users_def)
  ultimately show ?thesis using True by (auto simp: commit_def split: if_splits)
qed (use assms in simp)

text \<open>Only the insertion of a user can be in conflict with another user.\<close>

lemma transaction_error:
  assumes "transaction body s = (Inl e, t)"
  shows "e = OperationalError \<or> (\<exists>u. body s = (Inl e, u))"
proof (cases "body s")
  case (Pair r u)
  show ?thesis
  proof (cases r)
    case (Inl e')
    with Pair assms show ?thesis by (auto simp: transaction_def attempt_def rollback_def)
  next
    case (Inr x)
    with Pair assms show ?thesis
      by (auto simp: transaction_def attempt_def rollback_def chain_def commit_def split: if_splits)
  qed
qed

lemma pinned_get_Inl: "db_get q s = (Inl e, t) \<Longrightarrow> force_primary s \<Longrightarrow> e = OperationalError"
  by (auto simp: db_get_pinned on_primary_def split: if_splits)

lemma flush_error:
  "flush_or_raise ot False f s = (Inl e, t) \<Longrightarrow> e = OperationalError \<or> (\<exists>v w. f (working s) = (Inl v, w) \<and> e = email_conflict ot v)"
  by (auto simp: flush_or_raise_def attempt_def db_flush_def on_primary_def pin_primary_on_flush_def email_conflict_def
      split: prod.splits sum.splits if_splits)

lemma update_no_conflict:
  assumes "user_update ot i changes now s = (Inl e, t)" and "find_user i (working s) = Some row"
    and "set_fields changes row = row' \<and> SetEmail None \<notin> set changes \<and> SetFullName None \<notin> set changes"
    and "\<And>q. q \<in> set (users (working s)) \<Longrightarrow> u_id q \<noteq> i \<Longrightarrow> u_email q \<noteq> u_email row'"
  shows "\<not> is_conflict_error e"
proof -
  from transaction_error [OF assms(1) [unfolded user_update_def]]
  consider "e = OperationalError" | u where "user_stage_update ot i changes now s = (Inl e, u)" by blast
  then show ?thesis
  proof cases
    case 2
    let ?s = "s\<lparr>force_primary := True\<rparr>"
    have "chain (db_get (find_user i)) (\<lambda>u. case u of None \<Rightarrow> ret None
         | Some _ \<Rightarrow> chain (flush_or_raise ot False (flush_user_update i changes now))
                   (\<lambda>model. ret (Some (user_to_entity model)))) ?s = (Inl e, u)"
      using 2 by (simp add: user_stage_update_def)
    then have "e = OperationalError
      \<or> (\<exists>v. working v = working s \<and> flush_or_raise ot False (flush_user_update i changes now) v = (Inl e, u))"
      by (auto simp: chain_eq_Inl_iff dest!: pinned_get_Inl pinned_get_Inr split: option.splits)
    moreover have "\<exists>r tb. flush_user_update i changes now (working s) = (Inr r, tb)"
      using assms(2-4) by (auto simp: flush_user_update_def Let_def)
    ultimately show ?thesis by (auto dest!: flush_error)
  qed simp
qed

lemma seed_user_conflict:
  assumes "seed_user env k name email password changes s = (Inl e, t)" and "is_conflict_error e"
    and "committed s = working s" and "SetEmail None \<notin> set changes \<and> SetFullName None \<notin> set changes"
    and "\<And>r. u_email (set_fields changes r) = u_email r"
  shows "committed t = working s \<and> working t = working s"
proof -
  let ?add = "\<lambda>hash. user_add (orig_text (seed_auth env)) name email hash (seed_id env k)
      (seed_clock env (3 * k)) (seed_clock env (3 * k + 1))"
  let ?upd = "\<lambda>x. if changes = [] then ret ()
      else chain (user_update (orig_text (seed_auth env)) (user_id x) changes (seed_clock env (3 * k + 2))) (\<lambda>_. ret ())"
  from assms(1) consider "t = s" | hash where "?add hash s = (Inl e, t)"
    | hash x v where "?add hash s = (Inr x, v)" "?upd x v = (Inl e, t)"
    by (auto simp: seed_user_def chain_eq_Inl_iff hash_password_def of_sum_def)
  then show ?thesis
  proof cases
    case 1
    with assms(3) show ?thesis by simp
  next
    case 2
    have "keeps same_committed (user_stage_add (orig_text (seed_auth env)) name email hash None None (seed_id env k)
        (seed_clock env (3 * k)) (seed_clock env (3 * k + 1)))" by (intro frame_intros)
    from transaction_Inl [OF 2 [unfolded user_add_def] this] assms(3) show ?thesis by simp
  next
    case 3
    let ?row = "new_user_row (seed_id env k) name email hash None (seed_clock env (3 * k)) (seed_clock env (3 * k + 1))"
    note added = user_add_Inr [OF 3(1)]
    have id: "user_id x = seed_id env k" "u_id ?row = seed_id env k" "u_email ?row = email"
      using added by (simp_all add: user_to_entity_def new_user_row_def)
    obtain u where upd: "user_update (orig_text (seed_auth env)) (seed_id env k) changes (seed_clock env (3 * k + 2)) v = (Inl e, u)"
      using 3(2) id by (auto simp: chain_eq_Inl_iff split: if_splits)
    have "find_user (seed_id env k) (working v) = Some ?row"
      using added id find_added [of "seed_id env k" "working s" ?row] by simp
    moreover have "u_email q \<noteq> u_email (set_fields changes ?row)" if "q \<in> set (users (working v))" "u_id q \<noteq> seed_id env k" for q
      using that added id assms(5) by auto
    ultimately have "\<not> is_conflict_error e"
      using assms(4) by (intro update_no_conflict [OF upd]) auto
    with assms(2) show ?thesis by simp
  qed
qed

lemma seed_admin_Inr:
  assumes "seed_admin env email password s = (Inr (), t)" and "committed s = working s"
  shows "committed t = working t \<and> (\<exists>admins. working t = (working s)\<lparr>users := users (working s) @ admins\<rparr>
    \<and> length admins \<le> 1 \<and> list_all (\<lambda>r. u_email r = email \<and> u_is_active r \<and> u_is_verified r \<and> u_scopes r = admin_scopes) admins)"
proof -
  consider "seed_user env 0 ''Seed Admin'' email password [SetIsVerified True, SetIsActive True, SetScopes admin_scopes] s
      = (Inr (), t)"
    | e where "seed_user env 0 ''Seed Admin'' email password [SetIsVerified True, SetIsActive True, SetScopes admin_scopes] s
      = (Inl e, t)" "is_conflict_error e"
    using assms(1) by (auto simp: seed_admin_def attempt_eq_Inr_iff split: if_splits)
  then show ?thesis
  proof cases
    case 1
    then obtain row hash where row: "committed t = working t" "working t = (working s)\<lparr>users := users (working s) @ [row]\<rparr>"
      "same_row row (set_fields [SetIsVerified True, SetIsActive True, SetScopes admin_scopes]
         (new_user_row (seed_id env 0) ''Seed Admin'' email hash None (seed_clock env (3 * 0)) (seed_clock env (3 * 0 + 1))))"
      by (rule seed_user_Inr)
    from same_rowD [OF row(3)] have "u_email row = email \<and> u_is_active row \<and> u_is_verified row \<and> u_scopes row = admin_scopes"
      by (simp add: set_fields_def set_field_def new_user_row_def)
    with row show ?thesis by (intro conjI exI [of _ "[row]"]) auto
  next
    case 2
    have "u_email (set_fields [SetIsVerified True, SetIsActive True, SetScopes admin_scopes] r) = u_email r" for r
      by (simp add: set_fields_def set_field_def)
    with 2 have "committed t = working s \<and> working t = working s" using assms(2) by (intro seed_user_conflict) auto
    then show ?thesis by (intro conjI exI [of _ "[]"]) auto
  qed
qed

lemma disjoint_images:
  assumes "\<And>r. r \<in> B \<Longrightarrow> f r \<notin> f ` A"
  shows "f ` A \<inter> f ` B = {}"
proof (rule equals0I)
  fix e
  assume "e \<in> f ` A \<inter> f ` B"
  then have e: "e \<in> f ` A" "e \<in> f ` B" by simp_all
  from e(2) obtain r where "e = f r" "r \<in> B" by (rule imageE)
  with e(1) assms [of r] show False by simp
qed

text \<open>
  What a seeding stores: one that returns was confirmed when it ran in production, and leaves
  the users that were there (none after a reset, which also ends all sessions) followed by the
  administrator, unless there was a conflict, and the users asked for: active, without scopes, the
  first of them verified and the others not, all with different addresses, none of them the
  administrator's.
\<close>

theorem seeding_stores:
  assumes "seed host_of st env count admin_email admin_password unverified_count reset force allow_production s
             = (Inr (Some ()), t)"
  defines "base \<equiv> (if reset then (committed s)\<lparr>users := [], refresh_sessions := []\<rparr> else committed s)"
  shows "(environment st = ''production'' \<longrightarrow> allow_production)
    \<and> (\<exists>admins verified others. committed t = base\<lparr>users := users base @ admins @ verified @ others\<rparr>
        \<and> list_all (\<lambda>r. u_email r = admin_email \<and> u_is_active r \<and> u_is_verified r \<and> u_scopes r = admin_scopes) admins
        \<and> length admins \<le> 1 \<and> length verified = nat count \<and> length others = nat unverified_count
        \<and> list_all u_is_verified verified \<and> list_all (\<lambda>r. \<not> u_is_verified r) others
        \<and> list_all (\<lambda>r. u_is_active r \<and> u_scopes r = [] \<and> u_email r \<noteq> admin_email) (verified @ others)
        \<and> distinct (map u_email (verified @ others)))"
proof -
  have production: "environment st = ''production'' \<longrightarrow> allow_production"
    using assms(1) by (auto simp: seed_def ensure_safe_operation_def or_empty_def Let_def split: sum.splits if_splits)
  let ?s = "s\<lparr>working := committed s, pending := False\<rparr>"
  obtain u where run: "seed_tables env count admin_email admin_password unverified_count reset force ?s = (Inr (Some ()), u)"
    and t: "committed t = committed u"
    using assms(1) by (auto simp: seed_def seed_database_def local_session_def ensure_def Let_def split: sum.splits prod.splits)
  obtain s1 n s2 s3 progress s4 where
    reset: "(if reset then chain (db_execute Delete delete_all_users) (\<lambda>_. commit) else ret ()) ?s = (Inr (), s1)"
    and count: "db_scalar (\<lambda>tb. length (users tb)) s1 = (Inr n, s2)"
    and admin: "seed_admin env admin_email admin_password s2 = (Inr (), s3)"
    and verified: "seed_users env [SetIsVerified True, SetIsActive True] (nat count) ({admin_email}, 0, 1) s3 = (Inr (Some progress), s4)"
    and others: "chain (seed_users env [] (nat unverified_count) progress) (\<lambda>progress. ret (map_option (\<lambda>_. ()) progress)) s4
      = (Inr (Some ()), u)"
    using run by (auto simp: seed_tables_def chain_eq_Inr_iff split: if_splits option.splits)
  have s1: "committed s1 = base" "working s1 = base" using seed_reset_Inr [OF reset] by (auto simp: base_def)
  then have s2: "committed s2 = base" "working s2 = base"
    using keepsD [OF read_clean count] by (auto simp: clean_kept_def)
  obtain admins where s3: "committed s3 = working s3" "working s3 = base\<lparr>users := users base @ admins\<rparr>"
    and a: "length admins \<le> 1" "list_all (\<lambda>r. u_email r = admin_email \<and> u_is_active r \<and> u_is_verified r \<and> u_scopes r = admin_scopes) admins"
    using seed_admin_Inr [OF admin] s2 by auto
  obtain used n k where p: "progress = (used, n, k)" by (cases progress)
  obtain new where s4: "committed s4 = working s4" "working s4 = (working s3)\<lparr>users := users (working s3) @ new\<rparr>"
    and v: "length new = nat count" "list_all (\<lambda>r. u_is_active r \<and> u_is_verified r \<and> u_scopes r = [] \<and> u_email r \<noteq> admin_email) new"
      "used = insert admin_email (u_email ` set new)" "distinct (map u_email new)"
    using seed_users_Inr [OF verified [unfolded p] s3(1)] by auto
  obtain p' where "seed_users env [] (nat unverified_count) (used, n, k) s4 = (Inr (Some p'), u)"
    using others p by (auto simp: chain_eq_Inr_iff)
  then obtain new' where u: "committed u = working u" "working u = (working s4)\<lparr>users := users (working s4) @ new'\<rparr>"
    and o: "length new' = nat unverified_count" "list_all (\<lambda>r. u_is_active r \<and> \<not> u_is_verified r \<and> u_scopes r = [] \<and> u_email r \<notin> used) new'"
      "distinct (map u_email new')"
    using seed_users_Inr [of env "[]" "nat unverified_count" used n k s4 "fst p'" "fst (snd p')" "snd (snd p')" u] s4(1) by auto
  have "committed t = base\<lparr>users := users base @ admins @ new @ new'\<rparr>" using t u s4 s3 by simp
  moreover have "u_email ` set new \<inter> u_email ` set new' = {}"
    by (rule disjoint_images) (use v(3) o(2) in \<open>simp add: list_all_iff\<close>)
  then have "distinct (map u_email (new @ new'))" using v(4) o(3) by simp
  ultimately have "committed t = base\<lparr>users := users base @ admins @ new @ new'\<rparr>
        \<and> list_all (\<lambda>r. u_email r = admin_email \<and> u_is_active r \<and> u_is_verified r \<and> u_scopes r = admin_scopes) admins
        \<and> length admins \<le> 1 \<and> length new = nat count \<and> length new' = nat unverified_count
        \<and> list_all u_is_verified new \<and> list_all (\<lambda>r. \<not> u_is_verified r) new'
        \<and> list_all (\<lambda>r. u_is_active r \<and> u_scopes r = [] \<and> u_email r \<noteq> admin_email) (new @ new')
        \<and> distinct (map u_email (new @ new'))"
    using a v o by (simp add: list_all_iff ball_Un)
  then show ?thesis by (intro conjI [OF production] exI)
qed

end
