(* ===== verification/ToolWitnesses.thy ===== *)
theory ToolWitnesses
  imports ScaffoldWitnesses ScaffoldRuns Seed Samples
begin

section \<open>The commands and the seeding, applied\<close>

text \<open>A domain that is missing, a migration on a small project, and a small seeding.\<close>

definition quiet_runner :: runner where
  "quiet_runner args t = (Finished 0 [], t)"

definition no_answers :: prompts where
  "no_answers = \<lparr>domain_answer = [], name_answer = ''order'', fields_answer = []\<rparr>"


text \<open>
  Unlike the commands for one layer, \<open>create-all\<close> reads the fields only after it has made the
  domain: fields that cannot be read end it with status 1 and leave the packages behind.
\<close>

lemma create_all_leaves_packages:
  "\<exists>t. create_all small_parser (\<lambda>_. None) quiet_runner no_answers (Some ''stock'') (Some ''item'') (Some ''title'') small_project
         = (Inl (Exited 1), t) \<and> small_project [''stock'', ''models''] = None \<and> t [''stock'', ''models''] = Some Dir"
proof -
  let ?run = "create_all small_parser (\<lambda>_. None) quiet_runner no_answers (Some ''stock'') (Some ''item'') (Some ''title'') small_project"
  have "fst ?run = Inl (Exited 1)" by code_simp
  moreover have "snd ?run [''stock'', ''models''] = Some Dir" by code_simp
  moreover have "small_project [''stock'', ''models''] = None" by code_simp
  ultimately show ?thesis by (metis prod.collapse)
qed

definition registered_project :: tree where
  "registered_project = small_project(models_manifest \<mapsto> File ''from shop.models import ItemModel'', [''1_add.py''] \<mapsto> File ''op.create_table()'')"

definition add_revision :: "string \<Rightarrow> (nat, script) alembic" where
  "add_revision m = (\<lambda>s. (Inr (SingleScript (Some [''1_add.py''])), s))"

definition upgrade_once :: "(nat, unit) alembic" where
  "upgrade_once = (\<lambda>(t, d). (Inr (), (t, Suc d)))"

theorem migration_is_guarded_witness:
  "create_migration (\<lambda>_. Some ''localhost'') sample_settings (\<lambda>_. None) add_revision upgrade_once ''add'' (Some ''shop'') False True
      (registered_project, 0) = (Inr (Some []), (registered_project, 1))
   \<and> (\<exists>c. registered_project models_manifest = Some (File c) \<and> contains c ''from shop.models import'')"
proof -
  have run: "create_migration (\<lambda>_. Some ''localhost'') sample_settings (\<lambda>_. None) add_revision upgrade_once ''add'' (Some ''shop'')
      False True (registered_project, 0) = (Inr (Some []), (registered_project, 1))"
    by (simp add: create_migration_def ensure_safe_operation_def sample_settings_def default_settings_def or_empty_def
        migration_preflight_def generate_migration_def chain_def uncaught_def on_tree_def read_text_def registered_project_def
        check_domain_registered_def add_revision_def upgrade_once_def first_script_def models_manifest_def
        lint_migration_file_def startswith_def Let_def local_hosts_def)
  have "\<exists>c. fst (registered_project, 0::nat) models_manifest = Some (File c) \<and> contains c (''from '' @ ''shop'' @ ''.models import'')"
    using migration_is_guarded [OF run, of "Some []"] by (simp add: add_revision_def)
  with run show ?thesis by simp
qed

definition manifest_project :: tree where
  "manifest_project = small_project(models_manifest \<mapsto> File [])"

lemma manifest_project_sound:
  "sound (project_dirs ''shop'') (project_files ''shop'' ''order'') manifest_project"
proof -
  have "p = [] \<or> manifest_project p = None \<or> manifest_project (butlast p) = Some Dir" for p
    by (auto simp: manifest_project_def small_project_def models_manifest_def api_versions_def pyproject_def layer_init_def)
  moreover have "list_all (\<lambda>p. manifest_project p = None \<or> manifest_project p = Some Dir)
      ([] # [''shop''] # map (\<lambda>layer. [''shop'', layer]) domain_layers)"
    by (simp add: domain_layers_def manifest_project_def small_project_def models_manifest_def api_versions_def pyproject_def
        layer_init_def)
  moreover have "list_all (\<lambda>p. manifest_project p \<noteq> Some Dir)
      (module_files ''shop'' ''order'' @ map (layer_init ''shop'') domain_layers @ [models_manifest, api_versions, pyproject])"
    by (simp add: module_files_def layer_file_def dependencies_file_def domain_layers_def manifest_project_def small_project_def
        models_manifest_def api_versions_def pyproject_def layer_init_def)
  moreover have "manifest_project [] = Some Dir"
    by (simp add: manifest_project_def small_project_def models_manifest_def api_versions_def pyproject_def layer_init_def)
  ultimately show ?thesis by (auto simp: sound_def project_dirs_def project_files_def list_all_iff)
qed

lemma order_names: "resolve_names ''shop'' ''order'' = Inr (''order'', ''Order'')" by code_simp

lemma title_field: "\<exists>fs. parse_fields ''title:str'' = Inr fs"
proof -
  have "parse_fields ''title:str'' = Inr [\<lparr>fd_name = ''title'', fd_type = ''str'', fd_default = None, fd_py_type = ''str'',
      fd_sqla_type = ''String''\<rparr>]" by code_simp
  then show ?thesis by blast
qed


lemma small_model_wired:
  assumes "register_model small_parser domain model_class s = (Inr qs, s')" and "s models_manifest \<noteq> None"
    and "domain \<noteq> []"
  shows "qs = [models_manifest]"
  using assms
  by (auto simp: register_model_def Let_def chain_eq_Inr_iff reading_def path_exists_def of_result_def small_parser_def
      split: if_splits)


definition small_request :: "nat \<Rightarrow> create_user_request" where
  "small_request n =
     \<lparr>cu_name = ''Someone'', cu_email = ''test_'' @ replicate n (CHR ''0'') @ ''@example.com'', cu_password = ''secret''\<rparr>"

theorem unique_user_terminates_witness:
  "\<exists>m used'. m \<le> 1 \<and> build_unique_user small_request {cu_email (small_request 0)} 0 = Some (small_request m, used', Suc m)
     \<and> cu_email (small_request m) \<noteq> cu_email (small_request 0)"
proof -
  have "cu_email (small_request 0) \<noteq> cu_email (small_request 1)" by code_simp
  moreover have "{0..0 + card {cu_email (small_request 0)}} = {0, 1 :: nat}" by auto
  ultimately have "inj_on (\<lambda>i. cu_email (small_request i)) {0..0 + card {cu_email (small_request 0)}}"
    by (simp add: inj_on_def)
  from unique_user_terminates [OF _ this] show ?thesis by auto
qed

definition small_seed :: seed_env where
  "small_seed = \<lparr>seed_auth = sample_env, seed_request = small_request, seed_salt = (\<lambda>_. []), seed_id = (\<lambda>k. of_nat (k + 10)),
                 seed_clock = int\<rparr>"

theorem seeding_stores_witness:
  "\<exists>t admins verified others.
     seed (\<lambda>_. Some ''localhost'') sample_settings small_seed 2 ''root@x.org'' ''pw'' 1 True False False fresh = (Inr (Some ()), t)
   \<and> users (committed t) = admins @ verified @ others \<and> refresh_sessions (committed t) = []
   \<and> length verified = 2 \<and> length others = 1 \<and> distinct (map u_email (verified @ others))"
proof -
  let ?run = "seed (\<lambda>_. Some ''localhost'') sample_settings small_seed 2 ''root@x.org'' ''pw'' 1 True False False fresh"
  obtain r t where run: "?run = (r, t)" by (rule prod.exhaust)
  have "fst ?run = Inr (Some ())" by code_simp
  then have "?run = (Inr (Some ()), t)" using run by simp
  from this seeding_stores [OF this] show ?thesis by fastforce
qed

end
