(* ===== verification/IpAddress.thy ===== *)
theory IpAddress
  imports PyText
begin

section \<open>Python's ipaddress\<close>

text \<open>
  \<open>ipaddress.ip_address\<close> and \<open>ipaddress.ip_network\<close> (strict) of Python's library on texts, which
  \<open>core/setting.py\<close> uses to check hosts and proxies: \<open>None\<close> stands for the \<open>ValueError\<close> they raise.
\<close>

unbundle bit_operations_syntax

datatype ip_addr = V4 "32 word" | V6 "128 word" "string option"

datatype ip_net = Net4 "32 word" nat | Net6 "128 word" "string option" nat

subsection \<open>IPv4\<close>

definition digits :: "string \<Rightarrow> bool" where
  "digits s \<longleftrightarrow> s \<noteq> [] \<and> list_all (\<lambda>c. 48 \<le> (of_char c :: nat) \<and> (of_char c :: nat) \<le> 57) s"

definition decimal :: "string \<Rightarrow> nat" where
  "decimal s = foldl (\<lambda>n c. 10 * n + (of_char c - 48)) 0 s"

definition parse_octet :: "string \<Rightarrow> nat option" where
  "parse_octet s =
     (if \<not> digits s \<or> 3 < length s \<or> (s \<noteq> ''0'' \<and> hd s = CHR ''0'') \<or> 255 < decimal s then None
      else Some (decimal s))"

definition of_octets :: "nat \<Rightarrow> nat \<Rightarrow> nat \<Rightarrow> nat \<Rightarrow> 32 word" where
  "of_octets a b c d = word_of_nat (((a * 256 + b) * 256 + c) * 256 + d)"

definition ipv4_address :: "string \<Rightarrow> (32 word) option" where
  "ipv4_address s =
     (case map parse_octet (split_on (CHR ''.'') s) of
        [Some a, Some b, Some c, Some d] \<Rightarrow> Some (of_octets a b c d)
      | _ \<Rightarrow> None)"

subsection \<open>IPv6\<close>

definition parse_hextet :: "string \<Rightarrow> nat option" where
  "parse_hextet s = (if s = [] \<or> 4 < length s then None else foldl hex_step (Some 0) s)"

text \<open>A dotted tail stands for the last two groups.\<close>

definition ipv6_parts :: "string list \<Rightarrow> string list option" where
  "ipv6_parts parts =
     (if CHR ''.'' \<in> set (last parts)
      then map_option (\<lambda>w. butlast parts @ [hex_of 4 (unat w div 65536), hex_of 4 (unat w mod 65536)])
             (ipv4_address (last parts))
      else Some parts)"

definition of_hextets :: "nat list \<Rightarrow> nat" where
  "of_hextets hs = foldl (\<lambda>n h. 65536 * n + h) 0 hs"

definition hextets :: "string list \<Rightarrow> nat list option" where
  "hextets parts = those (map parse_hextet parts)"

text \<open>
  The empty parts, the two ends left aside, say where zeros are left out: at most one place. An
  empty part at an end needs an empty one beside it.
\<close>

definition ipv6_int :: "string list \<Rightarrow> nat option" where
  "ipv6_int parts =
     (case filter (\<lambda>i. parts ! i = []) [1..<length parts - 1] of
        [] \<Rightarrow> if length parts \<noteq> 8 then None else map_option of_hextets (hextets parts)
      | [k] \<Rightarrow>
          (let high = take k parts; low = drop (Suc k) parts;
               high = (if hd parts = [] then tl high else high);
               low = (if last parts = [] then butlast low else low)
           in if hd parts = [] \<and> high \<noteq> [] \<or> last parts = [] \<and> low \<noteq> [] \<or> 7 < length high + length low then None
              else (case (hextets high, hextets low) of
                      (Some hs, Some ls) \<Rightarrow> Some (of_hextets (hs @ replicate (8 - (length hs + length ls)) 0 @ ls))
                    | _ \<Rightarrow> None))
      | _ \<Rightarrow> None)"

definition split_scope_id :: "string \<Rightarrow> (string \<times> string option) option" where
  "split_scope_id s =
     (case split_on (CHR ''%'') s of
        [a] \<Rightarrow> Some (a, None)
      | [a, scope] \<Rightarrow> if scope = [] then None else Some (a, Some scope)
      | _ \<Rightarrow> None)"

definition ipv6_address :: "string \<Rightarrow> (128 word \<times> string option) option" where
  "ipv6_address s =
     (if CHR ''/'' \<in> set s then None
      else case split_scope_id s of None \<Rightarrow> None
      | Some (a, scope) \<Rightarrow>
          let parts = split_on (CHR '':'') a in
          if length parts < 3 then None
          else (case ipv6_parts parts of None \<Rightarrow> None
                | Some parts \<Rightarrow>
                    if 9 < length parts then None
                    else map_option (\<lambda>n. (word_of_nat n, scope)) (ipv6_int parts)))"

definition ip_address :: "string \<Rightarrow> ip_addr option" where
  "ip_address s =
     (case ipv4_address s of Some w \<Rightarrow> Some (V4 w)
      | None \<Rightarrow> map_option (\<lambda>(w, scope). V6 w scope) (ipv6_address s))"

subsection \<open>Networks\<close>

definition net_mask :: "nat \<Rightarrow> nat \<Rightarrow> 'a::len word" where
  "net_mask bits p = NOT (mask (bits - p))"

definition prefix_number :: "nat \<Rightarrow> string \<Rightarrow> nat option" where
  "prefix_number bits s = (if digits s \<and> decimal s \<le> bits then Some (decimal s) else None)"

text \<open>An IPv4 mask may also be a dotted netmask or, failing that, a host mask.\<close>

definition prefix_of_mask :: "32 word \<Rightarrow> nat option" where
  "prefix_of_mask w =
     (case find (\<lambda>p. net_mask 32 p = w) [0..<33] of Some p \<Rightarrow> Some p
      | None \<Rightarrow> find (\<lambda>p. net_mask 32 p = NOT w) [0..<33])"

definition ipv4_prefix :: "string \<Rightarrow> nat option" where
  "ipv4_prefix s =
     (case prefix_number 32 s of Some p \<Rightarrow> Some p
      | None \<Rightarrow> Option.bind (ipv4_address s) prefix_of_mask)"

definition ip_network :: "string \<Rightarrow> ip_net option" where
  "ip_network s =
     (case split_on (CHR ''/'') s of
        [a, m] \<Rightarrow>
          (case (ipv4_address a, ipv4_prefix m) of
             (Some w, Some p) \<Rightarrow> if w AND net_mask 32 p = w then Some (Net4 w p) else None
           | _ \<Rightarrow>
             (case (ipv6_address a, prefix_number 128 m) of
                (Some (w, scope), Some p) \<Rightarrow> if w AND net_mask 128 p = w then Some (Net6 w scope p) else None
              | _ \<Rightarrow> None))
      | _ \<Rightarrow> None)"

subsection \<open>The colon tells the version\<close>

lemma digits_no: "digits s \<Longrightarrow> c \<in> set s \<Longrightarrow> 48 \<le> (of_char c :: nat) \<and> (of_char c :: nat) \<le> 57"
  by (auto simp: digits_def list_all_iff)

lemma parse_octet_digits: "parse_octet s = Some n \<Longrightarrow> digits s"
  by (simp add: parse_octet_def split: if_splits)

lemma ipv4_parts:
  assumes "ipv4_address s = Some w"
  obtains o1 o2 o3 o4 a b c d where "split_on (CHR ''.'') s = [o1, o2, o3, o4]"
    "parse_octet o1 = Some a" "parse_octet o2 = Some b" "parse_octet o3 = Some c" "parse_octet o4 = Some d"
    "w = of_octets a b c d"
  using assms unfolding ipv4_address_def by (auto split: list.splits option.splits)

lemma join_set_part: "w \<in> set ws \<Longrightarrow> set w \<subseteq> set (join sep ws)"
  by (induction sep ws rule: join.induct) auto

lemma ipv4_no_colon: "ipv4_address s = Some w \<Longrightarrow> CHR '':'' \<notin> set s"
proof
  assume s: "ipv4_address s = Some w" and c: "CHR '':'' \<in> set s"
  from s obtain o1 o2 o3 o4 where parts: "split_on (CHR ''.'') s = [o1, o2, o3, o4]"
    and d: "digits o1" "digits o2" "digits o3" "digits o4"
    by (elim ipv4_parts) (auto dest: parse_octet_digits)
  have "join [CHR ''.''] [o1, o2, o3, o4] = s" by (simp only: parts [symmetric] join_split_on)
  with c have "CHR '':'' \<in> set o1 \<union> set o2 \<union> set o3 \<union> set o4" by auto
  then show False using d by (auto dest: digits_no)
qed

lemma ipv6_colon:
  assumes "ipv6_address s = Some x"
  shows "CHR '':'' \<in> set s"
proof -
  obtain a scope where a: "split_scope_id s = Some (a, scope)" and "\<not> length (split_on (CHR '':'') a) < 3"
    using assms by (auto simp: ipv6_address_def Let_def split: if_splits option.splits)
  then have "CHR '':'' \<in> set a" by (cases "CHR '':'' \<in> set a") (simp_all add: split_on_word)
  moreover have "set a \<subseteq> set s"
  proof -
    have "a \<in> set (split_on (CHR ''%'') s)"
      using a by (auto simp: split_scope_id_def split: list.splits if_splits)
    then have "set a \<subseteq> set (join [CHR ''%''] (split_on (CHR ''%'') s))" by (rule join_set_part)
    then show ?thesis by (simp only: join_split_on)
  qed
  ultimately show ?thesis by blast
qed

subsection \<open>Every address has a text\<close>

definition octets :: "32 word \<Rightarrow> nat list" where
  "octets w = (let n = unat w in [n div 16777216, n div 65536 mod 256, n div 256 mod 256, n mod 256])"

definition ipv4_text :: "32 word \<Rightarrow> string" where
  "ipv4_text w = join ''.'' (map str_nat (octets w))"

lemma last_digit: "(of_char (char_of (48 + n mod 10)) :: nat) = 48 + n mod 10" for n :: nat
  by simp

lemma decimal_snoc: "decimal (xs @ [c]) = 10 * decimal xs + (of_char c - 48)"
  by (simp add: decimal_def)

lemma str_nat_digits: "digits (str_nat n) \<and> decimal (str_nat n) = n"
proof (induction n rule: less_induct)
  case (less n)
  show ?case
  proof (cases "n < 10")
    case True
    then show ?thesis by (subst (1 2) str_nat.simps) (simp add: digits_def decimal_def)
  next
    case False
    then have "digits (str_nat (n div 10)) \<and> decimal (str_nat (n div 10)) = n div 10" by (intro less) simp
    with False mod_less_divisor [of 10 n] show ?thesis
      by (subst (1 2) str_nat.simps) (simp add: digits_def decimal_snoc last_digit del: of_char_of)
  qed
qed

lemma str_nat_head: "n \<noteq> 0 \<Longrightarrow> hd (str_nat n) \<noteq> CHR ''0''"
proof (induction n rule: less_induct)
  case (less n)
  show ?case
  proof (cases "n < 10")
    case True
    then have "(of_char (hd (str_nat n)) :: nat) = 48 + n" by (subst str_nat.simps) simp
    then show ?thesis using less.prems by auto
  next
    case False
    then show ?thesis using less.IH [of "n div 10"] by (subst str_nat.simps) (simp add: hd_append)
  qed
qed

lemma length_str_nat: "n < 10 ^ Suc k \<Longrightarrow> length (str_nat n) \<le> Suc k"
proof (induction k arbitrary: n)
  case (Suc k)
  show ?case
  proof (cases "n < 10")
    case False
    with Suc.prems have "length (str_nat (n div 10)) \<le> Suc k" by (intro Suc.IH) (simp add: less_mult_imp_div_less)
    with False show ?thesis by (subst str_nat.simps) simp
  qed (subst str_nat.simps, simp)
qed (subst str_nat.simps, simp)

lemma octet_read_back: "n < 256 \<Longrightarrow> parse_octet (str_nat n) = Some n"
  using str_nat_digits [of n] str_nat_head [of n] length_str_nat [of n 2]
  by (cases "n = 0") (auto simp: parse_octet_def str_nat.simps [of 0])

lemma octets_bound: "n \<in> set (octets w) \<Longrightarrow> n < 256"
proof -
  have "unat w < 2 ^ 32" using unsigned_less [where 'b = 32 and w = w and 'a = nat] by simp
  then show "n \<in> set (octets w) \<Longrightarrow> n < 256" by (auto simp: octets_def Let_def)
qed

lemma of_octets_octets: "octets w = [a, b, c, d] \<Longrightarrow> of_octets a b c d = w"
proof -
  assume o: "octets w = [a, b, c, d]"
  define n where "n = unat w"
  have steps: "n div 16777216 = n div 65536 div 256" "n div 65536 = n div 256 div 256" by (simp_all flip: div_mult2_eq)
  have "a * 256 + b = n div 65536" "n div 65536 * 256 + c = n div 256" "n div 256 * 256 + d = n"
    using o steps div_mult_mod_eq [of "n div 65536" 256] by (auto simp: octets_def Let_def simp flip: n_def)
  then have "((a * 256 + b) * 256 + c) * 256 + d = unat w" by (simp only: n_def)
  then show ?thesis by (simp add: of_octets_def)
qed

lemma ipv4_read_back: "ipv4_address (ipv4_text w) = Some w"
proof -
  obtain a b c d where o: "octets w = [a, b, c, d]" by (simp add: octets_def Let_def)
  have good: "parse_octet (str_nat n) = Some n" if "n \<in> {a, b, c, d}" for n
    using octets_bound [of n w] that o by (auto intro: octet_read_back)
  have "CHR ''.'' \<notin> set (str_nat n)" if "n \<in> {a, b, c, d}" for n
    using digits_no [OF parse_octet_digits [OF good [OF that]], of "CHR ''.''"] by auto
  then have "split_on (CHR ''.'') (ipv4_text w) = map str_nat [a, b, c, d]"
    unfolding ipv4_text_def o by (intro split_on_join) auto
  then show ?thesis using good of_octets_octets [OF o] by (simp add: ipv4_address_def)
qed

end
