(* ===== verification/OpenApi.thy ===== *)
theory OpenApi
  imports IpAddress Problem "HOL-Library.AList"
begin

section \<open>core/openapi.py\<close>

text \<open>
  The document that describes the API. What FastAPI generates and the JSON schema of
  \<open>ProblemDetails\<close> are parameters; a dictionary is an association list in the order of insertion.
  The state is the cached \<open>app.openapi_schema\<close>. Asking something that is no dictionary for a key is
  an \<open>AttributeError\<close>.
\<close>

type_synonym dict = "(string \<times> json) list"

definition as_dict :: "json \<Rightarrow> exc + dict" where
  "as_dict j = (case j of JObj d \<Rightarrow> Inr d | _ \<Rightarrow> Inl (AttributeError ''get''))"

definition dict_or :: "dict \<Rightarrow> string \<Rightarrow> exc + dict" where
  "dict_or d k = (case map_of d k of None \<Rightarrow> Inr [] | Some j \<Rightarrow> as_dict j)"

text \<open>The values of a dictionary, each replaced in its place.\<close>

primrec patch_values :: "(string \<Rightarrow> json \<Rightarrow> exc + json) \<Rightarrow> dict \<Rightarrow> exc + dict" where
  "patch_values f [] = Inr []"
| "patch_values f (kv # d) =
     (case f (fst kv) (snd kv) of Inl e \<Rightarrow> Inl e
      | Inr v \<Rightarrow> (case patch_values f d of Inl e \<Rightarrow> Inl e | Inr d' \<Rightarrow> Inr ((fst kv, v) # d')))"

definition problem_ref :: json where
  "problem_ref = JObj [(''$ref'', JStr ''#/components/schemas/ProblemDetails'')]"

definition error_response :: "json \<Rightarrow> json" where
  "error_response description =
     JObj [(''description'', description),
           (''content'', JObj [(problem_media_type, JObj [(''schema'', problem_ref)])])]"

definition is_error_code :: "string \<Rightarrow> bool" where
  "is_error_code c \<longleftrightarrow> digits c \<and> 400 \<le> decimal c"

definition patch_response :: "string \<Rightarrow> json \<Rightarrow> exc + json" where
  "patch_response code response =
     (if is_error_code code
      then (case as_dict response of Inl e \<Rightarrow> Inl e
            | Inr d \<Rightarrow> Inr (error_response (case map_of d ''description'' of None \<Rightarrow> JStr ''Error Response'' | Some x \<Rightarrow> x)))
      else Inr response)"

definition patch_operation :: "string \<Rightarrow> json \<Rightarrow> exc + json" where
  "patch_operation verb operation =
     (case operation of
        JObj d \<Rightarrow>
          (case dict_or d ''responses'' of Inl e \<Rightarrow> Inl e
           | Inr responses \<Rightarrow>
               (case patch_values patch_response responses of Inl e \<Rightarrow> Inl e
                | Inr responses' \<Rightarrow> Inr (JObj (AList.update ''responses'' (JObj responses') d))))
      | _ \<Rightarrow> Inr operation)"

definition patch_path :: "string \<Rightarrow> json \<Rightarrow> exc + json" where
  "patch_path p item =
     (case as_dict item of Inl e \<Rightarrow> Inl e
      | Inr d \<Rightarrow> (case patch_values patch_operation d of Inl e \<Rightarrow> Inl e | Inr d' \<Rightarrow> Inr (JObj d')))"

definition register_schemas :: "dict \<Rightarrow> dict \<Rightarrow> exc + dict" where
  "register_schemas problem_schema schemas =
     (case dict_or problem_schema ''$defs'' of Inl e \<Rightarrow> Inl e
      | Inr defs \<Rightarrow>
          Inr (AList.delete ''ValidationError'' (AList.delete ''HTTPValidationError''
            (AList.update ''ProblemDetails'' (JObj (AList.delete ''$defs'' problem_schema))
              (fold (\<lambda>(k, v). AList.update k v) defs schemas)))))"

definition patch_components :: "dict \<Rightarrow> dict \<Rightarrow> exc + dict" where
  "patch_components problem_schema doc =
     (case dict_or doc ''components'' of Inl e \<Rightarrow> Inl e
      | Inr components \<Rightarrow>
          (case dict_or components ''schemas'' of Inl e \<Rightarrow> Inl e
           | Inr schemas \<Rightarrow>
               (case register_schemas problem_schema schemas of Inl e \<Rightarrow> Inl e
                | Inr schemas' \<Rightarrow>
                    Inr (AList.update ''components'' (JObj (AList.update ''schemas'' (JObj schemas') components)) doc))))"

definition patch_paths :: "dict \<Rightarrow> exc + dict" where
  "patch_paths doc =
     (case map_of doc ''paths'' of None \<Rightarrow> Inr doc
      | Some j \<Rightarrow>
          (case as_dict j of Inl e \<Rightarrow> Inl e
           | Inr paths \<Rightarrow>
               (case patch_values patch_path paths of Inl e \<Rightarrow> Inl e
                | Inr paths' \<Rightarrow> Inr (AList.update ''paths'' (JObj paths') doc))))"

definition custom_openapi :: "dict \<Rightarrow> dict \<Rightarrow> dict option \<Rightarrow> (exc + dict) \<times> dict option" where
  "custom_openapi generated problem_schema cached =
     (if cached \<notin> {None, Some []} then (Inr (the cached), cached)
      else (case patch_components problem_schema generated of Inl e \<Rightarrow> (Inl e, cached)
            | Inr doc \<Rightarrow>
                (case patch_paths doc of Inl e \<Rightarrow> (Inl e, cached)
                 | Inr doc' \<Rightarrow> (Inr doc', Some doc'))))"

text \<open>What a route declares about its errors; the class \<open>ProblemDetails\<close> is its name here.\<close>

definition problem_responses :: "nat list \<Rightarrow> (nat \<times> json) list" where
  "problem_responses status_codes =
     fold (\<lambda>code. AList.update code (JObj
       [(''description'', JStr (''RFC 9457 Problem Details for status '' @ str_nat code)),
        (''model'', JStr ''ProblemDetails''),
        (''content'', JObj [(problem_media_type, JObj [(''schema'', problem_ref)])])])) status_codes []"

subsection \<open>Lookups\<close>

text \<open>\<open>at j ks\<close> is the value reached from \<open>j\<close> by the keys, if it is there.\<close>

fun at :: "json \<Rightarrow> string list \<Rightarrow> json option" where
  "at j [] = Some j"
| "at j (k # ks) = (case j of JObj d \<Rightarrow> Option.bind (map_of d k) (\<lambda>v. at v ks) | _ \<Rightarrow> None)"

lemma as_dict_Inr [simp]: "as_dict j = Inr d \<longleftrightarrow> j = JObj d"
  by (cases j) (auto simp: as_dict_def)

lemma dict_or_Inr: "dict_or d k = Inr x \<longleftrightarrow> map_of d k = None \<and> x = [] \<or> map_of d k = Some (JObj x)"
  by (auto simp: dict_or_def split: option.splits)

lemma patch_values_of:
  "patch_values f d = Inr d' \<Longrightarrow>
     (case map_of d k of None \<Rightarrow> map_of d' k = None | Some v \<Rightarrow> \<exists>v'. f k v = Inr v' \<and> map_of d' k = Some v')"
  by (induction d arbitrary: d') (auto split: sum.splits option.splits if_splits)

lemma patch_values_keys: "patch_values f d = Inr d' \<Longrightarrow> map fst d' = map fst d"
  by (induction d arbitrary: d') (auto split: sum.splits)

lemma map_of_update: "map_of (AList.update k v d) q = (if q = k then Some v else map_of d q)"
  by (simp add: update_conv')

lemma map_of_delete: "map_of (AList.delete k d) q = (if q = k then None else map_of d q)"
  by (simp add: delete_conv')

lemma map_of_fold_update:
  "distinct (map fst defs) \<Longrightarrow> map_of (fold (\<lambda>(k, v). AList.update k v) defs d) q
     = (case map_of defs q of None \<Rightarrow> map_of d q | Some v \<Rightarrow> Some v)"
proof (induction defs arbitrary: d)
  case (Cons kv defs)
  obtain k v where kv: "kv = (k, v)" by fastforce
  then have "map_of defs k = None" using Cons.prems by (simp add: map_of_eq_None_iff)
  with Cons show ?case by (cases "q = k") (simp_all add: kv map_of_update split: option.splits)
qed simp

subsection \<open>The document\<close>

lemma patch_operation_at:
  assumes "patch_operation verb j = Inr j'"
  shows "at j' [''responses'', code] = (case at j [''responses'', code] of None \<Rightarrow> None
      | Some r \<Rightarrow> Some (if is_error_code code
          then error_response (case at r [''description''] of None \<Rightarrow> JStr ''Error Response'' | Some x \<Rightarrow> x) else r))"
    and "key \<noteq> ''responses'' \<Longrightarrow> at j' (key # ks) = at j (key # ks)"
proof -
  show "key \<noteq> ''responses'' \<Longrightarrow> at j' (key # ks) = at j (key # ks)"
    using assms by (auto simp: patch_operation_def map_of_update split: json.splits sum.splits)
  show "at j' [''responses'', code] = (case at j [''responses'', code] of None \<Rightarrow> None
      | Some r \<Rightarrow> Some (if is_error_code code
          then error_response (case at r [''description''] of None \<Rightarrow> JStr ''Error Response'' | Some x \<Rightarrow> x) else r))"
  proof (cases j)
    case (JObj d)
    then obtain rs rs' where rs: "dict_or d ''responses'' = Inr rs" "patch_values patch_response rs = Inr rs'"
      and j': "j' = JObj (AList.update ''responses'' (JObj rs') d)"
      using assms by (auto simp: patch_operation_def split: sum.splits)
    have old: "at j [''responses'', code] = map_of rs code"
      using rs(1) JObj by (auto simp: dict_or_Inr)
    have new: "at j' [''responses'', code] = map_of rs' code"
      by (cases "map_of rs' code") (simp_all add: j' map_of_update)
    show ?thesis
    proof (cases "map_of rs code")
      case None
      then show ?thesis using patch_values_of [OF rs(2), of code] unfolding old new by simp
    next
      case (Some r)
      then obtain v where v: "patch_response code r = Inr v" "map_of rs' code = Some v"
        using patch_values_of [OF rs(2), of code] by auto
      have "at r [''description''] = map_of d ''description''" if "r = JObj d" for d
        using that by (cases "map_of d ''description''") simp_all
      with v Some show ?thesis
        unfolding old new by (auto simp: patch_response_def split: if_splits sum.splits)
    qed
  qed (use assms in \<open>auto simp: patch_operation_def\<close>)
qed

lemma patch_path_at:
  assumes "patch_path p j = Inr j'"
  shows "(at j [verb] = None \<and> at j' [verb] = None)
    \<or> (\<exists>op op'. at j [verb] = Some op \<and> patch_operation verb op = Inr op' \<and> at j' [verb] = Some op')"
proof -
  obtain d d' where d: "j = JObj d" "j' = JObj d'" and p: "patch_values patch_operation d = Inr d'"
    using assms by (auto simp: patch_path_def split: sum.splits)
  then show ?thesis using patch_values_of [OF p, of verb] by (auto split: option.splits)
qed

lemma patch_paths_at:
  assumes "patch_paths doc = Inr doc'"
  shows "(at (JObj doc) [''paths'', p] = None \<and> at (JObj doc') [''paths'', p] = None)
    \<or> (\<exists>j j'. at (JObj doc) [''paths'', p] = Some j \<and> patch_path p j = Inr j' \<and> at (JObj doc') [''paths'', p] = Some j')"
    and "member \<noteq> ''paths'' \<Longrightarrow> map_of doc' member = map_of doc member"
proof -
  show "member \<noteq> ''paths'' \<Longrightarrow> map_of doc' member = map_of doc member"
    using assms by (auto simp: patch_paths_def map_of_update split: option.splits sum.splits)
  show "(at (JObj doc) [''paths'', p] = None \<and> at (JObj doc') [''paths'', p] = None)
    \<or> (\<exists>j j'. at (JObj doc) [''paths'', p] = Some j \<and> patch_path p j = Inr j' \<and> at (JObj doc') [''paths'', p] = Some j')"
  proof (cases "map_of doc ''paths''")
    case None
    then show ?thesis using assms by (simp add: patch_paths_def)
  next
    case (Some j)
    then obtain d d' where d: "j = JObj d" "doc' = AList.update ''paths'' (JObj d') doc" and v: "patch_values patch_path d = Inr d'"
      using assms by (auto simp: patch_paths_def split: sum.splits)
    then show ?thesis
      using Some patch_values_of [OF v, of p] by (auto simp: map_of_update split: option.splits)
  qed
qed

lemma at_append: "at j (ks @ ls) = Option.bind (at j ks) (\<lambda>v. at v ls)"
  by (induction j ks rule: at.induct) (auto split: json.splits Option.bind_splits)

lemma patch_components_at:
  assumes "patch_components problem_schema doc = Inr doc'" and "dict_or problem_schema ''$defs'' = Inr defs"
    and "distinct (map fst defs)"
  shows "member \<noteq> ''components'' \<Longrightarrow> map_of doc' member = map_of doc member"
    and "map_of doc' ''components'' \<noteq> None"
    and "at (JObj doc') [''components'', ''schemas'', name] =
      (if name = ''HTTPValidationError'' \<or> name = ''ValidationError'' then None
       else if name = ''ProblemDetails'' then Some (JObj (AList.delete ''$defs'' problem_schema))
       else case map_of defs name of Some v \<Rightarrow> Some v | None \<Rightarrow> at (JObj doc) [''components'', ''schemas'', name])"
proof -
  obtain components schemas schemas' where c: "dict_or doc ''components'' = Inr components"
    and s: "dict_or components ''schemas'' = Inr schemas" and r: "register_schemas problem_schema schemas = Inr schemas'"
    and doc': "doc' = AList.update ''components'' (JObj (AList.update ''schemas'' (JObj schemas') components)) doc"
    using assms(1) by (auto simp: patch_components_def split: sum.splits)
  show "member \<noteq> ''components'' \<Longrightarrow> map_of doc' member = map_of doc member" and "map_of doc' ''components'' \<noteq> None"
    by (simp_all add: doc' map_of_update)
  have old: "at (JObj doc) [''components'', ''schemas'', name] = map_of schemas name"
    using c s by (cases "map_of schemas name") (auto simp: dict_or_Inr)
  have new: "at (JObj doc') [''components'', ''schemas'', name] = map_of schemas' name"
    by (cases "map_of schemas' name") (simp_all add: doc' map_of_update)
  show "at (JObj doc') [''components'', ''schemas'', name] =
      (if name = ''HTTPValidationError'' \<or> name = ''ValidationError'' then None
       else if name = ''ProblemDetails'' then Some (JObj (AList.delete ''$defs'' problem_schema))
       else case map_of defs name of Some v \<Rightarrow> Some v | None \<Rightarrow> at (JObj doc) [''components'', ''schemas'', name])"
    using r assms(2,3) unfolding old new
    by (auto simp: register_schemas_def map_of_update map_of_delete map_of_fold_update)
qed


subsection \<open>A small document\<close>

definition sample_document :: dict where
  "sample_document =
     [(''openapi'', JStr ''3.1.0''),
      (''paths'', JObj [(''/me'', JObj [(''get'', JObj [(''responses'', JObj
         [(''200'', JObj [(''description'', JStr ''OK'')]), (''422'', JObj [(''description'', JStr ''Validation Error'')])])])])]),
      (''components'', JObj [(''schemas'', JObj [(''HTTPValidationError'', JObj []), (''User'', JObj [])])])]"

definition sample_problem :: dict where
  "sample_problem = [(''$defs'', JObj [(''InvalidParam'', JObj [])]), (''title'', JStr ''ProblemDetails'')]"


end
