(* ===== verification/SettingsLoad.thy ===== *)
theory SettingsLoad
  imports Operations IpAddress
begin

section \<open>Loading the settings\<close>

text \<open>
  The validators of \<open>core/setting.py\<close> and \<open>get_settings\<close>. The values come from the environment, or
  are the defaults; \<open>fields_set\<close> names those that were given. The library checks every field, also
  the defaults, in the order of the class and reports all errors, each with its field; the model
  validator runs when there are none. Fields without a validator of the program's own are only
  typed.
\<close>

definition compose_caddy_ip :: string where "compose_caddy_ip = ''172.28.0.10''"

definition validate_server_hosts :: "string \<Rightarrow> string + string" where
  "validate_server_hosts value =
     (case find (\<lambda>entry. ip_address entry = None) (split_csv value) of
        Some entry \<Rightarrow> Inl (''SERVER_HOSTS entry '' @ py_repr entry @ '' is not an IP address'')
      | None \<Rightarrow> Inr value)"

definition proxy_entry :: "string \<Rightarrow> bool" where
  "proxy_entry entry \<longleftrightarrow> entry = ''*''
     \<or> (if CHR ''/'' \<in> set entry then ip_network entry \<noteq> None else ip_address entry \<noteq> None)"

definition validate_forwarded_allow_ips :: "string \<Rightarrow> string + string" where
  "validate_forwarded_allow_ips value =
     (case find (\<lambda>entry. \<not> proxy_entry entry) (split_csv value) of
        Some entry \<Rightarrow> Inl (''FORWARDED_ALLOW_IPS entry '' @ py_repr entry @ '' is not an IP address, a CIDR network or '' @ py_repr ''*'')
      | None \<Rightarrow> Inr value)"

definition field_error :: "string \<Rightarrow> string + 'a \<Rightarrow> (string \<times> string) list" where
  "field_error loc r = (case r of Inl e \<Rightarrow> [(loc, e)] | Inr _ \<Rightarrow> [])"

definition validate_environment :: "string \<Rightarrow> string + string" where
  "validate_environment value =
     (if value = ''local'' \<or> value = ''production'' then Inr value else Inl ''literal_error'')"

definition get_settings :: "string set \<Rightarrow> settings \<Rightarrow> (string \<times> string) list + settings" where
  "get_settings fields_set given =
     (let errors = field_error ''environment'' (validate_environment (environment given))
            @ field_error ''server_hosts'' (validate_server_hosts (server_hosts given))
            @ field_error ''forwarded_allow_ips'' (validate_forwarded_allow_ips (forwarded_allow_ips given))
      in if errors \<noteq> [] then Inl errors
         else Inr (trust_compose_caddy_locally (''forwarded_allow_ips'' \<notin> fields_set)
                     (given\<lparr>backend_url := ensure_scheme (backend_url given)\<rparr>)))"

definition redis_url :: "settings \<Rightarrow> string" where
  "redis_url st = ''redis://'' @ redis_host st @ '':'' @ str_nat (redis_port st) @ ''/'' @ str_nat (redis_db st)"

subsection \<open>What loaded settings are\<close>

text \<open>The socket family of a host is that of its address.\<close>

definition family_of :: "ip_addr \<Rightarrow> string" where
  "family_of a = (case a of V4 _ \<Rightarrow> ''AF_INET'' | V6 _ _ \<Rightarrow> ''AF_INET6'')"

lemma socket_family_ip: "ip_address h = Some a \<Longrightarrow> socket_family h = family_of a"
  using ipv4_no_colon [of h] ipv6_colon [of h]
  by (auto simp: ip_address_def socket_family_def family_of_def split: option.splits)

lemma split_on_append: "split_on c (xs @ c # ys) = split_on c xs @ split_on c ys"
proof (induction xs)
  case (Cons x xs)
  obtain w ws where "split_on c xs = w # ws" by (cases "split_on c xs") auto
  with Cons show ?case by simp
qed simp

lemma split_csv_append: "split_csv (a @ CHR '','' # b) = split_csv a @ split_csv b"
  by (simp add: split_csv_def split_on_append)

lemma find_case_Inr:
  "(case find p xs of Some x \<Rightarrow> Inl (f x) | None \<Rightarrow> Inr v) = Inr w \<longleftrightarrow> w = v \<and> list_all (\<lambda>x. \<not> p x) xs"
  by (induction xs) auto

lemma validate_server_hosts_Inr:
  "validate_server_hosts value = Inr v \<longleftrightarrow> v = value \<and> list_all (\<lambda>h. ip_address h \<noteq> None) (split_csv value)"
  by (simp only: validate_server_hosts_def find_case_Inr)

lemma validate_forwarded_Inr:
  "validate_forwarded_allow_ips value = Inr v \<longleftrightarrow> v = value \<and> list_all proxy_entry (split_csv value)"
  by (simp only: validate_forwarded_allow_ips_def find_case_Inr not_not)

lemma field_error_Nil: "field_error loc r = [] \<longleftrightarrow> (\<exists>v. r = Inr v)"
  by (cases r) (simp_all add: field_error_def)

lemmas ip_simps = ip_address_def ipv4_address_def ipv6_address_def parse_octet_def digits_def decimal_def
  split_scope_id_def ipv6_parts_def ipv6_int_def hextets_def parse_hextet_def hex_step_def hex_value_def of_hextets_def

lemma caddy_entry: "split_csv compose_caddy_ip = [compose_caddy_ip] \<and> proxy_entry compose_caddy_ip"
proof -
  have "ip_address compose_caddy_ip \<noteq> None" by (simp add: compose_caddy_ip_def ip_simps)
  then have "proxy_entry compose_caddy_ip" by (simp add: proxy_entry_def compose_caddy_ip_def)
  moreover have "split_csv compose_caddy_ip = [compose_caddy_ip]" by code_simp
  ultimately show ?thesis by simp
qed

text \<open>
  C38: Settings that load can be used: every host to serve on is an address, and the development
  server opens for it a socket of the address's own family; every trusted proxy is an address, a
  network or \<open>*\<close>; the address of the backend has a scheme. The proxies are the ones that were given,
  and only where none were given, outside production, the local reverse proxy is trusted besides.
\<close>

theorem loaded_settings_usable:
  assumes "get_settings fields_set given = Inr st"
  shows "list_all (\<lambda>h. case ip_address h of None \<Rightarrow> False | Some a \<Rightarrow> socket_family h = family_of a) (server_host_list st)
    \<and> list_all proxy_entry (split_csv (forwarded_allow_ips st)) \<and> contains (backend_url st) ''://''
    \<and> split_csv (forwarded_allow_ips st) = split_csv (forwarded_allow_ips given)
        @ (if ''forwarded_allow_ips'' \<notin> fields_set \<and> environment st \<noteq> ''production'' then [compose_caddy_ip] else [])"
proof -
  have checked: "validate_environment (environment given) = Inr (environment given)"
    "list_all (\<lambda>h. ip_address h \<noteq> None) (split_csv (server_hosts given))"
    "list_all proxy_entry (split_csv (forwarded_allow_ips given))"
    and st: "st = trust_compose_caddy_locally (''forwarded_allow_ips'' \<notin> fields_set)
               (given\<lparr>backend_url := ensure_scheme (backend_url given)\<rparr>)"
    using assms
    by (auto simp: get_settings_def Let_def field_error_Nil validate_server_hosts_Inr validate_forwarded_Inr
        validate_environment_def split: if_splits)
  have same: "server_hosts st = server_hosts given" "environment st = environment given"
    "backend_url st = ensure_scheme (backend_url given)"
    by (simp_all add: st trust_compose_caddy_locally_def)
  have forwarded: "split_csv (forwarded_allow_ips st) = split_csv (forwarded_allow_ips given)
        @ (if ''forwarded_allow_ips'' \<notin> fields_set \<and> environment st = ''local'' then [compose_caddy_ip] else [])"
    using caddy_entry split_csv_append [of "forwarded_allow_ips given" compose_caddy_ip]
    by (simp add: st trust_compose_caddy_locally_def compose_caddy_ip_def)
  have env: "environment st = ''local'' \<longleftrightarrow> environment st \<noteq> ''production''"
    using checked(1) by (auto simp: same(2) validate_environment_def split: if_splits)
  have "list_all (\<lambda>h. case ip_address h of None \<Rightarrow> False | Some a \<Rightarrow> socket_family h = family_of a) (server_host_list st)"
    using checked(2) socket_family_ip by (auto simp: server_host_list_def same(1) list_all_iff split: option.splits)
  with checked(3) forwarded caddy_entry same(3) ensure_scheme_contains [of "backend_url given"] env show ?thesis by simp
qed

text \<open>Any list of IPv4 addresses can be served: written in a row it is accepted and read back.\<close>

lemma any_hosts_accepted:
  assumes "ws \<noteq> []"
  shows "validate_server_hosts (join '','' (map ipv4_text ws)) = Inr (join '','' (map ipv4_text ws))"
    and "map ip_address (split_csv (join '','' (map ipv4_text ws))) = map (Some \<circ> V4) ws"
proof -
  have plain: "strip (ipv4_text w) = ipv4_text w \<and> CHR '','' \<notin> set (ipv4_text w)" for w
  proof -
    obtain o1 o2 o3 o4 where parts: "split_on (CHR ''.'') (ipv4_text w) = [o1, o2, o3, o4]"
      and d: "digits o1" "digits o2" "digits o3" "digits o4"
      using ipv4_read_back [of w] by (elim ipv4_parts) (auto dest: parse_octet_digits)
    have "join [CHR ''.''] [o1, o2, o3, o4] = ipv4_text w" by (simp only: parts [symmetric] join_split_on)
    from arg_cong [OF this, of set] have "set (ipv4_text w) \<subseteq> {CHR ''.''} \<union> set o1 \<union> set o2 \<union> set o3 \<union> set o4" by auto
    then have "c = CHR ''.'' \<or> 48 \<le> (of_char c :: nat) \<and> (of_char c :: nat) \<le> 57" if "c \<in> set (ipv4_text w)" for c
      using that d by (auto dest: digits_no)
    then have "\<not> py_space c \<and> c \<noteq> CHR '',''" if "c \<in> set (ipv4_text w)" for c
      using that by (fastforce simp: py_space_def)
    then show ?thesis using strip_where_absent [of "ipv4_text w" py_space] by (auto simp: strip_def)
  qed
  have csv: "split_csv (join '','' (map ipv4_text ws)) = map ipv4_text ws"
  proof -
    have "split_on (CHR '','') (join '','' (map ipv4_text ws)) = map ipv4_text ws"
      using assms plain by (intro split_on_join) auto
    with plain show ?thesis by (simp add: split_csv_def)
  qed
  then show "map ip_address (split_csv (join '','' (map ipv4_text ws))) = map (Some \<circ> V4) ws"
    by (simp add: ip_address_def ipv4_read_back)
  from csv show "validate_server_hosts (join '','' (map ipv4_text ws)) = Inr (join '','' (map ipv4_text ws))"
    by (simp add: validate_server_hosts_Inr list_all_iff ip_address_def ipv4_read_back)
qed

theorem loaded_settings_usable_witness:
  "\<exists>st. get_settings {''server_hosts''} ((default_settings ''postgresql://db'')\<lparr>server_hosts := ''10.0.0.7, ::1''\<rparr>) = Inr st
    \<and> server_host_list st = [''10.0.0.7'', ''::1'']
    \<and> list_all (\<lambda>h. case ip_address h of None \<Rightarrow> False | Some a \<Rightarrow> socket_family h = family_of a) (server_host_list st)
    \<and> split_csv (forwarded_allow_ips st) = [''127.0.0.1'', ''::1''] @ [compose_caddy_ip]"
proof -
  let ?given = "(default_settings ''postgresql://db'')\<lparr>server_hosts := ''10.0.0.7, ::1''\<rparr>"
  have "split_csv ''10.0.0.7, ::1'' = [''10.0.0.7'', ''::1'']" and csv: "split_csv ''127.0.0.1,::1'' = [''127.0.0.1'', ''::1'']"
    by code_simp+
  moreover have "ip_address ''10.0.0.7'' \<noteq> None" "ip_address ''::1'' \<noteq> None" "ip_address ''127.0.0.1'' \<noteq> None"
    by (simp_all add: ip_simps Let_def)
  ultimately have "\<exists>st. get_settings {''server_hosts''} ?given = Inr st"
    by (simp add: get_settings_def Let_def field_error_Nil validate_server_hosts_Inr validate_forwarded_Inr
        validate_environment_def default_settings_def proxy_entry_def)
  then obtain st where st: "get_settings {''server_hosts''} ?given = Inr st" ..
  moreover have "server_hosts st = ''10.0.0.7, ::1''" "environment st = ''local''"
    using st by (auto simp: get_settings_def Let_def trust_compose_caddy_locally_def default_settings_def split: if_splits)
  ultimately show ?thesis
    using loaded_settings_usable [OF st] csv \<open>split_csv ''10.0.0.7, ::1'' = [''10.0.0.7'', ''::1'']\<close>
    by (auto simp: server_host_list_def default_settings_def)
qed

end
