(* ===== verification/Logging.thy ===== *)
theory Logging
  imports OpenApi SettingsLoad
begin

section \<open>core/logging/setup.py\<close>

text \<open>
  The log lines. A record has the time, the level, the logger's name, the message with its
  arguments filled in, the texts of an exception and of a stack if it carries them, and
  \<open>log_vars\<close>, all its attributes (\<open>vars(record)\<close>) in their order, with values that are no JSON as
  the text \<open>str\<close> gives for them. \<open>isoformat\<close> writes a time.
\<close>

record log_record =
  log_created :: time
  log_levelname :: string
  log_name :: string
  log_message :: string
  log_exc_text :: "string option"
  log_stack_text :: "string option"
  log_vars :: dict

definition non_extra_fields :: "string list" where
  "non_extra_fields =
     [''name'', ''msg'', ''args'', ''levelname'', ''levelno'', ''pathname'', ''filename'', ''module'', ''exc_info'', ''exc_text'',
      ''stack_info'', ''lineno'', ''funcName'', ''created'', ''msecs'', ''relativeCreated'', ''thread'', ''threadName'',
      ''processName'', ''process'', ''taskName'', ''message'', ''asctime'', ''request_id'', ''color_message'']"

definition request_id_filter :: "string \<Rightarrow> log_record \<Rightarrow> log_record" where
  "request_id_filter request_id r = r\<lparr>log_vars := AList.update ''request_id'' (JStr request_id) (log_vars r)\<rparr>"

subsection \<open>\<open>json.dumps\<close>\<close>

definition escape_char :: "char \<Rightarrow> string" where
  "escape_char c =
     (let n = of_char c :: nat; slash = CHR 0x5C in
      if n = 34 \<or> n = 92 then [slash, c]
      else if n = 8 then [slash, CHR ''b''] else if n = 9 then [slash, CHR ''t'']
      else if n = 10 then [slash, CHR ''n''] else if n = 12 then [slash, CHR ''f'']
      else if n = 13 then [slash, CHR ''r'']
      else if n < 32 \<or> 126 < n then [slash, CHR ''u''] @ hex_of 4 n
      else [c])"

definition dumps_str :: "string \<Rightarrow> string" where
  "dumps_str s = [CHR 0x22] @ concat (map escape_char s) @ [CHR 0x22]"

primrec dumps :: "json \<Rightarrow> string" where
  "dumps JNull = ''null''"
| "dumps (JBool b) = (if b then ''true'' else ''false'')"
| "dumps (JInt i) = str_int i"
| "dumps (JStr s) = dumps_str s"
| "dumps (JList js) = ''['' @ join '', '' (map dumps js) @ '']''"
| "dumps (JObj d) = ''{'' @ join '', '' (map (\<lambda>(k, v). dumps_str k @ '': '' @ v) (map (map_prod id dumps) d)) @ ''}''"

subsection \<open>Lines\<close>

definition log_extras :: "log_record \<Rightarrow> dict" where
  "log_extras r = filter (\<lambda>(k, v). k \<notin> set non_extra_fields) (log_vars r)"

definition log_entry :: "(time \<Rightarrow> string) \<Rightarrow> log_record \<Rightarrow> dict" where
  "log_entry isoformat r =
     (let entry =
        [(''timestamp'', JStr (isoformat (log_created r))), (''level'', JStr (log_levelname r)), (''logger'', JStr (log_name r)),
         (''message'', JStr (log_message r)),
         (''correlation_id'', case map_of (log_vars r) ''request_id'' of None \<Rightarrow> JStr ''-'' | Some j \<Rightarrow> j)]
        @ (case log_exc_text r of None \<Rightarrow> [] | Some s \<Rightarrow> [(''exception'', JStr s)])
        @ (case log_stack_text r of None \<Rightarrow> [] | Some s \<Rightarrow> [(''stack'', JStr s)])
      in fold (\<lambda>(k, v). AList.update k v) (log_extras r) entry)"

definition json_format :: "(time \<Rightarrow> string) \<Rightarrow> log_record \<Rightarrow> string" where
  "json_format isoformat r = dumps (JObj (log_entry isoformat r))"

subsection \<open>The configuration\<close>

text \<open>Classes are their names; the formatter and the filter of the file stand for themselves.\<close>

definition console_handler :: "bool \<Rightarrow> json" where
  "console_handler json_logs =
     JObj [(''level'', JStr ''INFO''), (''class'', JStr ''logging.StreamHandler''), (''stream'', JStr ''ext://sys.stdout''),
           (''formatter'', JStr (if json_logs then ''json'' else ''standard'')), (''filters'', JList [JStr ''request_id_filter''])]"

definition build_logging_config :: "bool \<Rightarrow> bool \<Rightarrow> json" where
  "build_logging_config json_logs echo_sql =
     JObj
       [(''version'', JInt 1), (''disable_existing_loggers'', JBool False),
        (''filters'', JObj [(''request_id_filter'', JObj [(''()'', JStr ''RequestIdFilter'')])]),
        (''formatters'', JObj
          [(''standard'', JObj
             [(''format'', JStr ''%(asctime)s | %(levelname)-8s | [%(request_id)s] | %(name)s | %(message)s''),
              (''datefmt'', JStr ''%Y-%m-%d %H:%M:%S'')]),
           (''json'', JObj [(''()'', JStr ''JsonFormatter'')])]),
        (''handlers'', JObj [(''console'', console_handler json_logs)]),
        (''loggers'', JObj
          (([], JObj [(''handlers'', JList [JStr ''console'']), (''level'', JStr ''INFO'')])
           # map (\<lambda>name. (name, JObj [(''handlers'', JList [JStr ''console'']), (''level'', JStr ''INFO''), (''propagate'', JBool False)]))
               [''uvicorn'', ''uvicorn.error'', ''uvicorn.access'']
           @ [(''sqlalchemy.engine'', JObj [(''level'', JStr (if echo_sql then ''INFO'' else ''WARNING''))])]))]"

definition setup_logging :: "settings \<Rightarrow> bool \<Rightarrow> json" where
  "setup_logging st db_echo = build_logging_config (environment st = ''production'') db_echo"

text \<open>The handler's formatter and filters are defined, whichever formatter is chosen.\<close>

lemma logging_config_closed:
  fixes st :: settings and db_echo :: bool
  defines "cfg \<equiv> setup_logging st db_echo"
  shows "\<exists>formatter. at cfg [''handlers'', ''console'', ''formatter''] = Some (JStr formatter)
     \<and> at cfg [''formatters'', formatter] \<noteq> None \<and> (formatter = ''json'' \<longleftrightarrow> environment st = ''production'')"
proof (cases "environment st = ''production''")
  case True
  then show ?thesis
    by (intro exI [of _ "''json''"]) (simp add: cfg_def setup_logging_def build_logging_config_def console_handler_def)
next
  case False
  then show ?thesis
    by (intro exI [of _ "''standard''"]) (simp add: cfg_def setup_logging_def build_logging_config_def console_handler_def)
qed

subsection \<open>One record, one line\<close>

definition plain_char :: "char \<Rightarrow> bool" where
  "plain_char c \<longleftrightarrow> 32 \<le> (of_char c :: nat) \<and> (of_char c :: nat) \<le> 126"

lemma plain_punctuation [simp]:
  "plain_char (CHR ''['')" "plain_char (CHR '']'')" "plain_char (CHR ''{'')" "plain_char (CHR ''}'')"
  "plain_char (CHR '','')" "plain_char (CHR '':'')" "plain_char (CHR '' '')" "plain_char (CHR 0x22)"
  by (simp_all add: plain_char_def)

lemma hex_char_plain: "hex_char c \<Longrightarrow> plain_char c"
  by (auto simp: hex_char_def plain_char_def)

lemma escape_char_plain: "list_all plain_char (escape_char c)"
proof -
  have "list_all plain_char (hex_of 4 n)" for n
    using hex_of_chars [of _ 4 n] hex_char_plain by (auto simp: list_all_iff)
  then show ?thesis by (auto simp: escape_char_def Let_def plain_char_def)
qed

lemma dumps_str_plain: "list_all plain_char (dumps_str s)"
proof -
  have "list_all plain_char (concat (map escape_char s))"
    using escape_char_plain by (induction s) auto
  then show ?thesis by (simp add: dumps_str_def)
qed

lemma str_int_plain: "list_all plain_char (str_int i)"
proof -
  have "list_all plain_char (str_nat n)" for n
    using str_nat_digits [of n] by (auto simp: digits_def plain_char_def list_all_iff)
  then show ?thesis by (auto simp: str_int_def plain_char_def)
qed

lemma join_plain: "list_all plain_char sep \<Longrightarrow> list_all (list_all plain_char) ws \<Longrightarrow> list_all plain_char (join sep ws)"
  by (induction sep ws rule: join.induct) auto

lemma dumps_plain: "list_all plain_char (dumps j)"
proof (induction j)
  case (JList js)
  then have "list_all (list_all plain_char) (map dumps js)" by (simp add: list_all_iff)
  then show ?case using join_plain [of "'', ''"] by simp
next
  case (JObj d)
  then have "list_all (list_all plain_char) (map (\<lambda>(k, v). dumps_str k @ '': '' @ v) (map (map_prod id dumps) d))"
    using dumps_str_plain by (fastforce simp: list_all_iff)
  then show ?case using join_plain [of "'', ''"] by simp
next
  case (JBool b)
  then show ?case by (cases b) (simp_all add: plain_char_def)
qed (simp_all add: dumps_str_plain str_int_plain, simp_all add: plain_char_def)

lemma map_of_fold_update_none:
  "q \<notin> fst ` set defs \<Longrightarrow> map_of (fold (\<lambda>(k, v). AList.update k v) defs d) q = map_of d q"
  by (induction defs arbitrary: d) (auto simp: map_of_update)

lemma log_entry_own:
  assumes "q \<notin> fst ` set (log_extras r)"
  shows "map_of (log_entry isoformat r) q = map_of
       ([(''timestamp'', JStr (isoformat (log_created r))), (''level'', JStr (log_levelname r)), (''logger'', JStr (log_name r)),
         (''message'', JStr (log_message r)),
         (''correlation_id'', case map_of (log_vars r) ''request_id'' of None \<Rightarrow> JStr ''-'' | Some j \<Rightarrow> j)]
        @ (case log_exc_text r of None \<Rightarrow> [] | Some s \<Rightarrow> [(''exception'', JStr s)])
        @ (case log_stack_text r of None \<Rightarrow> [] | Some s \<Rightarrow> [(''stack'', JStr s)])) q"
  unfolding log_entry_def Let_def by (rule map_of_fold_update_none) (rule assms)

lemma extras_update_request_id: "log_extras (request_id_filter rid r) = log_extras r"
proof -
  have "filter (\<lambda>(k, v). k \<notin> set non_extra_fields) (AList.update ''request_id'' x d)
      = filter (\<lambda>(k, v). k \<notin> set non_extra_fields) d" for x d
    by (induction d) (auto simp: non_extra_fields_def)
  then show ?thesis by (simp add: log_extras_def request_id_filter_def)
qed


text \<open>An extra may take the place of a member of its own: here a level that is not the record's.\<close>

lemma extra_replaces_level:
  "map_of (log_entry isoformat
       \<lparr>log_created = 0, log_levelname = ''ERROR'', log_name = ''app'', log_message = ''x'', log_exc_text = None, log_stack_text = None,
        log_vars = [(''level'', JStr ''DEBUG'')]\<rparr>) ''level'' = Some (JStr ''DEBUG'')"
  by (simp add: log_entry_def log_extras_def non_extra_fields_def)

end
