(* ===== verification/Lifecycle.thy ===== *)
theory Lifecycle
  imports Operations
begin

section \<open>Connections and the worker's end\<close>

text \<open>
  The listeners \<open>core/database.py\<close> attaches to the connection pools, and the worker's shutdown hook
  in \<open>core/worker/main.py\<close>.
\<close>

subsection \<open>The pools' listeners\<close>

text \<open>
  The state of a connection record is the time it was checked out, if it is. A pool that is a
  \<open>QueuePool\<close> tells how many connections are checked out, its size and its overflow. A time of
  zero is no time to the code. \<open>seconds_text\<close> writes a duration with two decimals.
\<close>

definition receive_checkout :: "nat \<Rightarrow> time \<Rightarrow> (nat \<times> nat \<times> int) option \<Rightarrow> time option \<Rightarrow> time option \<times> log list" where
  "receive_checkout db_pool_size now pool started =
     (Some now,
      case pool of None \<Rightarrow> []
      | Some (checked_out, pool_size, overflow) \<Rightarrow>
          if db_pool_size \<le> checked_out
          then [Warning (''Database pool is heavily utilized. Checked out: '' @ str_nat checked_out
                         @ '', Size: '' @ str_nat pool_size @ '', Overflow: '' @ str_int overflow)] else [])"

definition receive_checkin :: "(time \<Rightarrow> string) \<Rightarrow> time \<Rightarrow> time option \<Rightarrow> time option \<times> log list" where
  "receive_checkin seconds_text now started =
     (None,
      case started of None \<Rightarrow> []
      | Some t \<Rightarrow>
          if t \<noteq> 0 \<and> seconds 2 < now - t
          then [Warning (''Connection leak! DB connection held for '' @ seconds_text (now - t) @ '' seconds.'')] else [])"

text \<open>
  A leak is reported once, when the connection comes back, for the connections held longer than
  two seconds and for no other.
\<close>

lemma leak_reported_once:
  assumes "receive_checkout n t0 pool s0 = (s1, w1)" and "t0 \<noteq> 0"
    and "receive_checkin txt t1 s1 = (s2, w2)" and "receive_checkin txt t2 s2 = (s3, w3)"
  shows "(w2 \<noteq> [] \<longleftrightarrow> seconds 2 < t1 - t0) \<and> w3 = []"
  using assms by (auto simp: receive_checkout_def receive_checkin_def split: if_splits)

subsection \<open>The worker's shutdown\<close>

text \<open>
  The relay's task is cancelled and awaited; what it raises besides the cancellation is raised on.
  Then the pools are closed, one after the other. \<open>relay\<close> is the task, if there is one, with the
  error it ends with; the result is the error that leaves the hook, and what was done.
\<close>

datatype worker_event = RelayEnded | Released lifetime

definition release_pools ::
  "string option option \<Rightarrow> string option \<Rightarrow> string option \<Rightarrow> string option \<times> worker_event list" where
  "release_pools relay engines_error redis_error =
     (let ev = (if relay = None then [] else [RelayEnded]) in
      case relay of Some (Some e) \<Rightarrow> (Some e, ev)
      | _ \<Rightarrow>
        (case engines_error of Some e \<Rightarrow> (Some e, ev @ [Released (CloseFailed ''database engines'')])
         | None \<Rightarrow>
             (case redis_error of
                Some e \<Rightarrow> (Some e, ev @ [Released (Closed ''database engines''), Released (CloseFailed ''redis'')])
              | None \<Rightarrow> (None, ev @ [Released (Closed ''database engines''), Released (Closed ''redis'')]))))"

text \<open>Nothing is closed under a relay that still runs, and a shutdown without errors closes both pools.\<close>

lemma pools_outlive_relay:
  "case release_pools (Some relay) engines_error redis_error of (r, ev) \<Rightarrow>
     hd ev = RelayEnded \<and> (r = None \<longrightarrow> set ev = {RelayEnded, Released (Closed ''database engines''), Released (Closed ''redis'')})"
  by (auto simp: release_pools_def Let_def split: option.splits if_splits)

text \<open>Unlike the application's lifespan, the hook leaves Redis open when the engines cannot be closed.\<close>

lemma failed_engines_leave_redis:
  "release_pools relay (Some e) redis_error = (r, ev) \<Longrightarrow> Released (Closed ''redis'') \<notin> set ev \<and> Released (CloseFailed ''redis'') \<notin> set ev"
  by (auto simp: release_pools_def Let_def split: option.splits if_splits)

end
