(* ===== verification/Spec2Isabelle.thy ===== *)
theory Spec2Isabelle
  imports MoreWitnesses ToolWitnesses Logging Lifecycle
begin

section \<open>fasti-kit, verified\<close>

text \<open>
  \<^bold>\<open>What the program is.\<close> fasti-kit is a FastAPI service: accounts with password sign-in, mailed
  verification and reset links, access tokens and rotating refresh cookies, and the machinery
  around them. A request runs through the middlewares (\<open>core/middlewares\<close>, \<open>main.py\<close>), a router
  (\<open>auth/routes\<close>, \<open>user/routes\<close>, \<open>core/dead_letter/router.py\<close>), its dependencies
  (\<open>auth/dependencies.py\<close>, \<open>user/dependencies.py\<close>) and a service (\<open>auth/services\<close>, \<open>user/services\<close>);
  services use repositories (\<open>*/repositories\<close>, \<open>core/outbox/repository.py\<close>) in the transactions of a
  session that routes statements to a primary or a replica (\<open>core/database.py\<close>). What has to happen
  after a commit is stored as an outbox event in the same transaction; the relay
  (\<open>core/outbox/relay.py\<close>) hands events to the queue, the worker (\<open>core/worker\<close>) runs them, and a job
  that fails for good becomes a dead letter (\<open>core/dead_letter\<close>) that an administrator can retry.
  Revoked tokens are rows, with a copy in Redis (\<open>auth/blocklist.py\<close>). Cron jobs clean up; the schema
  is built by the revisions of \<open>alembic/versions\<close>, under an advisory lock. The tools of \<open>scripts\<close>
  write the modules of a new component and wire them into the application, make migrations, and
  fill a database with demonstration users.

  \<^bold>\<open>The shape of the model.\<close> Code that changes state is a function from a state to a result and a
  state (\<open>act\<close> in Prelude: \<open>ret\<close>, \<open>raise\<close>, \<open>chain\<close>, \<open>attempt\<close> for try, \<open>ensure\<close> for finally); a raised
  exception is the left side of the result. The state of a repository is a \<open>session\<close> (Database): the
  committed tables, the transaction's tables, the replica's, the flags of the routing session, and
  \<open>budget\<close>, the number of statements after which the connection breaks, which makes every
  operation fail at every point. A request's state is a \<open>world\<close>: a session and Redis. Clocks, fresh
  UUIDs and salts are arguments, in the order in which the code reads them; time is whole
  microseconds. UUIDs are 128-bit words, text is a list of characters. The tools work on a \<open>tree\<close>
  (Files): a map from paths to directories and texts.

  \<^bold>\<open>The theories.\<close>
  \<^item> Prelude, PyText: the effect combinators, their frame rules (\<open>keeps\<close>, \<open>frame_intros\<close>, the locale
    \<open>frame_relation\<close>) and list updates; Python's string methods, UUID text, \<open>int()\<close>, \<open>repr\<close>.
  \<^item> Errors: \<open>core/exception.py\<close>, \<open>auth/exceptions.py\<close>. Tables: the model classes and their constraints.
    Database: \<open>core/database.py\<close> (routing, failover, pinning, transactions, sessions).
  \<^item> OutboxRepo, UserRepo, TokenRepo, SessionRepo, AccountRepo, DeadLetter: one repository each, with
    entities and, for dead letters, service and hook.
  \<^item> Redis, Blocklist, Cache: \<open>core/redis.py\<close>, \<open>auth/blocklist.py\<close>, \<open>core/cache.py\<close>.
  \<^item> World, AuthDeps, AuthService, AuthProps: request state, \<open>auth/dependencies.py\<close>,
    \<open>auth/services/*.py\<close>, and what the services promise.
  \<^item> Settings, Relay, WorkerTasks: \<open>core/setting.py\<close>, \<open>core/outbox/relay.py\<close> with \<open>core/queue.py\<close>, and
    \<open>core/worker\<close> with \<open>core/mail.py\<close>.
  \<^item> Problem, Middlewares, Routes: \<open>core/problem.py\<close> with \<open>auth/errors.py\<close>; \<open>core/middlewares\<close> and the
    stack of \<open>main.py\<close>; routers, schemas, dependencies and \<open>user_service.py\<close>.
  \<^item> Program, Revocation, RouteProps: every database operation as a step of one program, interleaved
    with all others; the blocklist and the table of revoked tokens together; cookies and scopes.
    SessionLife: the automaton of one refresh session, and that the program refines it.
  \<^item> Api: the table of routes that \<open>main.py\<close>, \<open>core/api_versions.py\<close> and the routers put together, how a
    request finds its endpoint (\<open>resolve\<close>) and what it then does (\<open>handle\<close>): dependencies, refusals, the
    endpoint. Service: the middlewares and handlers around it, from the request to the response.
  \<^item> Schema, Migrations, MigrationLock, MigrationEnv: DDL statements on a catalog, the revisions as data
    with the declared models to compare with, concurrent processes under \<open>core/migration_lock.py\<close>, and
    one process of \<open>alembic/env.py\<close> step by step on its connection, which refines one of those.
  \<^item> Operations: \<open>core/health.py\<close>, \<open>core/startup_checks.py\<close>, the lifespan, \<open>core/safety.py\<close>,
    \<open>core/dev_server.py\<close>, \<open>core/deprecation.py\<close>.
  \<^item> IpAddress, SettingsLoad: Python's \<open>ipaddress\<close> on texts, and the validators and \<open>get_settings\<close> of
    \<open>core/setting.py\<close>. OpenApi: \<open>core/openapi.py\<close>. Logging: \<open>core/logging/setup.py\<close>. Lifecycle: the
    pools' listeners of \<open>core/database.py\<close> and the worker's shutdown.
  \<^item> Naming, Files, Wiring, Generators: \<open>scripts/_boilerplate.py\<close> (fields and names; files and the
    project's tree; the edits of \<open>__init__.py\<close>, of the manifests and of \<open>pyproject.toml\<close>) and the
    generators of \<open>scripts/create_*.py\<close>. ScaffoldProps: what they keep and add. Commands: the
    commands around them and \<open>create_migration.py\<close>. ScaffoldRuns: a run that nothing stops succeeds.
  \<^item> Seed: \<open>scripts/seed.py\<close> with \<open>core/factories/user_factory.py\<close>, on the repositories above.
  \<^item> Samples, Witnesses, MoreWitnesses, ScaffoldWitnesses, ToolWitnesses: concrete states and the
    properties applied to them.

  \<^bold>\<open>What the lemmas show.\<close> For each operation: its effect on success (\<open>..._Inr\<close> lemmas), that it
  keeps committed data until its commit (\<open>same_committed\<close>), that it pins the session to the primary
  before it writes (\<open>pin_kept\<close>, \<open>staged_pinned_kept\<close>), and which tables it can touch at all
  (\<open>stmt_rel\<close>, \<open>table_kept\<close> and their instances, each an interpretation of the locales
  \<open>frame_relation\<close> or \<open>table_relation\<close>). On top of them stand the properties: all-or-nothing
  transactions and their users; single use of refresh generations, mailed links, and retries in any
  interleaving (\<open>claim_trace\<close>, \<open>program_run\<close>); sessions and tokens that stay ended; constraints in
  every reachable database; the relay as a refinement of the event life cycle, its liveness and
  bounds; the API as a whole, which answers every request once, opens only its public endpoints
  without a token and writes nothing on a GET; the error documents and headers; the cache; the
  migrations, one process and many; settings that
  can be used; log lines that are lines; the API's document; the tools, which lose no work,
  refuse without a trace, reach their end, and make components that the migrations see.

  \<^bold>\<open>Bounds.\<close> Loops are structural recursions over lists. The relay's endless loop is its single turn
  (\<open>relay_turn\<close>), and liveness counts the turns that suffice: as many as there are pending events,
  with a batch of at least one. The loop that draws a user with a new address
  (\<open>build_unique_user\<close>, a \<open>partial_function\<close>) may run for ever; it returns when the next addresses
  are different, one more than there are used ones.

  \<^bold>\<open>Not modelled.\<close> Third-party code is a parameter with, where it matters, its documented law as a
  hypothesis: bcrypt, PyJWT, AuthX, SAQ's queue, FastMail, Pydantic's parsing and rendering, the
  driver's error text, cursor pagination, the parsers of Python and TOML (\<open>ast_parse\<close>, \<open>loads\<close>),
  ruff, pytest, Alembic's autogeneration, the factory library, and what a user answers to a prompt.
  The tools' messages are left out. SQLAlchemy's identity map and the widths of VARCHAR
  columns are left out, as are a commit whose acknowledgement is lost, ties in \<open>ORDER BY\<close> (the order of
  insertion decides), and row locks beyond \<open>SKIP LOCKED\<close> (a set of locked ids). Case mapping and white
  space are ASCII's. gzip, CORS, proxy headers, metrics and rate limits are configuration of
  libraries. Steps of one request are atomic in Revocation.
  Whether a client is within its rate is an argument of \<open>handle\<close>. The framework's own routes
  (documentation, metrics) and its redirection of trailing slashes are left out. Offline mode of
  \<open>alembic/env.py\<close> prints SQL and changes no state. The bases of the test factories hold no logic.
\<close>

end
